(* ===== verification/Prelude.thy ===== *)
theory Prelude
  imports Complex_Main "HOL-Library.Word"
begin

text \<open>
  Shared vocabulary of the development: the machine types of the Go sources, the nanosecond
  clock, lists used as ordered containers, and the locales that the stateful components
  instantiate: a machine driven by a list of operations with an invariant every operation, or every
  admissible one, keeps, and a container that may forget but never invents a binding.
\<close>

section \<open>Machine types\<close>

type_synonym byte = "8 word"
type_synonym u16 = "16 word"
type_synonym u32 = "32 word"

text \<open>
  \<open>time.Time\<close> and \<open>time.Duration\<close> are nanosecond counts. They are kept as \<^typ>\<open>int\<close>; where
  a product may leave the 64-bit range, \<open>wrap64\<close> writes the two's complement wrap out.
\<close>

type_synonym time = int
type_synonym duration = int

definition second :: duration where
  "second = 1000000000"

definition millisecond :: duration where
  "millisecond = 1000000"

definition wrap64 :: "int \<Rightarrow> int" where
  "wrap64 x = (x + 2 ^ 63) mod 2 ^ 64 - 2 ^ 63"

text \<open>Go's integer division truncates towards zero.\<close>

definition quot :: "int \<Rightarrow> int \<Rightarrow> int" where
  "quot a b = sgn a * sgn b * (\<bar>a\<bar> div \<bar>b\<bar>)"

lemma second_pos [simp]: "0 < second"
  by (simp add: second_def)

lemma wrap64_id: "- (2 ^ 63) \<le> x \<Longrightarrow> x < 2 ^ 63 \<Longrightarrow> wrap64 x = x"
  by (simp add: wrap64_def)

lemma quot_nonneg: "0 \<le> a \<Longrightarrow> 0 < b \<Longrightarrow> quot a b = a div b"
  by (cases "a = 0") (simp_all add: quot_def)

section \<open>Lists as ordered containers\<close>

definition move_front :: "'a \<Rightarrow> 'a list \<Rightarrow> 'a list" where
  "move_front x xs = x # filter (\<lambda>y. y \<noteq> x) xs"

lemma set_move_front [simp]: "x \<in> set xs \<Longrightarrow> set (move_front x xs) = set xs"
  by (auto simp: move_front_def)

lemma distinct_move_front [simp]: "distinct xs \<Longrightarrow> distinct (move_front x xs)"
  by (simp add: move_front_def)

lemma filter_neq_absent: "x \<notin> set xs \<Longrightarrow> filter (\<lambda>y. y \<noteq> x) xs = xs"
  by (induction xs) auto

lemma length_filter_neq:
  "distinct xs \<Longrightarrow> x \<in> set xs \<Longrightarrow> length (filter (\<lambda>y. y \<noteq> x) xs) = length xs - 1"
  by (induction xs) (auto simp: filter_neq_absent intro!: Suc_pred length_pos_if_in_set)

lemma length_move_front [simp]:
  "distinct xs \<Longrightarrow> x \<in> set xs \<Longrightarrow> length (move_front x xs) = length xs"
  by (auto simp: move_front_def length_filter_neq intro!: Suc_pred length_pos_if_in_set)

lemma filter_neq_last:
  "distinct xs \<Longrightarrow> xs \<noteq> [] \<Longrightarrow> filter (\<lambda>y. y \<noteq> last xs) xs = butlast xs"
  by (induction xs rule: rev_induct) (auto simp: filter_neq_absent)

lemma find_Some_conv:
  "find P xs = Some x \<Longrightarrow> x \<in> set xs \<and> P x"
  by (induction xs) (auto split: if_splits)

section \<open>Machines driven by a list of operations\<close>

text \<open>
  A component is a function from a state and an operation to the next state. What every single
  operation keeps, any run of operations keeps.
\<close>

locale guarded_machine =
  fixes step :: "'s \<Rightarrow> 'e \<Rightarrow> 's"
    and inv :: "'s \<Rightarrow> bool"
    and ok :: "'e \<Rightarrow> bool"
  assumes guarded_step: "inv s \<Longrightarrow> ok e \<Longrightarrow> inv (step s e)"
begin

lemma guarded_run: "inv s \<Longrightarrow> list_all ok es \<Longrightarrow> inv (foldl step s es)"
  by (induction es arbitrary: s) (auto intro: guarded_step)

end

locale machine =
  fixes step :: "'s \<Rightarrow> 'e \<Rightarrow> 's"
    and inv :: "'s \<Rightarrow> bool"
  assumes step_inv: "inv s \<Longrightarrow> inv (step s e)"

sublocale machine \<subseteq> guarded_machine step inv "\<lambda>e. True"
  by unfold_locales (rule step_inv)

context machine
begin

lemma run_inv: "inv s \<Longrightarrow> inv (foldl step s es)"
  by (rule guarded_run) (simp_all add: list_all_iff)

lemma run_frame:
  assumes "inv s" and "\<And>s e. inv s \<Longrightarrow> f (step s e) = f s"
  shows "f (foldl step s es) = f s"
  using assms(1) by (induction es arbitrary: s) (auto simp: assms(2) step_inv)

end

section \<open>Containers that may forget\<close>

text \<open>
  A bounded container holds at most what an unbounded map would hold after the same
  operations: it may lose a binding, it never invents or revives one.
\<close>

locale forgetful = machine step inv
  for step :: "'s \<Rightarrow> 'e \<Rightarrow> 's" and inv :: "'s \<Rightarrow> bool" +
  fixes lookup :: "'s \<Rightarrow> ('k \<rightharpoonup> 'v)"
    and ideal :: "('k \<rightharpoonup> 'v) \<Rightarrow> 'e \<Rightarrow> ('k \<rightharpoonup> 'v)"
  assumes step_le: "inv s \<Longrightarrow> lookup s \<subseteq>\<^sub>m m \<Longrightarrow> lookup (step s e) \<subseteq>\<^sub>m ideal m e"
begin

lemma run_le: "inv s \<Longrightarrow> lookup s \<subseteq>\<^sub>m m \<Longrightarrow> lookup (foldl step s es) \<subseteq>\<^sub>m foldl ideal m es"
  by (induction es arbitrary: s m) (auto intro: step_inv step_le)

lemma run_lookup:
  "inv s \<Longrightarrow> lookup s \<subseteq>\<^sub>m m \<Longrightarrow> lookup (foldl step s es) k = Some v \<Longrightarrow> foldl ideal m es k = Some v"
  using run_le by (metis domI map_le_def)

end

end
