(* ===== verification/Go_Std.thy ===== *)
theory Go_Std
  imports Prelude "HOL-Library.Sublist"
begin

text \<open>
  The part of the Go standard library the modelled sources call: string trimming and
  splitting, decimal numbers, host:port pairs (\<open>net.SplitHostPort\<close>, \<open>net.JoinHostPort\<close>), IP
  addresses and CIDR networks (\<open>net.IP\<close>, \<open>net.IPNet\<close>, \<open>net.ParseIP\<close>, \<open>net.ParseCIDR\<close>,
  \<open>netip.ParseAddrPort\<close>). A Go string is a list of bytes, as HOL's \<^typ>\<open>string\<close> is.
\<close>

unbundle bit_operations_syntax

section \<open>Strings\<close>

definition TrimSuffix :: "string \<Rightarrow> string \<Rightarrow> string" where
  "TrimSuffix s suf = (if suffix suf s then take (length s - length suf) s else s)"

definition TrimPrefix :: "string \<Rightarrow> string \<Rightarrow> string" where
  "TrimPrefix s pre = (if prefix pre s then drop (length pre) s else s)"

text \<open>\<open>strings.Split\<close> on a one-byte separator.\<close>

fun split_on :: "char \<Rightarrow> string \<Rightarrow> string list" where
  "split_on c [] = [[]]"
| "split_on c (x # xs) =
     (if x = c then [] # split_on c xs
      else (case split_on c xs of [] \<Rightarrow> [[x]] | w # ws \<Rightarrow> (x # w) # ws))"

text \<open>The text before and after the last occurrence of a byte.\<close>

definition split_last :: "char \<Rightarrow> string \<Rightarrow> (string \<times> string) option" where
  "split_last c s =
     (case dropWhile (\<lambda>x. x \<noteq> c) (rev s) of
        [] \<Rightarrow> None
      | _ # r \<Rightarrow> Some (rev r, rev (takeWhile (\<lambda>x. x \<noteq> c) (rev s))))"

lemma split_last_snoc:
  "c \<notin> set p \<Longrightarrow> split_last c (h @ c # p) = Some (h, p)"
proof -
  assume a: "c \<notin> set p"
  then have "takeWhile (\<lambda>x. x \<noteq> c) (rev p @ c # rev h) = rev p"
    and "dropWhile (\<lambda>x. x \<noteq> c) (rev p @ c # rev h) = c # rev h"
    by (auto simp: takeWhile_append dropWhile_append)
  then show ?thesis by (simp add: split_last_def)
qed

lemma split_last_None: "split_last c s = None \<longleftrightarrow> c \<notin> set s"
proof (cases "c \<in> set s")
  case True
  then obtain h p where "s = h @ c # p" and "c \<notin> set p"
    by (auto dest: split_list_last)
  then show ?thesis by (simp add: split_last_snoc)
next
  case False
  then have d: "dropWhile (\<lambda>x. x \<noteq> c) (rev s) = []" by auto
  show ?thesis using False unfolding split_last_def d by simp
qed

lemma split_last_Some:
  assumes "split_last c s = Some (h, p)"
  shows "s = h @ c # p \<and> c \<notin> set p"
proof -
  obtain x r where d: "dropWhile (\<lambda>x. x \<noteq> c) (rev s) = x # r"
    and h: "h = rev r" and p: "p = rev (takeWhile (\<lambda>x. x \<noteq> c) (rev s))"
    using assms by (auto simp: split_last_def split: list.splits)
  have x: "x = c" using hd_dropWhile [of "\<lambda>x. x \<noteq> c" "rev s"] d by simp
  have "rev s = takeWhile (\<lambda>x. x \<noteq> c) (rev s) @ c # r"
    using takeWhile_dropWhile_id [of "\<lambda>x. x \<noteq> c" "rev s"] d x by simp
  then have "rev (rev s) = rev (takeWhile (\<lambda>x. x \<noteq> c) (rev s) @ c # r)" by simp
  then have "s = h @ c # p" by (simp add: h p)
  moreover have "c \<notin> set p" by (auto simp: p dest: set_takeWhileD)
  ultimately show ?thesis by simp
qed

definition digit :: "char \<Rightarrow> nat option" where
  "digit c = (let n = of_char c in if 48 \<le> n \<and> n \<le> 57 then Some (n - 48) else None)"

definition hex_digit :: "char \<Rightarrow> nat option" where
  "hex_digit c =
     (let n = of_char c in
      if 48 \<le> n \<and> n \<le> 57 then Some (n - 48)
      else if 97 \<le> n \<and> n \<le> 102 then Some (n - 87)
      else if 65 \<le> n \<and> n \<le> 70 then Some (n - 55) else None)"

fun dec_acc :: "nat \<Rightarrow> string \<Rightarrow> nat option" where
  "dec_acc a [] = Some a"
| "dec_acc a (c # cs) = (case digit c of None \<Rightarrow> None | Some d \<Rightarrow> dec_acc (10 * a + d) cs)"

definition dec_nat :: "string \<Rightarrow> nat option" where
  "dec_nat s = (if s = [] then None else dec_acc 0 s)"

section \<open>host:port\<close>

definition SplitHostPort :: "string \<Rightarrow> (string \<times> string) option" where
  "SplitHostPort hp =
     (case split_last (CHR '':'') hp of
        None \<Rightarrow> None
      | Some (pre, port) \<Rightarrow>
          if hd hp = CHR ''['' then
            (let e = length (takeWhile (\<lambda>c. c \<noteq> CHR '']'') hp) in
             if e + 1 \<noteq> length pre then None
             else if CHR ''['' \<in> set (drop 1 hp) \<or> CHR '']'' \<in> set (drop (e + 1) hp) then None
             else Some (drop 1 (take e hp), port))
          else if CHR '':'' \<in> set pre then None
          else if CHR ''['' \<in> set hp \<or> CHR '']'' \<in> set hp then None
          else Some (pre, port))"

definition JoinHostPort :: "string \<Rightarrow> string \<Rightarrow> string" where
  "JoinHostPort host port =
     (if CHR '':'' \<in> set host then CHR ''['' # host @ '']:'' @ port else host @ CHR '':'' # port)"

definition plain_port :: "string \<Rightarrow> bool" where
  "plain_port p \<longleftrightarrow> CHR '':'' \<notin> set p \<and> CHR ''['' \<notin> set p \<and> CHR '']'' \<notin> set p"

definition plain_host :: "string \<Rightarrow> bool" where
  "plain_host h \<longleftrightarrow> CHR ''['' \<notin> set h \<and> CHR '']'' \<notin> set h"

lemma takeWhile_neq_append: "c \<notin> set xs \<Longrightarrow> takeWhile (\<lambda>x. x \<noteq> c) (xs @ c # ys) = xs"
  by (induction xs) auto

lemma Split_Join_HostPort:
  assumes "plain_host h" and "plain_port p"
  shows "SplitHostPort (JoinHostPort h p) = Some (h, p)"
proof (cases "CHR '':'' \<in> set h")
  case True
  let ?hp = "CHR ''['' # h @ CHR '']'' # CHR '':'' # p"
  have s: "split_last (CHR '':'') ?hp = Some (CHR ''['' # h @ [CHR '']''], p)"
    using split_last_snoc [of "CHR '':''" p "CHR ''['' # h @ '']''"] assms(2)
    by (simp add: plain_port_def)
  have t: "takeWhile (\<lambda>c. c \<noteq> CHR '']'') ?hp = CHR ''['' # h"
    using takeWhile_neq_append [of "CHR '']''" "CHR ''['' # h" "CHR '':'' # p"] assms(1)
    by (simp add: plain_host_def)
  have "JoinHostPort h p = ?hp" using True by (simp add: JoinHostPort_def)
  moreover have "SplitHostPort ?hp = Some (h, p)"
    using assms unfolding SplitHostPort_def s t
    by (simp add: plain_host_def plain_port_def)
  ultimately show ?thesis by simp
next
  case False
  let ?hp = "h @ CHR '':'' # p"
  have "split_last (CHR '':'') ?hp = Some (h, p)"
    using assms(2) by (simp add: split_last_snoc plain_port_def)
  moreover have "hd ?hp \<noteq> CHR ''[''"
    using assms(1) by (cases h) (auto simp: plain_host_def)
  moreover have "CHR ''['' \<notin> set ?hp" and "CHR '']'' \<notin> set ?hp"
    using assms by (simp_all add: plain_host_def plain_port_def)
  moreover have "JoinHostPort h p = ?hp" using False by (simp add: JoinHostPort_def)
  ultimately show ?thesis using False by (simp only: SplitHostPort_def option.case prod.case if_False simp_thms)
qed

section \<open>IP addresses\<close>

text \<open>
  \<open>net.IP\<close> is a byte slice of length 4 or 16; the nil slice is the empty list.
\<close>

type_synonym ip = "byte list"

definition v4InV6Prefix :: "byte list" where
  "v4InV6Prefix = replicate 10 0 @ [0xff, 0xff]"

definition To4 :: "ip \<Rightarrow> ip" where
  "To4 x =
     (if length x = 4 then x
      else if length x = 16 \<and> take 12 x = v4InV6Prefix then drop 12 x else [])"

definition To16 :: "ip \<Rightarrow> ip" where
  "To16 x = (if length x = 4 then v4InV6Prefix @ x else if length x = 16 then x else [])"

definition IP_Equal :: "ip \<Rightarrow> ip \<Rightarrow> bool" where
  "IP_Equal a b =
     (if length a = length b then a = b
      else if length a = 4 \<and> length b = 16 then v4InV6Prefix @ a = b
      else if length a = 16 \<and> length b = 4 then a = v4InV6Prefix @ b else False)"

definition IP_IsLoopback :: "ip \<Rightarrow> bool" where
  "IP_IsLoopback x =
     (case To4 x of b # _ \<Rightarrow> b = 127 | [] \<Rightarrow> IP_Equal x (replicate 15 0 @ [1]))"

definition IP_IsPrivate :: "ip \<Rightarrow> bool" where
  "IP_IsPrivate x =
     (case To4 x of
        b0 # b1 # _ \<Rightarrow> b0 = 10 \<or> (b0 = 172 \<and> b1 AND 0xf0 = 16) \<or> (b0 = 192 \<and> b1 = 168)
      | _ \<Rightarrow> length x = 16 \<and> hd x AND 0xfe = 0xfc)"

definition IP_IsLinkLocalUnicast :: "ip \<Rightarrow> bool" where
  "IP_IsLinkLocalUnicast x =
     (case To4 x of
        b0 # b1 # _ \<Rightarrow> b0 = 169 \<and> b1 = 254
      | _ \<Rightarrow> length x = 16 \<and> hd x = 0xfe \<and> x ! 1 AND 0xc0 = 0x80)"

definition IP_IsMulticast :: "ip \<Rightarrow> bool" where
  "IP_IsMulticast x =
     (case To4 x of b # _ \<Rightarrow> b AND 0xf0 = 0xe0 | [] \<Rightarrow> length x = 16 \<and> hd x = 0xff)"

definition IP_IsUnspecified :: "ip \<Rightarrow> bool" where
  "IP_IsUnspecified x \<longleftrightarrow> IP_Equal x (v4InV6Prefix @ replicate 4 0) \<or> IP_Equal x (replicate 16 0)"

definition IP_IsGlobalUnicast :: "ip \<Rightarrow> bool" where
  "IP_IsGlobalUnicast x \<longleftrightarrow>
     (length x = 4 \<or> length x = 16) \<and> \<not> IP_Equal x (v4InV6Prefix @ replicate 4 0xff)
     \<and> \<not> IP_IsUnspecified x \<and> \<not> IP_IsLoopback x \<and> \<not> IP_IsMulticast x
     \<and> \<not> IP_IsLinkLocalUnicast x"

subsection \<open>Networks\<close>

record ipnet =
  net_IP :: ip
  net_Mask :: "byte list"

fun CIDRMask :: "nat \<Rightarrow> nat \<Rightarrow> byte list" where
  "CIDRMask n 0 = []"
| "CIDRMask n (Suc l) =
     (if 8 \<le> n then 0xff # CIDRMask (n - 8) l else NOT (drop_bit n 0xff) # CIDRMask 0 l)"

definition IP_Mask :: "ip \<Rightarrow> byte list \<Rightarrow> ip" where
  "IP_Mask x0 m0 =
     (let m = (if length m0 = 16 \<and> length x0 = 4 \<and> take 12 m0 = replicate 12 0xff
               then drop 12 m0 else m0);
          x = (if length m = 4 \<and> length x0 = 16 \<and> take 12 x0 = v4InV6Prefix then drop 12 x0 else x0)
      in if length x \<noteq> length m then [] else map2 (AND) x m)"

definition networkNumberAndMask :: "ipnet \<Rightarrow> ip \<times> byte list" where
  "networkNumberAndMask n =
     (let x = (if To4 (net_IP n) \<noteq> [] then To4 (net_IP n) else net_IP n); m = net_Mask n in
      if length x \<noteq> 4 \<and> length x \<noteq> 16 then ([], [])
      else if length m = 4 then (if length x \<noteq> 4 then ([], []) else (x, m))
      else if length m = 16 then (x, if length x = 4 then drop 12 m else m)
      else ([], []))"

definition IPNet_Contains :: "ipnet \<Rightarrow> ip \<Rightarrow> bool" where
  "IPNet_Contains n x0 =
     (let (nn, m) = networkNumberAndMask n;
          x = (if To4 x0 \<noteq> [] then To4 x0 else x0)
      in length x = length nn \<and> map2 (AND) nn m = map2 (AND) x m)"

end
