(* ===== verification/Go_Net.thy ===== *)
theory Go_Net
  imports Go_Std
begin

text \<open>
  Text forms of addresses (\<open>netip.ParseAddr\<close>, \<open>net.ParseIP\<close>, \<open>net.ParseCIDR\<close>,
  \<open>netip.ParseAddrPort\<close>) and the lemma that a CIDR mask of \<open>n\<close> ones compares exactly the first
  \<open>n\<close> bits of two addresses.
\<close>

unbundle bit_operations_syntax

section \<open>Parsing addresses\<close>

definition v4_field :: "string \<Rightarrow> byte option" where
  "v4_field s =
     (if length s > 1 \<and> hd s = CHR ''0'' then None
      else case dec_nat s of
        None \<Rightarrow> None
      | Some n \<Rightarrow> if n \<le> 255 then Some (word_of_nat n) else None)"

definition parseIPv4 :: "string \<Rightarrow> ip option" where
  "parseIPv4 s =
     (case map v4_field (split_on (CHR ''.'') s) of
        [Some a, Some b, Some c, Some d] \<Rightarrow> Some [a, b, c, d]
      | _ \<Rightarrow> None)"

definition is_hex :: "char \<Rightarrow> bool" where
  "is_hex c \<longleftrightarrow> hex_digit c \<noteq> None"

definition hex_nat :: "string \<Rightarrow> nat" where
  "hex_nat ds = foldl (\<lambda>a c. case hex_digit c of Some d \<Rightarrow> 16 * a + d | None \<Rightarrow> a) 0 ds"

text \<open>
  The loop of \<open>netip.parseIPv6\<close>: one 16-bit group per round, at most eight rounds, with the
  position of the \<open>::\<close> when there is one.
\<close>

fun v6_loop :: "nat \<Rightarrow> string \<Rightarrow> ip \<Rightarrow> nat option \<Rightarrow> (ip \<times> nat option \<times> string) option" where
  "v6_loop 0 s ip0 ell = Some (ip0, ell, s)"
| "v6_loop (Suc k) s ip0 ell =
     (let ds = takeWhile is_hex s; rest = dropWhile is_hex s; i = length ip0 in
      if ds = [] \<or> 4 < length ds then None
      else if rest \<noteq> [] \<and> hd rest = CHR ''.'' then
        (if (ell = None \<and> i \<noteq> 12) \<or> 12 < i then None
         else case parseIPv4 s of None \<Rightarrow> None | Some b \<Rightarrow> Some (ip0 @ b, ell, []))
      else
        (let ip1 = ip0 @ [word_of_nat (hex_nat ds div 256), word_of_nat (hex_nat ds mod 256)] in
         if rest = [] then Some (ip1, ell, [])
         else if hd rest \<noteq> CHR '':'' \<or> tl rest = [] then None
         else if hd (tl rest) = CHR '':'' then
           (if ell \<noteq> None then None
            else if tl (tl rest) = [] then Some (ip1, Some (i + 2), [])
            else v6_loop k (tl (tl rest)) ip1 (Some (i + 2)))
         else v6_loop k (tl rest) ip1 ell))"

definition v6_finish :: "ip \<Rightarrow> nat option \<Rightarrow> ip option" where
  "v6_finish x ell =
     (case ell of
        None \<Rightarrow> if length x < 16 then None else Some x
      | Some e \<Rightarrow>
          if length x < 16 then Some (take e x @ replicate (16 - length x) 0 @ drop e x)
          else None)"

definition parseIPv6 :: "string \<Rightarrow> (ip \<times> string) option" where
  "parseIPv6 s0 =
     (let s = takeWhile (\<lambda>c. c \<noteq> CHR ''%'') s0; z = drop (length s + 1) s0 in
      if CHR ''%'' \<in> set s0 \<and> z = [] then None
      else if s = ''::'' then Some (replicate 16 0, z)
      else case (if prefix ''::'' s then v6_loop 8 (drop 2 s) [] (Some 0) else v6_loop 8 s [] None) of
          None \<Rightarrow> None
        | Some (x, ell, rest) \<Rightarrow>
            if rest \<noteq> [] then None else map_option (\<lambda>b. (b, z)) (v6_finish x ell))"

definition ParseAddr :: "string \<Rightarrow> (ip \<times> string) option" where
  "ParseAddr s =
     (case find (\<lambda>c. c = CHR ''.'' \<or> c = CHR '':'' \<or> c = CHR ''%'') s of
        None \<Rightarrow> None
      | Some c \<Rightarrow>
          if c = CHR ''.'' then map_option (\<lambda>b. (b, [])) (parseIPv4 s)
          else if c = CHR '':'' then parseIPv6 s else None)"

definition ParseIP :: "string \<Rightarrow> ip" where
  "ParseIP s =
     (case ParseAddr s of
        Some (b, z) \<Rightarrow> if z = [] then To16 b else []
      | None \<Rightarrow> [])"

definition ParseCIDR :: "string \<Rightarrow> ipnet option" where
  "ParseCIDR s =
     (if CHR ''/'' \<notin> set s then None
      else
        (let addr = takeWhile (\<lambda>c. c \<noteq> CHR ''/'') s; m = drop (length addr + 1) s in
         case ParseAddr addr of
           None \<Rightarrow> None
         | Some (b, z) \<Rightarrow>
             if z \<noteq> [] then None
             else case dec_nat m of
               None \<Rightarrow> None
             | Some n \<Rightarrow>
                 if 8 * length b < n then None
                 else Some \<lparr>net_IP = IP_Mask (To16 b) (CIDRMask n (length b)),
                            net_Mask = CIDRMask n (length b)\<rparr>))"

record addr_port =
  ap_Addr :: ip
  ap_Zone :: string
  ap_Port :: nat

definition ParseAddrPort :: "string \<Rightarrow> addr_port option" where
  "ParseAddrPort s =
     (case split_last (CHR '':'') s of
        None \<Rightarrow> None
      | Some (h, p) \<Rightarrow>
          if h = [] \<or> p = [] then None
          else
            (let bracket = (hd h = CHR ''['') in
             if bracket \<and> (length h < 2 \<or> last h \<noteq> CHR '']'') then None
             else
               (let h' = (if bracket then butlast (tl h) else h) in
                case (dec_nat p, ParseAddr h') of
                  (Some n, Some (b, z)) \<Rightarrow>
                    if 65535 < n then None
                    else if bracket \<noteq> (length b = 16) then None
                    else Some \<lparr>ap_Addr = b, ap_Zone = z, ap_Port = n\<rparr>
                | _ \<Rightarrow> None)))"

lemma parseIPv4_length: "parseIPv4 s = Some x \<Longrightarrow> length x = 4"
  by (auto simp: parseIPv4_def split: list.splits option.splits)

lemmas parse_simps = ParseIP_def ParseAddr_def parseIPv4_def v4_field_def dec_nat_def digit_def
  To16_def v4InV6Prefix_def parseIPv6_def is_hex_def hex_digit_def hex_nat_def v6_finish_def Let_def

lemmas v6_loop_num = v6_loop.simps(2) [of "pred_numeral v" for v, folded numeral_eq_Suc]

lemma parse_examples:
  "ParseIP ''10.0.0.1'' = v4InV6Prefix @ [10, 0, 0, 1]"
  "ParseIP ''2400:3200::1'' = [0x24, 0, 0x32, 0] @ replicate 10 0 @ [0, 1]"
  "ParseIP ''10.0.0.256'' = []"
  "ParseIP ''example.com'' = []"
  by (simp_all add: parse_simps v6_loop_num)

section \<open>Masks compare prefixes\<close>

definition byte_bits :: "byte \<Rightarrow> bool list" where
  "byte_bits b = map (bit b) [7, 6, 5, 4, 3, 2, 1, 0]"

definition ip_bits :: "byte list \<Rightarrow> bool list" where
  "ip_bits x = concat (map byte_bits x)"

lemma length_byte_bits [simp]: "length (byte_bits b) = 8"
  by (simp add: byte_bits_def)

lemma length_ip_bits [simp]: "length (ip_bits x) = 8 * length x"
  by (induction x) (simp_all add: ip_bits_def)

lemma all_less_8: "(\<forall>k<8. P k) \<longleftrightarrow> P 0 \<and> P 1 \<and> P 2 \<and> P 3 \<and> P 4 \<and> P 5 \<and> P 6 \<and> P (7::nat)"
  by (simp add: numeral_eq_Suc All_less_Suc) blast

lemma byte_eq_iff: "x = y \<longleftrightarrow> (\<forall>k<8. bit x k = bit (y::byte) k)"
  by (auto simp: bit_eq_iff bit_imp_le_length dest: bit_imp_le_length)

lemma byte_bits_inject [simp]: "byte_bits x = byte_bits y \<longleftrightarrow> x = y"
  by (auto simp: byte_bits_def byte_eq_iff [of x] all_less_8)

lemma bit_mask_byte: "k < 8 \<Longrightarrow> bit (NOT (drop_bit n 0xff) :: byte) k \<longleftrightarrow> 8 \<le> n + k"
proof -
  have ff: "(0xff :: byte) = mask 8" by (simp add: mask_eq_exp_minus_1)
  assume "k < 8"
  then show ?thesis
    by (auto simp: bit_not_iff bit_drop_bit_eq ff bit_mask_iff)
qed

lemma masked_byte_eq_iff:
  assumes "n < 8"
  shows "x AND NOT (drop_bit n 0xff) = y AND NOT (drop_bit n (0xff :: byte))
    \<longleftrightarrow> take n (byte_bits x) = take n (byte_bits y)"
proof -
  have "x AND NOT (drop_bit n 0xff) = y AND NOT (drop_bit n (0xff :: byte))
    \<longleftrightarrow> (\<forall>k<8. 8 \<le> n + k \<longrightarrow> bit x k = bit y k)"
    unfolding byte_eq_iff [of "x AND _"] by (auto simp: bit_and_iff bit_mask_byte)
  also have "\<dots> \<longleftrightarrow> take n (byte_bits x) = take n (byte_bits y)"
  proof -
    from assms have "n \<in> {0, 1, 2, 3, 4, 5, 6, 7}" by auto
    then show ?thesis unfolding all_less_8
      by (elim insertE emptyE) (auto simp: byte_bits_def)
  qed
  finally show ?thesis .
qed

lemma masked_eq_iff:
  assumes "length x = l" and "length y = l" and "n \<le> 8 * l"
  shows "map2 (AND) x (CIDRMask n l) = map2 (AND) y (CIDRMask n l)
    \<longleftrightarrow> take n (ip_bits x) = take n (ip_bits y)"
  using assms
proof (induction n l arbitrary: x y rule: CIDRMask.induct)
  case (1 n)
  then show ?case by simp
next
  case (2 n l)
  obtain a x' where x: "x = a # x'" "length x' = l"
    using "2.prems"(1) by (cases x) auto
  obtain b y' where y: "y = b # y'" "length y' = l"
    using "2.prems"(2) by (cases y) auto
  have app: "ip_bits (c # z) = byte_bits c @ ip_bits z" for c z
    by (simp add: ip_bits_def)
  show ?case
  proof (cases "8 \<le> n")
    case True
    have "(0xff :: byte) = - 1" by simp
    then have ff: "c AND (0xff :: byte) = c" for c by (simp only: bit.conj_one_right)
    have "n - 8 \<le> 8 * l" using "2.prems"(3) by simp
    note IH = "2.IH"(1) [OF True x(2) y(2) this]
    show ?thesis using True IH by (simp add: x(1) y(1) app ff del: One_nat_def)
  next
    case False
    have "map2 (AND) x' (CIDRMask 0 l) = map2 (AND) y' (CIDRMask 0 l)"
      using "2.IH"(2) [OF False x(2) y(2)] by simp
    with False show ?thesis by (simp add: x(1) y(1) app masked_byte_eq_iff)
  qed
qed

end
