(* ===== verification/Dns_Types.thy ===== *)
theory Dns_Types
  imports Go_Net
begin

text \<open>
  Data of the DNS module (\<open>core/dns/types.go\<close>, \<open>config.go\<close>, \<open>qtype.go\<close>): queries, messages,
  responses and the configuration with its validation. The message package
  \<open>github.com/miekg/dns\<close> is not part of the repository. Its message structure appears here with
  the fields the sources read or write; its operations are the fields of the parameter
  \<open>dns_lib\<close>, and what the sources rely on of them is stated as named hypotheses.
\<close>

section \<open>Query types\<close>

type_synonym query_type = u16

definition TypeA :: query_type where "TypeA = 1"
definition TypeNS :: query_type where "TypeNS = 2"
definition TypeCNAME :: query_type where "TypeCNAME = 5"
definition TypeSOA :: query_type where "TypeSOA = 6"
definition TypePTR :: query_type where "TypePTR = 12"
definition TypeMX :: query_type where "TypeMX = 15"
definition TypeTXT :: query_type where "TypeTXT = 16"
definition TypeAAAA :: query_type where "TypeAAAA = 28"
definition TypeSRV :: query_type where "TypeSRV = 33"
definition TypeOPT :: u16 where "TypeOPT = 41"
definition TypeRRSIG :: u16 where "TypeRRSIG = 46"
definition TypeTSIG :: u16 where "TypeTSIG = 250"

lemmas qtype_defs = TypeA_def TypeNS_def TypeCNAME_def TypeSOA_def TypePTR_def TypeMX_def
  TypeTXT_def TypeAAAA_def TypeSRV_def TypeOPT_def TypeRRSIG_def TypeTSIG_def

definition SupportsQType :: "query_type \<Rightarrow> bool" where
  "SupportsQType qt \<longleftrightarrow>
     qt = TypeA \<or> qt = TypeAAAA \<or> qt = TypeCNAME \<or> qt = TypeTXT \<or> qt = TypeMX \<or> qt = TypeSRV
     \<or> qt = TypeNS \<or> qt = TypePTR \<or> qt = TypeSOA"

definition SupportedQTypes :: "query_type list" where
  "SupportedQTypes =
     [TypeA, TypeAAAA, TypeCNAME, TypeTXT, TypeMX, TypeSRV, TypeNS, TypePTR, TypeSOA]"

definition IsAddressQuery :: "query_type \<Rightarrow> bool" where
  "IsAddressQuery qt \<longleftrightarrow> qt = TypeA \<or> qt = TypeAAAA"

definition NeedsDNS64 :: "query_type \<Rightarrow> bool" where
  "NeedsDNS64 qt \<longleftrightarrow> qt = TypeAAAA"

lemma SupportsQType_iff: "SupportsQType qt \<longleftrightarrow> qt \<in> set SupportedQTypes"
  by (auto simp: SupportsQType_def SupportedQTypes_def)

section \<open>Response codes\<close>

abbreviation (input) "RcodeSuccess \<equiv> (0 :: int)"
abbreviation (input) "RcodeServerFailure \<equiv> (2 :: int)"
abbreviation (input) "RcodeNameError \<equiv> (3 :: int)"
abbreviation (input) "RcodeRefused \<equiv> (5 :: int)"

section \<open>Messages\<close>

datatype edns0 =
    EDNS0_LOCAL u16 "byte list"
  | EDNS0_SUBNET u16 byte byte ip
  | EDNS0_Other u16 "byte list"

datatype rdata =
    RD_A ip
  | RD_AAAA ip
  | RD_OPT "edns0 list"
  | RD_Other string

record rr_hdr =
  h_Name :: string
  h_Rrtype :: u16
  h_Class :: u16
  h_Ttl :: u32

text \<open>
  A resource record is an interface value, which may be nil. \<open>Header\<close> of the nil record would
  panic in Go; the model gives it the zero header, and \<open>validated_sections\<close> in
  \<open>Dns_Message\<close> shows that no section of an accepted response holds one.
\<close>

datatype rr = NilRR | RR rr_hdr rdata

fun Header :: "rr \<Rightarrow> rr_hdr" where
  "Header NilRR = \<lparr>h_Name = [], h_Rrtype = 0, h_Class = 0, h_Ttl = 0\<rparr>"
| "Header (RR h d) = h"

abbreviation rrtype :: "rr \<Rightarrow> u16" where
  "rrtype r \<equiv> h_Rrtype (Header r)"

abbreviation ttl_of :: "rr \<Rightarrow> u32" where
  "ttl_of r \<equiv> h_Ttl (Header r)"

fun set_ttl :: "u32 \<Rightarrow> rr \<Rightarrow> rr" where
  "set_ttl t NilRR = NilRR"
| "set_ttl t (RR h d) = RR (h\<lparr>h_Ttl := t\<rparr>) d"

lemma Header_set_ttl: "r \<noteq> NilRR \<Longrightarrow> Header (set_ttl t r) = (Header r)\<lparr>h_Ttl := t\<rparr>"
  by (cases r) simp_all

lemma rrtype_set_ttl [simp]: "rrtype (set_ttl t r) = rrtype r"
  by (cases r) simp_all

record question =
  qn_Name :: string
  qn_Qtype :: u16
  qn_Qclass :: u16

record dns_msg =
  m_Id :: u16
  m_Response :: bool
  m_Opcode :: int
  m_Authoritative :: bool
  m_Truncated :: bool
  m_RecursionDesired :: bool
  m_RecursionAvailable :: bool
  m_AuthenticatedData :: bool
  m_CheckingDisabled :: bool
  m_Rcode :: int
  m_Compress :: bool
  m_Question :: "question list"
  m_Answer :: "rr list"
  m_Ns :: "rr list"
  m_Extra :: "rr list"

text \<open>\<open>new(dns.Msg)\<close>: every field at its zero value.\<close>

definition new_msg :: dns_msg where
  "new_msg = \<lparr>m_Id = 0, m_Response = False, m_Opcode = 0, m_Authoritative = False,
     m_Truncated = False, m_RecursionDesired = False, m_RecursionAvailable = False,
     m_AuthenticatedData = False, m_CheckingDisabled = False, m_Rcode = 0, m_Compress = False,
     m_Question = [], m_Answer = [], m_Ns = [], m_Extra = []\<rparr>"

text \<open>The operations of the message package that the sources call.\<close>

record dns_lib =
  lib_Fqdn :: "string \<Rightarrow> string"
  lib_SetQuestion :: "dns_msg \<Rightarrow> string \<Rightarrow> u16 \<Rightarrow> dns_msg"
  lib_SetReply :: "dns_msg \<Rightarrow> dns_msg \<Rightarrow> dns_msg"
  lib_SetRcode :: "dns_msg \<Rightarrow> dns_msg \<Rightarrow> int \<Rightarrow> dns_msg"
  lib_SetEdns0 :: "dns_msg \<Rightarrow> u16 \<Rightarrow> bool \<Rightarrow> dns_msg"
  lib_IsEdns0 :: "dns_msg \<Rightarrow> nat option"
  lib_Do :: "rr \<Rightarrow> bool"
  lib_SetDo :: "rr \<Rightarrow> rr"
  lib_UDPSize :: "rr \<Rightarrow> u16"
  lib_SetUDPSize :: "rr \<Rightarrow> u16 \<Rightarrow> rr"
  lib_Len :: "dns_msg \<Rightarrow> int"
  lib_Pack :: "dns_msg \<Rightarrow> byte list option"
  lib_Unpack :: "byte list \<Rightarrow> dns_msg option"

section \<open>Queries and responses\<close>

record dns_query =
  q_Name :: string
  q_QType :: query_type
  q_QClass :: u16
  q_ClientIP :: ip
  q_IsBootstrap :: bool

record dns_response =
  dr_Query :: dns_query
  dr_RawMsg :: "dns_msg option"
  dr_Rcode :: int
  dr_Answer :: "rr list"
  dr_Authority :: "rr list"
  dr_Additional :: "rr list"
  dr_TTL :: u32
  dr_Upstream :: string
  dr_ProxyTag :: string
  dr_RTT :: duration
  dr_Cached :: bool

text \<open>
  The minimum TTL over the answer section: the loop that \<open>ExtractRecords\<close>, the three exchange
  paths and \<open>copyCachedResponse\<close> all contain.
\<close>

definition min_ttl :: "rr list \<Rightarrow> u32" where
  "min_ttl rs =
     (case rs of
        [] \<Rightarrow> 0
      | r # rest \<Rightarrow> foldl (\<lambda>t x. if ttl_of x < t then ttl_of x else t) (ttl_of r) rest)"

lemma foldl_min_le:
  "foldl (\<lambda>t x. if f x < t then f x else t) (t0::'a::linorder) rs = Min (insert t0 (f ` set rs))"
proof (induction rs arbitrary: t0)
  case (Cons r rs)
  have m: "(if f r < t0 then f r else t0) = min t0 (f r)" by (auto simp: min_def)
  have "Min (insert (min t0 (f r)) (f ` set rs)) = Min (insert t0 (insert (f r) (f ` set rs)))"
    by (cases "rs = []") (simp_all add: min.assoc)
  then show ?case by (simp only: foldl_Cons m Cons.IH list.set image_insert)
qed simp

lemma min_ttl_eq: "rs \<noteq> [] \<Longrightarrow> min_ttl rs = Min (ttl_of ` set rs)"
  by (cases rs) (simp_all add: min_ttl_def foldl_min_le)

lemma min_ttl_lower: "r \<in> set rs \<Longrightarrow> min_ttl rs \<le> ttl_of r"
  by (cases "rs = []") (simp_all add: min_ttl_eq)

lemma min_ttl_attained: "rs \<noteq> [] \<Longrightarrow> min_ttl rs \<in> ttl_of ` set rs"
  by (simp add: min_ttl_eq)

section \<open>Configuration\<close>

record listener_config =
  lc_ListenAddr :: string
  lc_ExtraListenAddrs :: "string list"
  lc_Timeout :: int

record cache_config =
  cc_Enabled :: bool
  cc_Size :: int
  cc_MinTTL :: int
  cc_MaxTTL :: int
  cc_Prefetch :: bool
  cc_PrefetchThreshold :: int
  cc_NegativeCache :: bool

record upstream_config =
  uc_ID :: string
  uc_Addr :: string
  uc_Protocol :: string
  uc_ProxyTag :: string
  uc_Bootstrap :: bool
  uc_ServerName :: string

record rule_config =
  rc_ID :: string
  rc_Domain :: "string list"
  rc_DomainSuffix :: "string list"
  rc_DomainRegex :: "string list"
  rc_IP :: "string list"
  rc_QueryType :: "query_type list"
  rc_ClientIP :: "string list"
  rc_Upstream :: string
  rc_Action :: string
  rc_Policy :: string

record module_config =
  mc_Listener :: listener_config
  mc_Cache :: cache_config
  mc_Upstreams :: "upstream_config list"
  mc_Rules :: "rule_config list"
  mc_DefaultUpstream :: string
  mc_ProxyMap :: "(string \<times> string) list"
  mc_Bootstrap :: "string list"
  mc_BootstrapDns :: "string list"
  mc_EgressInterface :: string

definition DefaultListenAddr :: string where "DefaultListenAddr = ''0.0.0.0:52353''"
definition DefaultTimeout :: int where "DefaultTimeout = 5"
definition DefaultCacheSize :: int where "DefaultCacheSize = 4096"
definition DefaultMinTTL :: int where "DefaultMinTTL = 60"
definition DefaultMaxTTL :: int where "DefaultMaxTTL = 86400"

definition DefaultDnsListenerConfig :: listener_config where
  "DefaultDnsListenerConfig =
     \<lparr>lc_ListenAddr = DefaultListenAddr, lc_ExtraListenAddrs = [], lc_Timeout = DefaultTimeout\<rparr>"

definition DefaultDnsModuleConfig :: module_config where
  "DefaultDnsModuleConfig =
     \<lparr>mc_Listener = DefaultDnsListenerConfig,
      mc_Cache = \<lparr>cc_Enabled = True, cc_Size = DefaultCacheSize, cc_MinTTL = DefaultMinTTL,
        cc_MaxTTL = DefaultMaxTTL, cc_Prefetch = False, cc_PrefetchThreshold = 0,
        cc_NegativeCache = False\<rparr>,
      mc_Upstreams = [], mc_Rules = [], mc_DefaultUpstream = [], mc_ProxyMap = [],
      mc_Bootstrap = [], mc_BootstrapDns = [], mc_EgressInterface = []\<rparr>"

lemmas default_config_defs = DefaultListenAddr_def DefaultTimeout_def DefaultCacheSize_def
  DefaultMinTTL_def DefaultMaxTTL_def DefaultDnsListenerConfig_def DefaultDnsModuleConfig_def

datatype config_error =
    EmptyListenAddr
  | ListenAddrNoPort string
  | ExtraAddrNoPort nat string
  | TimeoutNotPositive int
  | NegativeCacheSize int
  | NegativeMinTTL int
  | NegativeMaxTTL int
  | MinTTLAboveMaxTTL int int

fun validate_extra :: "nat \<Rightarrow> string list \<Rightarrow> config_error option" where
  "validate_extra i [] = None"
| "validate_extra i (a # as) =
     (if CHR '':'' \<notin> set a then Some (ExtraAddrNoPort i a) else validate_extra (Suc i) as)"

definition DnsListenerConfig_Validate :: "listener_config \<Rightarrow> config_error option" where
  "DnsListenerConfig_Validate c =
     (if lc_ListenAddr c = [] then Some EmptyListenAddr
      else if CHR '':'' \<notin> set (lc_ListenAddr c) then Some (ListenAddrNoPort (lc_ListenAddr c))
      else case validate_extra 0 (lc_ExtraListenAddrs c) of
        Some e \<Rightarrow> Some e
      | None \<Rightarrow> if lc_Timeout c \<le> 0 then Some (TimeoutNotPositive (lc_Timeout c)) else None)"

definition DnsModuleConfig_Validate :: "module_config \<Rightarrow> config_error option" where
  "DnsModuleConfig_Validate c =
     (case DnsListenerConfig_Validate (mc_Listener c) of
        Some e \<Rightarrow> Some e
      | None \<Rightarrow>
          (let k = mc_Cache c in
           if cc_Size k < 0 then Some (NegativeCacheSize (cc_Size k))
           else if cc_MinTTL k < 0 then Some (NegativeMinTTL (cc_MinTTL k))
           else if cc_MaxTTL k < 0 then Some (NegativeMaxTTL (cc_MaxTTL k))
           else if cc_MinTTL k > cc_MaxTTL k \<and> cc_MaxTTL k > 0
             then Some (MinTTLAboveMaxTTL (cc_MinTTL k) (cc_MaxTTL k))
           else None))"

lemma validate_extra_None: "validate_extra i as = None \<longleftrightarrow> (\<forall>a\<in>set as. CHR '':'' \<in> set a)"
  by (induction as arbitrary: i) auto

lemma DnsListenerConfig_Validate_None:
  "DnsListenerConfig_Validate c = None \<longleftrightarrow>
     CHR '':'' \<in> set (lc_ListenAddr c) \<and> (\<forall>a\<in>set (lc_ExtraListenAddrs c). CHR '':'' \<in> set a)
     \<and> 0 < lc_Timeout c"
  by (cases "validate_extra 0 (lc_ExtraListenAddrs c)")
    (auto simp: DnsListenerConfig_Validate_def simp flip: validate_extra_None [of 0])

lemma DnsModuleConfig_Validate_None:
  "DnsModuleConfig_Validate c = None \<longleftrightarrow>
     DnsListenerConfig_Validate (mc_Listener c) = None \<and> 0 \<le> cc_Size (mc_Cache c)
     \<and> 0 \<le> cc_MinTTL (mc_Cache c) \<and> 0 \<le> cc_MaxTTL (mc_Cache c)
     \<and> (cc_MaxTTL (mc_Cache c) = 0 \<or> cc_MinTTL (mc_Cache c) \<le> cc_MaxTTL (mc_Cache c))"
  by (auto simp: DnsModuleConfig_Validate_def Let_def split: option.splits)

lemma DefaultDnsModuleConfig_valid: "DnsModuleConfig_Validate DefaultDnsModuleConfig = None"
  by (simp add: DnsModuleConfig_Validate_None DnsListenerConfig_Validate_None default_config_defs)

end
