(* ===== verification/Dns_Cache.thy ===== *)
theory Dns_Cache
  imports Dns_Types
begin

text \<open>
  The response cache, \<open>core/dns/cache.go\<close>. \<open>container/list\<close> elements are cells of an explicit
  heap: the index \<open>c_entries\<close> maps a key to a cell, \<open>c_lruList\<close> orders the cells from the most
  to the least recently used, \<open>c_heap\<close> holds the entry a cell points at. The clock is an argument
  of the operations that read it. \<open>HitRate\<close> is a rational where Go rounds to a float64.
\<close>

section \<open>State\<close>

record cache_key =
  ck_UpstreamAddr :: string
  ck_ProxyTag :: string
  ck_Name :: string
  ck_QType :: query_type

record cache_entry =
  ce_Key :: cache_key
  ce_Response :: "dns_response option"
  ce_OriginalTTL :: u32
  ce_EffectiveTTL :: u32
  ce_StoredAt :: time
  ce_ExpiresAt :: time
  ce_HitCount :: int
  ce_Prefetching :: bool
  ce_Negative :: bool
  ce_PrefetchFailCount :: int
  ce_PrefetchBackoff :: duration
  ce_LastPrefetchFail :: time

record cache_stats =
  cs_Size :: int
  cs_Hits :: int
  cs_Misses :: int
  cs_Evictions :: int
  cs_PrefetchCnt :: int
  cs_HitRate :: rat

record dns_cache =
  c_config :: cache_config
  c_entries :: "cache_key \<rightharpoonup> nat"
  c_lruList :: "nat list"
  c_heap :: "nat \<rightharpoonup> cache_entry"
  c_next :: nat
  c_maxSize :: int
  c_stats :: cache_stats

definition NewDnsCache :: "cache_config \<Rightarrow> dns_cache" where
  "NewDnsCache config =
     \<lparr>c_config = config, c_entries = Map.empty, c_lruList = [], c_heap = Map.empty, c_next = 0,
      c_maxSize = (if cc_Size config \<le> 0 then 4096 else cc_Size config),
      c_stats = \<lparr>cs_Size = 0, cs_Hits = 0, cs_Misses = 0, cs_Evictions = 0, cs_PrefetchCnt = 0,
        cs_HitRate = 0\<rparr>\<rparr>"

section \<open>Lifetimes\<close>

definition calculateEffectiveTTL :: "u32 \<Rightarrow> int \<Rightarrow> int \<Rightarrow> u32" where
  "calculateEffectiveTTL originalTTL minTTL0 maxTTL0 =
     (let minTTL = (if minTTL0 \<le> 0 then 60 else minTTL0);
          maxTTL = (if maxTTL0 \<le> 0 then 86400 else maxTTL0);
          e1 = (if originalTTL < word_of_int minTTL then word_of_int minTTL else originalTTL)
      in if e1 > word_of_int maxTTL then word_of_int maxTTL else e1)"

definition negativeTTL :: "int \<Rightarrow> u32" where
  "negativeTTL rcode =
     (if rcode = RcodeNameError then 60
      else if rcode = RcodeServerFailure then 30
      else if rcode = RcodeRefused then 10 else 5)"

definition prefetchBackoff :: "int \<Rightarrow> duration" where
  "prefetchBackoff failCount =
     (if failCount = 0 then 0
      else if failCount = 1 then 5 * second
      else if failCount = 2 then 30 * second
      else 120 * second)"

definition computeEffectiveTTL :: "dns_response option \<Rightarrow> u32 \<Rightarrow> cache_config \<Rightarrow> u32" where
  "computeEffectiveTTL resp originalTTL config =
     (case resp of
        Some r \<Rightarrow>
          if dr_Rcode r \<noteq> RcodeSuccess then negativeTTL (dr_Rcode r)
          else calculateEffectiveTTL originalTTL (cc_MinTTL config) (cc_MaxTTL config)
      | None \<Rightarrow> calculateEffectiveTTL originalTTL (cc_MinTTL config) (cc_MaxTTL config))"

definition ttl_duration :: "u32 \<Rightarrow> duration" where
  "ttl_duration t = uint t * second"

section \<open>Copies handed out\<close>

definition decreaseRecordTTLs :: "rr list \<Rightarrow> u32 \<Rightarrow> u32 \<Rightarrow> rr list" where
  "decreaseRecordTTLs records elapsed minTTL =
     map (\<lambda>r. if rrtype r = TypeOPT \<or> rrtype r = TypeTSIG then r
              else (let t = (if ttl_of r > elapsed then ttl_of r - elapsed else 0)
                    in set_ttl (if t < minTTL then minTTL else t) r)) records"

text \<open>
  \<open>RawMsg.Copy()\<close> is a deep copy and the three sections of the copy are the sections of the
  copied message, so lowering the records lowers them in the message as well.
\<close>

definition copyCachedResponse :: "dns_response \<Rightarrow> duration \<Rightarrow> int \<Rightarrow> dns_response" where
  "copyCachedResponse response elapsed configuredMinTTL =
     (let minTTL = (if configuredMinTTL > 0 then word_of_int configuredMinTTL
                    else word_of_int DefaultMinTTL);
          elapsedSeconds = (if elapsed > 0 then word_of_int (quot elapsed second) else 0);
          lower = (\<lambda>rs. decreaseRecordTTLs rs elapsedSeconds minTTL);
          resp = (case dr_RawMsg response of
              Some m \<Rightarrow>
                (let m' = m\<lparr>m_Answer := lower (m_Answer m), m_Ns := lower (m_Ns m),
                            m_Extra := lower (m_Extra m)\<rparr>
                 in response\<lparr>dr_RawMsg := Some m', dr_Answer := m_Answer m',
                             dr_Authority := m_Ns m', dr_Additional := m_Extra m'\<rparr>)
            | None \<Rightarrow>
                response\<lparr>dr_Answer := lower (dr_Answer response),
                         dr_Authority := lower (dr_Authority response),
                         dr_Additional := lower (dr_Additional response)\<rparr>)
      in resp\<lparr>dr_TTL := (if dr_Answer resp = [] then dr_TTL resp else min_ttl (dr_Answer resp)),
              dr_Cached := True\<rparr>)"

section \<open>Operations\<close>

definition updateHitRate :: "cache_stats \<Rightarrow> cache_stats" where
  "updateHitRate st =
     st\<lparr>cs_HitRate := (if cs_Hits st + cs_Misses st > 0
        then of_int (cs_Hits st) / of_int (cs_Hits st + cs_Misses st) else 0)\<rparr>"

definition count_miss :: "dns_cache \<Rightarrow> dns_cache" where
  "count_miss c = c\<lparr>c_stats := updateHitRate ((c_stats c)\<lparr>cs_Misses := cs_Misses (c_stats c) + 1\<rparr>)\<rparr>"

definition removeElement :: "nat \<Rightarrow> dns_cache \<Rightarrow> dns_cache" where
  "removeElement e c =
     c\<lparr>c_entries := (case c_heap c e of
          Some ent \<Rightarrow> (c_entries c)(ce_Key ent := None) | None \<Rightarrow> c_entries c),
       c_lruList := filter (\<lambda>x. x \<noteq> e) (c_lruList c)\<rparr>"

text \<open>A hit on an entry without a response dereferences nil in \<open>copyCachedResponse\<close>.\<close>

datatype get_result = Miss | Hit dns_response | NilPanic

definition DnsCache_Get :: "time \<Rightarrow> cache_key \<Rightarrow> dns_cache \<Rightarrow> get_result \<times> dns_cache" where
  "DnsCache_Get now key c =
     (case c_entries c key of
        None \<Rightarrow> (Miss, count_miss c)
      | Some e \<Rightarrow>
          (case c_heap c e of
             None \<Rightarrow> (Miss, count_miss c)
           | Some ent \<Rightarrow>
               if now > ce_ExpiresAt ent then (Miss, count_miss (removeElement e c))
               else
                 (let c' = c\<lparr>c_lruList := move_front e (c_lruList c),
                             c_heap := (c_heap c)(e \<mapsto> ent\<lparr>ce_HitCount := ce_HitCount ent + 1\<rparr>),
                             c_stats := updateHitRate
                               ((c_stats c)\<lparr>cs_Hits := cs_Hits (c_stats c) + 1\<rparr>)\<rparr>
                  in ((case ce_Response ent of
                         None \<Rightarrow> NilPanic
                       | Some r \<Rightarrow>
                           Hit (copyCachedResponse r (now - ce_StoredAt ent)
                                  (cc_MinTTL (c_config c)))), c'))))"

definition skip_negative :: "cache_config \<Rightarrow> dns_response option \<Rightarrow> bool" where
  "skip_negative config resp =
     (case resp of
        None \<Rightarrow> False
      | Some r \<Rightarrow> \<not> cc_NegativeCache config
          \<and> (dr_Rcode r = RcodeNameError \<or> dr_Rcode r = RcodeServerFailure
               \<or> dr_Rcode r = RcodeRefused))"

definition is_negative :: "dns_response option \<Rightarrow> bool" where
  "is_negative resp = (case resp of Some r \<Rightarrow> dr_Rcode r \<noteq> RcodeSuccess | None \<Rightarrow> False)"

definition is_success :: "dns_response option \<Rightarrow> bool" where
  "is_success resp = (case resp of Some r \<Rightarrow> dr_Rcode r = RcodeSuccess | None \<Rightarrow> False)"

definition resize :: "dns_cache \<Rightarrow> dns_cache" where
  "resize c = c\<lparr>c_stats := updateHitRate ((c_stats c)\<lparr>cs_Size := int (length (c_lruList c))\<rparr>)\<rparr>"

text \<open>The existing entry, refreshed in place.\<close>

definition refresh_entry ::
  "cache_config \<Rightarrow> time \<Rightarrow> dns_response option \<Rightarrow> u32 \<Rightarrow> cache_entry \<Rightarrow> cache_entry" where
  "refresh_entry config now resp originalTTL ent =
     (let ttl = computeEffectiveTTL resp originalTTL config in
      ent\<lparr>ce_Prefetching := False,
          ce_PrefetchFailCount := (if is_success resp then 0 else ce_PrefetchFailCount ent),
          ce_PrefetchBackoff := (if is_success resp then 0 else ce_PrefetchBackoff ent),
          ce_Response := resp, ce_OriginalTTL := originalTTL, ce_StoredAt := now,
          ce_EffectiveTTL := ttl, ce_ExpiresAt := now + ttl_duration ttl,
          ce_Negative := is_negative resp\<rparr>)"

definition new_entry ::
  "cache_config \<Rightarrow> time \<Rightarrow> cache_key \<Rightarrow> dns_response option \<Rightarrow> u32 \<Rightarrow> cache_entry" where
  "new_entry config now key resp originalTTL =
     (let ttl = computeEffectiveTTL resp originalTTL config in
      \<lparr>ce_Key = key, ce_Response = resp, ce_OriginalTTL = originalTTL, ce_EffectiveTTL = ttl,
       ce_StoredAt = now, ce_ExpiresAt = now + ttl_duration ttl, ce_HitCount = 0,
       ce_Prefetching = False, ce_Negative = is_negative resp, ce_PrefetchFailCount = 0,
       ce_PrefetchBackoff = 0, ce_LastPrefetchFail = 0\<rparr>)"

text \<open>LRU eviction after an insertion: drop the back of the list when it is over the limit.\<close>

definition evict :: "dns_cache \<Rightarrow> dns_cache" where
  "evict c =
     (if int (length (c_lruList c)) > c_maxSize c \<and> c_lruList c \<noteq> []
      then (let c' = removeElement (last (c_lruList c)) c
            in c'\<lparr>c_stats := (c_stats c')\<lparr>cs_Evictions := cs_Evictions (c_stats c') + 1\<rparr>\<rparr>)
      else c)"

definition DnsCache_Set ::
  "time \<Rightarrow> cache_key \<Rightarrow> dns_response option \<Rightarrow> u32 \<Rightarrow> dns_cache \<Rightarrow> dns_cache" where
  "DnsCache_Set now key resp originalTTL c =
     (if skip_negative (c_config c) resp then c
      else case c_entries c key of
        Some e \<Rightarrow>
          resize (c\<lparr>c_lruList := move_front e (c_lruList c),
                    c_heap := (c_heap c)(e := map_option
                      (refresh_entry (c_config c) now resp originalTTL) (c_heap c e))\<rparr>)
      | None \<Rightarrow>
          (let e = c_next c;
               c1 = c\<lparr>c_heap := (c_heap c)(e \<mapsto> new_entry (c_config c) now key resp originalTTL),
                      c_next := Suc e, c_lruList := e # c_lruList c,
                      c_entries := (c_entries c)(key \<mapsto> e)\<rparr>
           in resize (evict c1)))"

definition DnsCache_Remove :: "cache_key \<Rightarrow> dns_cache \<Rightarrow> dns_cache" where
  "DnsCache_Remove key c =
     (case c_entries c key of None \<Rightarrow> c | Some e \<Rightarrow> resize (removeElement e c))"

definition DnsCache_Clear :: "dns_cache \<Rightarrow> dns_cache" where
  "DnsCache_Clear c =
     c\<lparr>c_entries := Map.empty, c_lruList := [],
       c_stats := updateHitRate ((c_stats c)\<lparr>cs_Size := 0\<rparr>)\<rparr>"

definition DnsCache_Len :: "dns_cache \<Rightarrow> nat" where
  "DnsCache_Len c = length (c_lruList c)"

definition DnsCache_Keys :: "dns_cache \<Rightarrow> cache_key set" where
  "DnsCache_Keys c = dom (c_entries c)"

section \<open>Prefetching\<close>

definition shouldPrefetch :: "time \<Rightarrow> cache_entry \<Rightarrow> cache_config \<Rightarrow> bool" where
  "shouldPrefetch now ent config =
     (if \<not> cc_Prefetch config then False
      else if ce_Prefetching ent then False
      else if ce_PrefetchFailCount ent \<ge> 3 then False
      else
        (let backoff = prefetchBackoff (ce_PrefetchFailCount ent) in
         if backoff > 0 \<and> now - ce_LastPrefetchFail ent < backoff then False
         else
           (let remaining = ce_ExpiresAt ent - now;
                totalTTL = ce_ExpiresAt ent - ce_StoredAt ent;
                threshold = (if cc_PrefetchThreshold config \<le> 0 then 30
                             else cc_PrefetchThreshold config)
            in if totalTTL > 0 \<and> remaining < quot totalTTL 10 then True
               else remaining < threshold * second)))"

text \<open>The entry a key leads to through the index.\<close>

definition entry_of :: "dns_cache \<Rightarrow> cache_key \<Rightarrow> cache_entry option" where
  "entry_of c key = (case c_entries c key of None \<Rightarrow> None | Some e \<Rightarrow> c_heap c e)"

definition DnsCache_ShouldPrefetch :: "time \<Rightarrow> cache_key \<Rightarrow> dns_cache \<Rightarrow> bool" where
  "DnsCache_ShouldPrefetch now key c =
     (case entry_of c key of None \<Rightarrow> False | Some ent \<Rightarrow> shouldPrefetch now ent (c_config c))"

definition update_entry :: "cache_key \<Rightarrow> (cache_entry \<Rightarrow> cache_entry) \<Rightarrow> dns_cache \<Rightarrow> dns_cache" where
  "update_entry key f c =
     (case c_entries c key of
        None \<Rightarrow> c
      | Some e \<Rightarrow> c\<lparr>c_heap := (c_heap c)(e := map_option f (c_heap c e))\<rparr>)"

definition DnsCache_SetPrefetching :: "cache_key \<Rightarrow> bool \<Rightarrow> dns_cache \<Rightarrow> dns_cache" where
  "DnsCache_SetPrefetching key status c =
     (if entry_of c key = None then c
      else
        (let c' = update_entry key (\<lambda>ent. ent\<lparr>ce_Prefetching := status\<rparr>) c
         in if status
            then c'\<lparr>c_stats := (c_stats c')\<lparr>cs_PrefetchCnt := cs_PrefetchCnt (c_stats c') + 1\<rparr>\<rparr>
            else c'))"

definition DnsCache_RecordPrefetchFailure :: "time \<Rightarrow> cache_key \<Rightarrow> dns_cache \<Rightarrow> dns_cache" where
  "DnsCache_RecordPrefetchFailure now key c =
     update_entry key
       (\<lambda>ent. ent\<lparr>ce_PrefetchFailCount := ce_PrefetchFailCount ent + 1, ce_LastPrefetchFail := now,
                 ce_Prefetching := False,
                 ce_PrefetchBackoff := prefetchBackoff (ce_PrefetchFailCount ent + 1)\<rparr>) c"

definition DnsCache_RecordPrefetchSuccess :: "cache_key \<Rightarrow> dns_cache \<Rightarrow> dns_cache" where
  "DnsCache_RecordPrefetchSuccess key c =
     update_entry key
       (\<lambda>ent. ent\<lparr>ce_PrefetchFailCount := 0, ce_PrefetchBackoff := 0, ce_Prefetching := False\<rparr>) c"

lemmas cache_defs = DnsCache_Get_def DnsCache_Set_def DnsCache_Remove_def DnsCache_Clear_def
  DnsCache_SetPrefetching_def DnsCache_RecordPrefetchFailure_def
  DnsCache_RecordPrefetchSuccess_def update_entry_def removeElement_def count_miss_def
  resize_def evict_def

end
