(* ===== verification/Dns_Cache_Inv.thy ===== *)
theory Dns_Cache_Inv
  imports Dns_Cache
begin

text \<open>
  The invariant of the response cache and its preservation by every operation: the index, the
  recency list and the heap agree, lifetimes are the computed ones, the list is within its bound.
\<close>

section \<open>Invariant\<close>

definition entry_ok :: "cache_config \<Rightarrow> cache_entry \<Rightarrow> bool" where
  "entry_ok config ent \<longleftrightarrow>
     ce_EffectiveTTL ent = computeEffectiveTTL (ce_Response ent) (ce_OriginalTTL ent) config
     \<and> ce_ExpiresAt ent = ce_StoredAt ent + ttl_duration (ce_EffectiveTTL ent)
     \<and> ce_Negative ent = is_negative (ce_Response ent)"

definition cache_wf :: "dns_cache \<Rightarrow> bool" where
  "cache_wf c \<longleftrightarrow>
     distinct (c_lruList c)
     \<and> (\<forall>e\<in>set (c_lruList c). \<exists>ent. c_heap c e = Some ent \<and> entry_ok (c_config c) ent
          \<and> c_entries c (ce_Key ent) = Some e)
     \<and> (\<forall>k e. c_entries c k = Some e \<longrightarrow>
          e \<in> set (c_lruList c) \<and> (\<exists>ent. c_heap c e = Some ent \<and> ce_Key ent = k))
     \<and> (\<forall>e. c_next c \<le> e \<longrightarrow> c_heap c e = None)"

definition cache_inv :: "dns_cache \<Rightarrow> bool" where
  "cache_inv c \<longleftrightarrow> cache_wf c \<and> 0 < c_maxSize c \<and> int (length (c_lruList c)) \<le> c_maxSize c"

lemma cache_wfI:
  assumes "distinct (c_lruList c)"
    and "\<And>e. e \<in> set (c_lruList c) \<Longrightarrow> \<exists>ent. c_heap c e = Some ent \<and> entry_ok (c_config c) ent
          \<and> c_entries c (ce_Key ent) = Some e"
    and "\<And>k e. c_entries c k = Some e \<Longrightarrow> e \<in> set (c_lruList c)"
    and "\<And>k e. c_entries c k = Some e \<Longrightarrow> \<exists>ent. c_heap c e = Some ent \<and> ce_Key ent = k"
    and "\<And>e. c_next c \<le> e \<Longrightarrow> c_heap c e = None"
  shows "cache_wf c"
  using assms unfolding cache_wf_def by blast

lemma cache_wf_stats [simp]: "cache_wf (c\<lparr>c_stats := s\<rparr>) = cache_wf c"
  by (simp add: cache_wf_def)

lemma cache_inv_stats [simp]: "cache_inv (c\<lparr>c_stats := s\<rparr>) = cache_inv c"
  by (simp add: cache_inv_def)

lemma cache_wf_index:
  assumes "cache_wf c" and "c_entries c k = Some e"
  obtains ent where "e \<in> set (c_lruList c)" "c_heap c e = Some ent" "ce_Key ent = k"
    "entry_ok (c_config c) ent"
  using assms unfolding cache_wf_def by (metis option.inject)

lemma cache_wf_cell:
  assumes "cache_wf c" and "e \<in> set (c_lruList c)"
  obtains ent where "c_heap c e = Some ent" "entry_ok (c_config c) ent"
    "c_entries c (ce_Key ent) = Some e"
  using assms unfolding cache_wf_def by blast

lemma cache_wf_index_inj:
  assumes "cache_wf c" and "c_entries c k = Some e" and "c_entries c k' = Some e"
  shows "k' = k"
proof -
  obtain ent where "c_heap c e = Some ent" "ce_Key ent = k" using assms(1,2) by (rule cache_wf_index)
  moreover obtain ent' where "c_heap c e = Some ent'" "ce_Key ent' = k'"
    using assms(1,3) by (rule cache_wf_index)
  ultimately show ?thesis by simp
qed

lemma cache_wf_bound: "cache_wf c \<Longrightarrow> c_heap c e = Some ent \<Longrightarrow> e < c_next c"
  by (rule ccontr) (simp add: cache_wf_def)

lemma cache_inv_index: "cache_inv c \<Longrightarrow> c_entries c k = Some e \<Longrightarrow> e \<in> set (c_lruList c)"
  by (simp add: cache_inv_def cache_wf_def)

lemma cache_wf_new: "cache_wf (NewDnsCache config)"
  by (simp add: cache_wf_def NewDnsCache_def)

lemma cache_inv_new: "cache_inv (NewDnsCache config)"
  by (simp add: cache_inv_def cache_wf_new) (simp add: NewDnsCache_def)

lemma removeElement_sel [simp]:
  "c_maxSize (removeElement e c) = c_maxSize c"
  "c_config (removeElement e c) = c_config c"
  "c_stats (removeElement e c) = c_stats c"
  "c_heap (removeElement e c) = c_heap c"
  "c_next (removeElement e c) = c_next c"
  "c_lruList (removeElement e c) = filter (\<lambda>x. x \<noteq> e) (c_lruList c)"
  by (simp_all add: removeElement_def)

lemma cache_wf_removeElement:
  assumes wf: "cache_wf c" and e: "e \<in> set (c_lruList c)"
  shows "cache_wf (removeElement e c)"
proof -
  obtain ent where ent: "c_heap c e = Some ent" "c_entries c (ce_Key ent) = Some e"
    using wf e by (rule cache_wf_cell)
  then have idx: "c_entries (removeElement e c) = (c_entries c)(ce_Key ent := None)"
    by (simp add: removeElement_def)
  show ?thesis
  proof (rule cache_wfI)
    fix x assume "x \<in> set (c_lruList (removeElement e c))"
    then have x: "x \<in> set (c_lruList c)" "x \<noteq> e" by auto
    obtain ent' where "c_heap c x = Some ent'" "entry_ok (c_config c) ent'"
      "c_entries c (ce_Key ent') = Some x"
      using wf x(1) by (rule cache_wf_cell)
    with x(2) ent(2) show "\<exists>ent. c_heap (removeElement e c) x = Some ent
        \<and> entry_ok (c_config (removeElement e c)) ent
        \<and> c_entries (removeElement e c) (ce_Key ent) = Some x"
      by (auto simp: idx)
  next
    fix k x assume "c_entries (removeElement e c) k = Some x"
    then have k: "c_entries c k = Some x" "k \<noteq> ce_Key ent" by (auto simp: idx split: if_splits)
    with cache_wf_index_inj [OF wf ent(2), of k] have "x \<noteq> e" by auto
    moreover obtain ent' where "x \<in> set (c_lruList c)" "c_heap c x = Some ent'" "ce_Key ent' = k"
      using wf k(1) by (rule cache_wf_index)
    ultimately show "x \<in> set (c_lruList (removeElement e c))"
      and "\<exists>ent. c_heap (removeElement e c) x = Some ent \<and> ce_Key ent = k" by simp_all
  qed (use wf in \<open>simp_all add: cache_wf_def\<close>)
qed

lemma cache_wf_heap:
  assumes wf: "cache_wf c" and k: "c_entries c k = Some e"
    and f: "\<And>ent. entry_ok (c_config c) ent \<Longrightarrow> ce_Key (f ent) = ce_Key ent \<and> entry_ok (c_config c) (f ent)"
  shows "cache_wf (c\<lparr>c_heap := (c_heap c)(e := map_option f (c_heap c e))\<rparr>)" (is "cache_wf ?c")
proof -
  obtain ent where ent: "e \<in> set (c_lruList c)" "c_heap c e = Some ent" "ce_Key ent = k"
    "entry_ok (c_config c) ent"
    using wf k by (rule cache_wf_index)
  note bound = cache_wf_bound [OF wf ent(2)]
  show ?thesis
  proof (rule cache_wfI)
    fix x assume "x \<in> set (c_lruList ?c)"
    then have x: "x \<in> set (c_lruList c)" by simp
    obtain ent' where "c_heap c x = Some ent'" "entry_ok (c_config c) ent'"
      "c_entries c (ce_Key ent') = Some x"
      using wf x by (rule cache_wf_cell)
    then show "\<exists>ent. c_heap ?c x = Some ent \<and> entry_ok (c_config ?c) ent
        \<and> c_entries ?c (ce_Key ent) = Some x"
      using f ent by (cases "x = e") auto
  next
    fix k' x assume "c_entries ?c k' = Some x"
    then have k': "c_entries c k' = Some x" by simp
    obtain ent' where "x \<in> set (c_lruList c)" "c_heap c x = Some ent'" "ce_Key ent' = k'"
      using wf k' by (rule cache_wf_index)
    then show "x \<in> set (c_lruList ?c)" and "\<exists>ent. c_heap ?c x = Some ent \<and> ce_Key ent = k'"
      using ent f [OF ent(4)] by (cases "x = e", auto)+
  qed (use wf bound in \<open>auto simp: cache_wf_def\<close>)
qed

lemma cache_wf_reorder:
  "cache_wf c \<Longrightarrow> distinct xs \<Longrightarrow> set xs = set (c_lruList c) \<Longrightarrow> cache_wf (c\<lparr>c_lruList := xs\<rparr>)"
  by (auto simp: cache_wf_def)

lemma cache_wf_touch:
  assumes wf: "cache_wf c" and k: "c_entries c k = Some e"
    and f: "\<And>ent. entry_ok (c_config c) ent \<Longrightarrow> ce_Key (f ent) = ce_Key ent \<and> entry_ok (c_config c) (f ent)"
  shows "cache_wf (c\<lparr>c_lruList := move_front e (c_lruList c),
                     c_heap := (c_heap c)(e := map_option f (c_heap c e))\<rparr>)"
proof -
  obtain "e \<in> set (c_lruList c)" using wf k by (rule cache_wf_index)
  moreover have "distinct (c_lruList c)" using wf by (simp add: cache_wf_def)
  ultimately have "cache_wf (c\<lparr>c_lruList := move_front e (c_lruList c)\<rparr>)"
    using wf by (simp add: cache_wf_reorder)
  from cache_wf_heap [OF this, of k e f] k f show ?thesis by simp
qed

lemma cache_wf_update_entry:
  assumes "cache_wf c"
    and "\<And>ent. entry_ok (c_config c) ent \<Longrightarrow> ce_Key (f ent) = ce_Key ent \<and> entry_ok (c_config c) (f ent)"
  shows "cache_wf (update_entry k f c)"
  using assms by (auto simp: update_entry_def intro: cache_wf_heap split: option.split)

lemma cache_wf_insert:
  assumes wf: "cache_wf c" and k: "c_entries c k = None"
    and ent: "ce_Key ent = k" "entry_ok (c_config c) ent"
  shows "cache_wf (c\<lparr>c_heap := (c_heap c)(c_next c \<mapsto> ent), c_next := Suc (c_next c),
                     c_lruList := c_next c # c_lruList c, c_entries := (c_entries c)(k \<mapsto> c_next c)\<rparr>)"
    (is "cache_wf ?c")
proof -
  have none: "c_heap c (c_next c) = None" using wf by (simp add: cache_wf_def)
  have fresh: "c_next c \<notin> set (c_lruList c)"
  proof
    assume "c_next c \<in> set (c_lruList c)"
    with wf show False by (rule cache_wf_cell) (simp add: none)
  qed
  show ?thesis
  proof (rule cache_wfI)
    fix x assume "x \<in> set (c_lruList ?c)"
    then consider "x = c_next c" | "x \<in> set (c_lruList c)" "x \<noteq> c_next c" using fresh by auto
    then show "\<exists>ent. c_heap ?c x = Some ent \<and> entry_ok (c_config ?c) ent
        \<and> c_entries ?c (ce_Key ent) = Some x"
    proof cases
      case 1
      with ent show ?thesis by simp
    next
      case 2
      obtain ent' where "c_heap c x = Some ent'" "entry_ok (c_config c) ent'"
        "c_entries c (ce_Key ent') = Some x"
        using wf 2(1) by (rule cache_wf_cell)
      with k 2(2) show ?thesis by auto
    qed
  next
    fix k' x assume a: "c_entries ?c k' = Some x"
    have "x \<in> set (c_lruList ?c) \<and> (\<exists>ent. c_heap ?c x = Some ent \<and> ce_Key ent = k')"
    proof (cases "k' = k")
      case True
      with a ent show ?thesis by simp
    next
      case False
      with a have "c_entries c k' = Some x" by simp
      with wf obtain ent' where "x \<in> set (c_lruList c)" "c_heap c x = Some ent'" "ce_Key ent' = k'"
        by (rule cache_wf_index)
      with fresh show ?thesis by auto
    qed
    then show "x \<in> set (c_lruList ?c)" and "\<exists>ent. c_heap ?c x = Some ent \<and> ce_Key ent = k'"
      by blast+
  qed (use wf fresh in \<open>auto simp: cache_wf_def\<close>)
qed

lemma cache_inv_touch:
  assumes "cache_inv c" and "c_entries c k = Some e"
    and "\<And>ent. entry_ok (c_config c) ent \<Longrightarrow> ce_Key (f ent) = ce_Key ent \<and> entry_ok (c_config c) (f ent)"
  shows "cache_inv (c\<lparr>c_lruList := move_front e (c_lruList c),
                     c_heap := (c_heap c)(e := map_option f (c_heap c e))\<rparr>)"
proof -
  have wf: "cache_wf c" using assms(1) by (simp add: cache_inv_def)
  obtain "e \<in> set (c_lruList c)" using wf assms(2) by (rule cache_wf_index)
  moreover have "distinct (c_lruList c)" using wf by (simp add: cache_wf_def)
  ultimately have "length (move_front e (c_lruList c)) = length (c_lruList c)" by simp
  with assms(1) cache_wf_touch [OF wf assms(2,3)] show ?thesis by (simp add: cache_inv_def)
qed

lemma cache_inv_removeElement:
  assumes "cache_inv c" and "e \<in> set (c_lruList c)"
  shows "cache_inv (removeElement e c)"
proof -
  have "int (length (filter (\<lambda>x. x \<noteq> e) (c_lruList c))) \<le> c_maxSize c"
    using assms(1) length_filter_le [of "\<lambda>x. x \<noteq> e" "c_lruList c"]
    unfolding cache_inv_def by linarith
  with assms cache_wf_removeElement [of c e] show ?thesis by (simp add: cache_inv_def)
qed

lemma cache_inv_evict:
  assumes "cache_wf c" and "0 < c_maxSize c" and "int (length (c_lruList c)) \<le> c_maxSize c + 1"
  shows "cache_inv (evict c)"
proof (cases "int (length (c_lruList c)) > c_maxSize c")
  case True
  then have ne: "c_lruList c \<noteq> []" using assms(2) by auto
  have "distinct (c_lruList c)" using assms(1) by (simp add: cache_wf_def)
  then have "length (filter (\<lambda>x. x \<noteq> last (c_lruList c)) (c_lruList c)) = length (c_lruList c) - 1"
    using ne by (simp add: filter_neq_last)
  then show ?thesis
    using True ne assms cache_wf_removeElement [OF assms(1) last_in_set [OF ne]]
    by (auto simp: cache_inv_def evict_def Let_def)
next
  case False
  with assms show ?thesis by (simp add: cache_inv_def evict_def)
qed

lemma entry_ok_refresh:
  "ce_Key (refresh_entry config now resp t ent) = ce_Key ent
   \<and> entry_ok config (refresh_entry config now resp t ent)"
  by (simp add: entry_ok_def refresh_entry_def Let_def)

lemma entry_ok_new: "ce_Key (new_entry config now k resp t) = k \<and> entry_ok config (new_entry config now k resp t)"
  by (simp add: entry_ok_def new_entry_def Let_def)

lemma cache_inv_Get: "cache_inv c \<Longrightarrow> cache_inv (snd (DnsCache_Get now k c))"
proof -
  assume inv: "cache_inv c"
  then have wf: "cache_wf c" by (simp add: cache_inv_def)
  show ?thesis
  proof (cases "c_entries c k")
    case None
    with inv show ?thesis by (simp add: DnsCache_Get_def count_miss_def)
  next
    case (Some e)
    obtain ent where ent: "e \<in> set (c_lruList c)" "c_heap c e = Some ent"
      using wf Some by (rule cache_wf_index)
    have "cache_inv (c\<lparr>c_lruList := move_front e (c_lruList c),
      c_heap := (c_heap c)(e := map_option (\<lambda>x. x\<lparr>ce_HitCount := ce_HitCount x + 1\<rparr>) (c_heap c e))\<rparr>)"
      using inv Some by (rule cache_inv_touch) (simp add: entry_ok_def)
    then show ?thesis using inv Some ent cache_inv_removeElement [OF inv ent(1)]
      by (simp add: DnsCache_Get_def count_miss_def Let_def cache_inv_def cache_wf_def)
  qed
qed

lemma cache_inv_Set: "cache_inv c \<Longrightarrow> cache_inv (DnsCache_Set now k resp t c)"
proof -
  assume inv: "cache_inv c"
  then have wf: "cache_wf c" by (simp add: cache_inv_def)
  show ?thesis
  proof (cases "c_entries c k")
    case None
    have "cache_inv (evict (c\<lparr>c_heap := (c_heap c)(c_next c \<mapsto> new_entry (c_config c) now k resp t),
      c_next := Suc (c_next c), c_lruList := c_next c # c_lruList c,
      c_entries := (c_entries c)(k \<mapsto> c_next c)\<rparr>))"
      by (rule cache_inv_evict)
        (use inv entry_ok_new in \<open>auto simp: cache_inv_def intro!: cache_wf_insert [OF wf None]\<close>)
    with None inv show ?thesis by (simp add: DnsCache_Set_def Let_def resize_def)
  next
    case (Some e)
    then show ?thesis using inv cache_inv_touch [OF inv Some, of "refresh_entry (c_config c) now resp t"]
      by (simp add: DnsCache_Set_def resize_def entry_ok_refresh)
  qed
qed

lemma cache_inv_Remove: "cache_inv c \<Longrightarrow> cache_inv (DnsCache_Remove k c)"
  by (auto simp: DnsCache_Remove_def resize_def split: option.split
      intro: cache_inv_removeElement cache_inv_index)

lemma cache_inv_Clear: "cache_inv c \<Longrightarrow> cache_inv (DnsCache_Clear c)"
  by (simp add: cache_inv_def cache_wf_def DnsCache_Clear_def)

lemma update_entry_sel [simp]:
  "c_maxSize (update_entry k f c) = c_maxSize c"
  "c_lruList (update_entry k f c) = c_lruList c"
  "c_config (update_entry k f c) = c_config c"
  "c_stats (update_entry k f c) = c_stats c"
  "c_entries (update_entry k f c) = c_entries c"
  by (simp_all add: update_entry_def split: option.split)

lemma cache_inv_update_entry:
  assumes "cache_inv c"
    and "\<And>ent. entry_ok (c_config c) ent \<Longrightarrow> ce_Key (f ent) = ce_Key ent \<and> entry_ok (c_config c) (f ent)"
  shows "cache_inv (update_entry k f c)"
  using assms cache_wf_update_entry [of c f k] by (simp add: cache_inv_def)

lemma cache_inv_SetPrefetching: "cache_inv c \<Longrightarrow> cache_inv (DnsCache_SetPrefetching k b c)"
  by (auto simp: DnsCache_SetPrefetching_def Let_def entry_ok_def intro!: cache_inv_update_entry)

lemma cache_inv_RecordPrefetchFailure:
  "cache_inv c \<Longrightarrow> cache_inv (DnsCache_RecordPrefetchFailure now k c)"
  by (auto simp: DnsCache_RecordPrefetchFailure_def entry_ok_def intro!: cache_inv_update_entry)

lemma cache_inv_RecordPrefetchSuccess:
  "cache_inv c \<Longrightarrow> cache_inv (DnsCache_RecordPrefetchSuccess k c)"
  by (auto simp: DnsCache_RecordPrefetchSuccess_def entry_ok_def intro!: cache_inv_update_entry)


end
