(* ===== verification/Dns_Cache_Lru.thy ===== *)
theory Dns_Cache_Lru
  imports Dns_Cache_Inv
begin

text \<open>
  The contract of the response cache, a bounded list of entries in order of recency, and the
  refinement: every operation of the heap and index structure of \<open>core/dns/cache.go\<close> acts on the
  list \<open>recency c\<close> as the specification says.
\<close>

section \<open>Operations as events\<close>

datatype cache_op =
    Op_Get time cache_key
  | Op_Set time cache_key "dns_response option" u32
  | Op_Remove cache_key
  | Op_Clear
  | Op_SetPrefetching cache_key bool
  | Op_PrefetchFailure time cache_key
  | Op_PrefetchSuccess cache_key

fun cache_step :: "dns_cache \<Rightarrow> cache_op \<Rightarrow> dns_cache" where
  "cache_step c (Op_Get now k) = snd (DnsCache_Get now k c)"
| "cache_step c (Op_Set now k resp t) = DnsCache_Set now k resp t c"
| "cache_step c (Op_Remove k) = DnsCache_Remove k c"
| "cache_step c Op_Clear = DnsCache_Clear c"
| "cache_step c (Op_SetPrefetching k b) = DnsCache_SetPrefetching k b c"
| "cache_step c (Op_PrefetchFailure now k) = DnsCache_RecordPrefetchFailure now k c"
| "cache_step c (Op_PrefetchSuccess k) = DnsCache_RecordPrefetchSuccess k c"

lemma removeElement_frame [simp]:
  "c_config (removeElement e c) = c_config c" "c_maxSize (removeElement e c) = c_maxSize c"
  "c_heap (removeElement e c) = c_heap c"
  by (simp_all add: removeElement_def)

lemma cache_step_frame:
  "c_config (cache_step c op) = c_config c \<and> c_maxSize (cache_step c op) = c_maxSize c"
  by (cases op) (auto simp: DnsCache_Get_def DnsCache_Set_def DnsCache_Remove_def DnsCache_Clear_def
      DnsCache_SetPrefetching_def DnsCache_RecordPrefetchFailure_def
      DnsCache_RecordPrefetchSuccess_def count_miss_def resize_def evict_def Let_def
      split: option.split)

lemma cache_inv_step: "cache_inv c \<Longrightarrow> cache_inv (cache_step c op)"
  by (cases op) (simp_all add: cache_inv_Get cache_inv_Set cache_inv_Remove cache_inv_Clear
      cache_inv_SetPrefetching cache_inv_RecordPrefetchFailure cache_inv_RecordPrefetchSuccess)

definition cache_live :: "cache_config \<Rightarrow> dns_cache \<Rightarrow> bool" where
  "cache_live config c \<longleftrightarrow>
     cache_inv c \<and> c_config c = config \<and> c_maxSize c = c_maxSize (NewDnsCache config)"

lemma cache_live_new: "cache_live config (NewDnsCache config)"
  by (simp add: cache_live_def cache_inv_new) (simp add: NewDnsCache_def)

lemma cache_live_step: "cache_live config c \<Longrightarrow> cache_live config (cache_step c op)"
  by (simp add: cache_live_def cache_inv_step cache_step_frame)

section \<open>The specification: a list of entries in order of recency\<close>

abbreviation lru_find :: "cache_key \<Rightarrow> cache_entry list \<Rightarrow> cache_entry option" where
  "lru_find k l \<equiv> find (\<lambda>ent. ce_Key ent = k) l"

abbreviation lru_drop :: "cache_key \<Rightarrow> cache_entry list \<Rightarrow> cache_entry list" where
  "lru_drop k l \<equiv> filter (\<lambda>ent. ce_Key ent \<noteq> k) l"

abbreviation lru_update ::
  "cache_key \<Rightarrow> (cache_entry \<Rightarrow> cache_entry) \<Rightarrow> cache_entry list \<Rightarrow> cache_entry list" where
  "lru_update k f l \<equiv> map (\<lambda>ent. if ce_Key ent = k then f ent else ent) l"

definition lru_set ::
  "cache_config \<Rightarrow> nat \<Rightarrow> time \<Rightarrow> cache_key \<Rightarrow> dns_response option \<Rightarrow> u32
   \<Rightarrow> cache_entry list \<Rightarrow> cache_entry list" where
  "lru_set config n now k resp t l =
     (if skip_negative config resp then l
      else take n ((case lru_find k l of
                      Some ent \<Rightarrow> refresh_entry config now resp t ent
                    | None \<Rightarrow> new_entry config now k resp t) # lru_drop k l))"

definition lru_get :: "time \<Rightarrow> cache_key \<Rightarrow> cache_entry list \<Rightarrow> cache_entry list" where
  "lru_get now k l =
     (case lru_find k l of
        None \<Rightarrow> l
      | Some ent \<Rightarrow>
          if now > ce_ExpiresAt ent then lru_drop k l
          else ent\<lparr>ce_HitCount := ce_HitCount ent + 1\<rparr> # lru_drop k l)"

definition lru_answer :: "cache_config \<Rightarrow> time \<Rightarrow> cache_entry option \<Rightarrow> get_result" where
  "lru_answer config now found =
     (case found of
        None \<Rightarrow> Miss
      | Some ent \<Rightarrow>
          if now > ce_ExpiresAt ent then Miss
          else case ce_Response ent of
            None \<Rightarrow> NilPanic
          | Some r \<Rightarrow> Hit (copyCachedResponse r (now - ce_StoredAt ent) (cc_MinTTL config)))"

fun lru_step :: "cache_config \<Rightarrow> nat \<Rightarrow> cache_entry list \<Rightarrow> cache_op \<Rightarrow> cache_entry list" where
  "lru_step config n l (Op_Get now k) = lru_get now k l"
| "lru_step config n l (Op_Set now k resp t) = lru_set config n now k resp t l"
| "lru_step config n l (Op_Remove k) = lru_drop k l"
| "lru_step config n l Op_Clear = []"
| "lru_step config n l (Op_SetPrefetching k b) =
     lru_update k (\<lambda>ent. ent\<lparr>ce_Prefetching := b\<rparr>) l"
| "lru_step config n l (Op_PrefetchFailure now k) =
     lru_update k (\<lambda>ent. ent\<lparr>ce_PrefetchFailCount := ce_PrefetchFailCount ent + 1,
       ce_LastPrefetchFail := now, ce_Prefetching := False,
       ce_PrefetchBackoff := prefetchBackoff (ce_PrefetchFailCount ent + 1)\<rparr>) l"
| "lru_step config n l (Op_PrefetchSuccess k) =
     lru_update k (\<lambda>ent. ent\<lparr>ce_PrefetchFailCount := 0, ce_PrefetchBackoff := 0,
       ce_Prefetching := False\<rparr>) l"

section \<open>The refinement\<close>

definition recency :: "dns_cache \<Rightarrow> cache_entry list" where
  "recency c = map (\<lambda>e. the (c_heap c e)) (c_lruList c)"

lemma recency_stats [simp]: "recency (c\<lparr>c_stats := s\<rparr>) = recency c"
  by (simp add: recency_def)

lemma length_recency [simp]: "length (recency c) = length (c_lruList c)"
  by (simp add: recency_def)

lemma cell_key_iff:
  assumes "cache_wf c" and "c_entries c k = Some e" and "x \<in> set (c_lruList c)"
  shows "ce_Key (the (c_heap c x)) = k \<longleftrightarrow> x = e"
proof -
  obtain ent where "c_heap c x = Some ent" "c_entries c (ce_Key ent) = Some x"
    using assms(1,3) by (rule cache_wf_cell)
  moreover obtain ent' where "c_heap c e = Some ent'" "ce_Key ent' = k"
    using assms(1,2) by (rule cache_wf_index)
  ultimately show ?thesis using assms(2) by auto
qed

lemma cell_key_absent:
  assumes "cache_wf c" and "c_entries c k = None" and "x \<in> set (c_lruList c)"
  shows "ce_Key (the (c_heap c x)) \<noteq> k"
proof -
  obtain ent where "c_heap c x = Some ent" "c_entries c (ce_Key ent) = Some x"
    using assms(1,3) by (rule cache_wf_cell)
  with assms(2) show ?thesis by auto
qed

lemma recency_distinct_keys:
  assumes "cache_wf c" shows "distinct (map ce_Key (recency c))"
proof -
  have "inj_on (\<lambda>e. ce_Key (the (c_heap c e))) (set (c_lruList c))"
  proof (rule inj_onI)
    fix x y assume x: "x \<in> set (c_lruList c)" and y: "y \<in> set (c_lruList c)"
      and eq: "ce_Key (the (c_heap c x)) = ce_Key (the (c_heap c y))"
    obtain ent where ent: "c_heap c x = Some ent" "c_entries c (ce_Key ent) = Some x"
      using assms x by (rule cache_wf_cell)
    from cell_key_iff [OF assms ent(2) y] eq ent(1) show "x = y" by simp
  qed
  with assms show ?thesis by (simp add: recency_def cache_wf_def distinct_map comp_def)
qed

lemma lru_drop_absent: "cache_wf c \<Longrightarrow> c_entries c k = None \<Longrightarrow> lru_drop k (recency c) = recency c"
  using cell_key_absent [of c k] by (simp add: recency_def filter_map comp_def filter_id_conv)

lemma lru_drop_recency:
  assumes "cache_wf c" "c_entries c k = Some e"
  shows "lru_drop k (recency c) = map (\<lambda>x. the (c_heap c x)) (filter (\<lambda>x. x \<noteq> e) (c_lruList c))"
  using cell_key_iff [OF assms] by (simp add: recency_def filter_map comp_def cong: filter_cong)

lemma lru_find_recency:
  assumes "cache_wf c"
  shows "lru_find k (recency c) = entry_of c k"
proof (cases "c_entries c k")
  case None
  with cell_key_absent [OF assms] show ?thesis
    by (auto simp: entry_of_def find_None_iff recency_def)
next
  case (Some e)
  obtain ent where e: "e \<in> set (c_lruList c)" "c_heap c e = Some ent" "ce_Key ent = k"
    using assms Some by (rule cache_wf_index)
  have "find (\<lambda>ent. ce_Key ent = k) (map (\<lambda>e. the (c_heap c e)) l) = Some ent"
    if "set l \<subseteq> set (c_lruList c)" "e \<in> set l" for l
    using that e cell_key_iff [OF assms Some] by (induction l) auto
  with e Some show ?thesis by (simp add: recency_def entry_of_def)
qed

lemma recency_touch:
  assumes "cache_wf c" "c_entries c k = Some e" "c_heap c e = Some ent"
  shows "recency (c\<lparr>c_lruList := move_front e (c_lruList c), c_heap := (c_heap c)(e \<mapsto> ent')\<rparr>)
    = ent' # lru_drop k (recency c)"
  using lru_drop_recency [OF assms(1,2)] by (simp add: recency_def move_front_def)

lemma recency_removeElement:
  assumes "cache_wf c" "c_entries c k = Some e"
  shows "recency (removeElement e c) = lru_drop k (recency c)"
  using lru_drop_recency [OF assms] by (simp add: recency_def)

lemma recency_update_entry:
  assumes "cache_wf c"
  shows "recency (update_entry k f c) = lru_update k f (recency c)"
proof (cases "c_entries c k")
  case None
  with assms cell_key_absent [of c k] show ?thesis
    by (simp add: update_entry_def recency_def)
next
  case (Some e)
  obtain ent where e: "e \<in> set (c_lruList c)" "c_heap c e = Some ent" "ce_Key ent = k"
    using assms Some by (rule cache_wf_index)
  with Some cell_key_iff [OF assms Some] show ?thesis
    by (auto simp: update_entry_def recency_def)
qed


lemma take_remove_last:
  assumes "distinct xs" "xs \<noteq> []" "length xs = Suc n"
  shows "filter (\<lambda>x. x \<noteq> last xs) xs = take n xs"
  using assms by (simp add: filter_neq_last butlast_conv_take)

lemma recency_evict:
  assumes wf: "cache_wf c" and "0 < c_maxSize c"
    and len: "int (length (c_lruList c)) \<le> c_maxSize c + 1"
  shows "recency (evict c) = take (nat (c_maxSize c)) (recency c)"
proof (cases "int (length (c_lruList c)) > c_maxSize c")
  case True
  with assms have n: "length (c_lruList c) = Suc (nat (c_maxSize c))" by linarith
  then have ne: "c_lruList c \<noteq> []" by auto
  have "distinct (c_lruList c)" using wf by (simp add: cache_wf_def)
  with n ne True show ?thesis
    by (simp add: evict_def Let_def recency_def take_map take_remove_last)
next
  case False
  then show ?thesis by (simp add: evict_def)
qed

lemma lru_drop_length:
  assumes "lru_find k l = Some ent" shows "length (lru_drop k l) < length l"
proof -
  from assms have "\<exists>x\<in>set l. \<not> ce_Key x \<noteq> k" by (auto simp: find_Some_iff)
  then show ?thesis by (auto intro: length_filter_less)
qed

lemma recency_Get:
  assumes inv: "cache_inv c"
  shows "recency (snd (DnsCache_Get now k c)) = lru_get now k (recency c)"
    and "fst (DnsCache_Get now k c) = lru_answer (c_config c) now (lru_find k (recency c))"
proof -
  have wf: "cache_wf c" using inv by (simp add: cache_inv_def)
  have "recency (snd (DnsCache_Get now k c)) = lru_get now k (recency c)
    \<and> fst (DnsCache_Get now k c) = lru_answer (c_config c) now (lru_find k (recency c))"
  proof (cases "c_entries c k")
    case None
    then show ?thesis
      by (simp add: DnsCache_Get_def lru_get_def lru_answer_def lru_find_recency [OF wf]
          entry_of_def count_miss_def)
  next
    case (Some e)
    obtain ent where e: "c_heap c e = Some ent" using wf Some by (rule cache_wf_index)
    with Some show ?thesis
      by (simp add: DnsCache_Get_def lru_get_def lru_answer_def lru_find_recency [OF wf]
          entry_of_def count_miss_def Let_def recency_removeElement [OF wf Some]
          recency_touch [OF wf Some e])
  qed
  then show "recency (snd (DnsCache_Get now k c)) = lru_get now k (recency c)"
    and "fst (DnsCache_Get now k c) = lru_answer (c_config c) now (lru_find k (recency c))"
    by simp_all
qed

lemma recency_Set:
  assumes inv: "cache_inv c"
  shows "recency (DnsCache_Set now k resp t c)
    = lru_set (c_config c) (nat (c_maxSize c)) now k resp t (recency c)"
proof (cases "skip_negative (c_config c) resp")
  case True
  then show ?thesis by (simp add: DnsCache_Set_def lru_set_def)
next
  case False
  have wf: "cache_wf c" and max: "0 < c_maxSize c"
    and len: "int (length (c_lruList c)) \<le> c_maxSize c" using inv by (simp_all add: cache_inv_def)
  show ?thesis
  proof (cases "c_entries c k")
    case None
    let ?c = "c\<lparr>c_heap := (c_heap c)(c_next c \<mapsto> new_entry (c_config c) now k resp t),
      c_next := Suc (c_next c), c_lruList := c_next c # c_lruList c,
      c_entries := (c_entries c)(k \<mapsto> c_next c)\<rparr>"
    have fresh: "c_next c \<notin> set (c_lruList c)"
    proof
      assume "c_next c \<in> set (c_lruList c)"
      with wf obtain ent where "c_heap c (c_next c) = Some ent" by (rule cache_wf_cell)
      with wf show False by (simp add: cache_wf_def)
    qed
    then have "recency ?c = new_entry (c_config c) now k resp t # recency c"
      by (auto simp: recency_def)
    moreover have "recency (evict ?c) = take (nat (c_maxSize ?c)) (recency ?c)"
      by (rule recency_evict)
        (use max len in \<open>auto intro!: cache_wf_insert [OF wf None] simp: entry_ok_new\<close>)
    ultimately show ?thesis using None False
      by (simp add: DnsCache_Set_def lru_set_def Let_def resize_def lru_find_recency [OF wf]
          entry_of_def lru_drop_absent [OF wf None])
  next
    case (Some e)
    obtain ent where e: "c_heap c e = Some ent" using wf Some by (rule cache_wf_index)
    have "length (lru_drop k (recency c)) < length (recency c)"
      by (rule lru_drop_length [of _ _ ent])
        (simp add: lru_find_recency [OF wf] entry_of_def Some e)
    with len have "length (lru_drop k (recency c)) < nat (c_maxSize c)" by simp
    with Some False e show ?thesis
      by (simp add: DnsCache_Set_def lru_set_def resize_def lru_find_recency [OF wf] entry_of_def
          recency_touch [OF wf Some e] Suc_leI)
  qed
qed

lemma recency_step:
  assumes inv: "cache_inv c"
  shows "recency (cache_step c op) = lru_step (c_config c) (nat (c_maxSize c)) (recency c) op"
proof -
  have wf: "cache_wf c" using inv by (simp add: cache_inv_def)
  show ?thesis
  proof (cases op)
    case (Op_Remove k)
    then show ?thesis
      by (auto simp: DnsCache_Remove_def resize_def recency_removeElement [OF wf]
          lru_drop_absent [OF wf] split: option.split)
  next
    case (Op_SetPrefetching k b)
    have "lru_update k f (recency c) = recency c" if "entry_of c k = None" for f
      using that unfolding lru_find_recency [OF wf, symmetric] by (auto simp: find_None_iff map_idI)
    with Op_SetPrefetching show ?thesis
      by (simp add: DnsCache_SetPrefetching_def Let_def recency_update_entry [OF wf])
  qed (simp_all add: recency_Get(1) [OF inv] recency_Set [OF inv] DnsCache_Clear_def
      recency_update_entry [OF wf] DnsCache_RecordPrefetchFailure_def
      DnsCache_RecordPrefetchSuccess_def, simp add: recency_def)
qed

end
