(* ===== verification/Dns_Cache_Correct.thy ===== *)
theory Dns_Cache_Correct
  imports Dns_Cache_Lru
begin

text \<open>
  What the response cache promises over every sequence of operations on a new cache: the
  provenance and freshness of a hit, the retention of recently used entries, the bound on its
  size, lifetimes, and the discipline of prefetching.
\<close>

section \<open>What a run can have stored\<close>

text \<open>
  The unbounded record of what was last stored under each key, and what the cache holds of it:
  the time, the response and the TTL of the storing call.
\<close>

type_synonym stored_value = "time \<times> dns_response option \<times> u32"

fun last_set :: "cache_config \<Rightarrow> (cache_key \<rightharpoonup> stored_value) \<Rightarrow> cache_op \<Rightarrow> (cache_key \<rightharpoonup> stored_value)" where
  "last_set config m (Op_Set now k resp t) =
     (if skip_negative config resp then m else m(k \<mapsto> (now, resp, t)))"
| "last_set config m (Op_Remove k) = m(k := None)"
| "last_set config m Op_Clear = Map.empty"
| "last_set config m (Op_Get now k) = m"
| "last_set config m (Op_SetPrefetching k b) = m"
| "last_set config m (Op_PrefetchFailure now k) = m"
| "last_set config m (Op_PrefetchSuccess k) = m"

definition stored_of :: "cache_entry \<Rightarrow> stored_value" where
  "stored_of ent = (ce_StoredAt ent, ce_Response ent, ce_OriginalTTL ent)"

definition lru_stored :: "cache_entry list \<Rightarrow> (cache_key \<rightharpoonup> stored_value)" where
  "lru_stored l k = map_option stored_of (lru_find k l)"

definition cache_stored :: "dns_cache \<Rightarrow> (cache_key \<rightharpoonup> stored_value)" where
  "cache_stored c = lru_stored (recency c)"

lemma lru_stored_Cons:
  "lru_stored (x # l) = (lru_stored l)(ce_Key x \<mapsto> stored_of x)"
  by (auto simp: lru_stored_def fun_eq_iff)

lemma lru_stored_Nil [simp]: "lru_stored [] = Map.empty"
  by (simp add: lru_stored_def fun_eq_iff)

lemma lru_stored_drop: "lru_stored (lru_drop k l) = (lru_stored l)(k := None)"
  by (induction l) (auto simp: lru_stored_Cons fun_eq_iff)

lemma lru_stored_map:
  assumes "\<And>x. ce_Key (f x) = ce_Key x \<and> stored_of (f x) = stored_of x"
  shows "lru_stored (map f l) = lru_stored l"
  by (induction l) (simp_all add: lru_stored_Cons assms)

lemma lru_stored_take: "distinct (map ce_Key l) \<Longrightarrow> lru_stored (take n l) \<subseteq>\<^sub>m lru_stored l"
proof (induction l arbitrary: n)
  case (Cons x l)
  then have "lru_stored (take n' l) \<subseteq>\<^sub>m lru_stored l" for n' by simp
  then have "(lru_stored (take n' l))(k := v) \<subseteq>\<^sub>m (lru_stored l)(k := v)" for n' k v
    by (rule map_le_upd)
  then show ?case by (cases n) (simp, simp only: take_Suc_Cons lru_stored_Cons)
qed simp

lemma lru_find_key: "lru_find k l = Some ent \<Longrightarrow> ce_Key ent = k"
  by (induction l) (simp_all split: if_splits)

lemma distinct_lru_drop: "distinct (map ce_Key l) \<Longrightarrow> distinct (map ce_Key (x # lru_drop (ce_Key x) l))"
  by (induction l) auto

lemma lru_step_stored:
  assumes d: "distinct (map ce_Key l)" and le: "lru_stored l \<subseteq>\<^sub>m m"
  shows "lru_stored (lru_step config n l op) \<subseteq>\<^sub>m last_set config m op"
proof (cases op)
  case (Op_Get now k)
  show ?thesis
  proof (cases "lru_find k l")
    case None
    with Op_Get le show ?thesis by (simp add: lru_get_def)
  next
    case (Some ent)
    have "(lru_stored l)(k := None) \<subseteq>\<^sub>m m"
      using le by (rule map_le_trans [rotated]) simp
    moreover have "lru_stored (ent\<lparr>ce_HitCount := h\<rparr> # lru_drop k l) = lru_stored l" for h
    proof
      fix k'
      have "lru_stored l k = Some (stored_of ent)" using Some by (simp add: lru_stored_def)
      then show "lru_stored (ent\<lparr>ce_HitCount := h\<rparr> # lru_drop k l) k' = lru_stored l k'"
        using lru_find_key [OF Some]
        by (cases "k' = k") (simp_all add: lru_stored_Cons lru_stored_drop stored_of_def)
    qed
    ultimately have "lru_stored (lru_get now k l) \<subseteq>\<^sub>m m"
      unfolding lru_get_def Some option.case by (simp only: lru_stored_drop le split: if_split) simp
    then show ?thesis by (simp add: Op_Get)
  qed
next
  case (Op_Set now k resp t)
  define x where "x = (case lru_find k l of
      Some ent \<Rightarrow> refresh_entry config now resp t ent | None \<Rightarrow> new_entry config now k resp t)"
  have x: "ce_Key x = k" "stored_of x = (now, resp, t)"
    by (auto simp: x_def stored_of_def refresh_entry_def new_entry_def Let_def
        dest: lru_find_key split: option.split)
  have "lru_stored (take n (x # lru_drop k l)) \<subseteq>\<^sub>m lru_stored (x # lru_drop k l)"
    using distinct_lru_drop [OF d, of x] by (intro lru_stored_take) (simp add: x)
  also have "\<dots> \<subseteq>\<^sub>m m(k \<mapsto> (now, resp, t))"
    using map_le_upd [OF le, of k "Some (now, resp, t)"] by (simp add: lru_stored_Cons lru_stored_drop x)
  finally show ?thesis using Op_Set le by (simp add: lru_set_def x_def)
next
  case (Op_Remove k)
  with map_le_upd [OF le] show ?thesis by (simp add: lru_stored_drop)
qed (use le in \<open>simp_all add: lru_stored_map stored_of_def\<close>)

interpretation cache: forgetful cache_step "cache_live config" cache_stored "last_set config"
  for config
proof
  fix c op m
  assume "cache_live config c"
  then show "cache_live config (cache_step c op)" by (rule cache_live_step)
next
  fix c m op
  assume live: "cache_live config c" and le: "cache_stored c \<subseteq>\<^sub>m m"
  then have "cache_inv c" by (simp add: cache_live_def)
  then have "distinct (map ce_Key (recency c))" by (simp add: cache_inv_def recency_distinct_keys)
  from lru_step_stored [OF this, of m] le live \<open>cache_inv c\<close>
  show "cache_stored (cache_step c op) \<subseteq>\<^sub>m last_set config m op"
    by (simp add: cache_stored_def recency_step cache_live_def)
qed

definition cache_run :: "cache_config \<Rightarrow> cache_op list \<Rightarrow> dns_cache" where
  "cache_run config ops = foldl cache_step (NewDnsCache config) ops"

lemma cache_run_live: "cache_live config (cache_run config ops)"
  unfolding cache_run_def by (rule cache.run_inv [OF cache_live_new])

lemma cache_run_inv: "cache_inv (cache_run config ops)"
  and cache_run_config: "c_config (cache_run config ops) = config"
  and cache_run_maxSize: "c_maxSize (cache_run config ops) = c_maxSize (NewDnsCache config)"
  using cache_run_live [of config ops] by (simp_all add: cache_live_def)

lemma recency_new: "recency (NewDnsCache config) = []"
  by (simp add: recency_def NewDnsCache_def)

lemma cache_run_stored:
  "cache_stored (cache_run config ops) \<subseteq>\<^sub>m foldl (last_set config) Map.empty ops"
  unfolding cache_run_def
  by (rule cache.run_le [OF cache_live_new]) (simp add: cache_stored_def recency_new)

lemma cache_run_entry_ok:
  assumes "entry_of (cache_run config ops) k = Some ent"
  shows "entry_ok config ent"
proof -
  have wf: "cache_wf (cache_run config ops)" using cache_run_inv by (simp add: cache_inv_def)
  from assms obtain e where e: "c_entries (cache_run config ops) k = Some e"
    "c_heap (cache_run config ops) e = Some ent"
    by (auto simp: entry_of_def split: option.splits)
  obtain ent' where "c_heap (cache_run config ops) e = Some ent'"
    "entry_ok (c_config (cache_run config ops)) ent'"
    using wf e(1) by (rule cache_wf_index)
  with e(2) show ?thesis by (simp add: cache_run_config)
qed

text \<open>
  (C8) A hit is never stale and never another key's answer. After any sequence of operations on a
  new cache, a hit under a key is the copy of the response last stored under exactly that key
  (upstream address, proxy tag, name and query type), aged by the time since it was stored, and
  the lookup is within the lifetime computed for that response.
\<close>

theorem cache_hit_provenance:
  assumes "fst (DnsCache_Get now k (cache_run config ops)) = Hit resp"
  shows "\<exists>t0 r ttl. foldl (last_set config) Map.empty ops k = Some (t0, Some r, ttl)
    \<and> resp = copyCachedResponse r (now - t0) (cc_MinTTL config)
    \<and> now \<le> t0 + ttl_duration (computeEffectiveTTL (Some r) ttl config)"
proof -
  let ?c = "cache_run config ops"
  have wf: "cache_wf ?c" using cache_run_inv by (simp add: cache_inv_def)
  from assms obtain ent r where ent: "entry_of ?c k = Some ent" "now \<le> ce_ExpiresAt ent"
    "ce_Response ent = Some r" "resp = copyCachedResponse r (now - ce_StoredAt ent) (cc_MinTTL config)"
    unfolding recency_Get(2) [OF cache_run_inv] lru_find_recency [OF wf]
    by (auto simp: lru_answer_def cache_run_config split: option.splits if_splits)
  then have "cache_stored ?c k = Some (ce_StoredAt ent, Some r, ce_OriginalTTL ent)"
    by (simp add: cache_stored_def lru_stored_def lru_find_recency [OF wf] stored_of_def)
  with cache_run_stored [of config ops]
  have "foldl (last_set config) Map.empty ops k = Some (ce_StoredAt ent, Some r, ce_OriginalTTL ent)"
    by (metis domI map_le_def)
  with ent cache_run_entry_ok [OF ent(1)] show ?thesis by (auto simp: entry_ok_def)
qed

section \<open>Recently used entries stay\<close>

fun op_key :: "cache_op \<Rightarrow> cache_key option" where
  "op_key (Op_Get now k) = Some k"
| "op_key (Op_Set now k resp t) = Some k"
| "op_key (Op_Remove k) = Some k"
| "op_key Op_Clear = None"
| "op_key (Op_SetPrefetching k b) = Some k"
| "op_key (Op_PrefetchFailure now k) = Some k"
| "op_key (Op_PrefetchSuccess k) = Some k"

text \<open>The operation concerns a single key, and that key is another one.\<close>

definition op_other :: "cache_key \<Rightarrow> cache_op \<Rightarrow> bool" where
  "op_other k op \<longleftrightarrow> op_key op \<noteq> None \<and> op_key op \<noteq> Some k"

definition op_keys :: "cache_op list \<Rightarrow> cache_key set" where
  "op_keys ops = {k. Some k \<in> op_key ` set ops}"

lemma op_keys_finite: "finite (op_keys ops)"
proof -
  have "op_keys ops = Some -` (op_key ` set ops)" by (auto simp: op_keys_def)
  then show ?thesis by (simp add: finite_vimageI)
qed

text \<open>The entry of a key and the keys of the entries used more recently than it.\<close>

definition held_at :: "cache_key \<Rightarrow> stored_value \<Rightarrow> cache_key set \<Rightarrow> cache_entry list \<Rightarrow> bool" where
  "held_at k v K l \<longleftrightarrow> (\<exists>xs ent ys. l = xs @ ent # ys \<and> ce_Key ent = k \<and> stored_of ent = v
     \<and> distinct (map ce_Key xs) \<and> k \<notin> ce_Key ` set xs \<and> ce_Key ` set xs \<subseteq> K)"

lemma lru_find_middle:
  "k \<notin> ce_Key ` set xs \<Longrightarrow> ce_Key ent = k \<Longrightarrow> lru_find k (xs @ ent # ys) = Some ent"
  by (induction xs) auto

lemma held_at_stored: "held_at k v K l \<Longrightarrow> lru_stored l k = Some v"
  unfolding held_at_def lru_stored_def
  by (auto simp: lru_find_middle)

lemma held_at_front:
  assumes "held_at k v K l" and "ce_Key x \<noteq> k" and "ce_Key x \<in> K"
  shows "held_at k v K (x # lru_drop (ce_Key x) l)"
proof -
  from assms(1) obtain xs ent ys where l: "l = xs @ ent # ys" "ce_Key ent = k" "stored_of ent = v"
    "distinct (map ce_Key xs)" "k \<notin> ce_Key ` set xs" "ce_Key ` set xs \<subseteq> K"
    unfolding held_at_def by blast
  have "x # lru_drop (ce_Key x) l
      = (x # lru_drop (ce_Key x) xs) @ ent # lru_drop (ce_Key x) ys"
    using l(1,2) assms(2) by auto
  moreover have "distinct (map ce_Key (x # lru_drop (ce_Key x) xs))"
    using distinct_lru_drop [OF l(4), of x] .
  moreover have "k \<notin> ce_Key ` set (x # lru_drop (ce_Key x) xs)"
    and "ce_Key ` set (x # lru_drop (ce_Key x) xs) \<subseteq> K"
    using l(5,6) assms(2,3) by auto
  ultimately show ?thesis using l(2,3) unfolding held_at_def by blast
qed

lemma held_at_drop:
  assumes "held_at k v K l" and "k' \<noteq> k"
  shows "held_at k v K (lru_drop k' l)"
proof -
  from assms(1) obtain xs ent ys where l: "l = xs @ ent # ys" "ce_Key ent = k" "stored_of ent = v"
    "distinct (map ce_Key xs)" "k \<notin> ce_Key ` set xs" "ce_Key ` set xs \<subseteq> K"
    unfolding held_at_def by blast
  have "lru_drop k' l = lru_drop k' xs @ ent # lru_drop k' ys" using l(1,2) assms(2) by auto
  moreover have "distinct (map ce_Key (lru_drop k' xs))"
    using l(4) by (rule distinct_map_filter)
  moreover have "k \<notin> ce_Key ` set (lru_drop k' xs)" "ce_Key ` set (lru_drop k' xs) \<subseteq> K"
    using l(5,6) by auto
  ultimately show ?thesis using l(2,3) unfolding held_at_def by blast
qed

lemma held_at_take:
  assumes "held_at k v K l" and "finite K" and "card K < n"
  shows "held_at k v K (take n l)"
proof -
  from assms(1) obtain xs ent ys where l: "l = xs @ ent # ys" "ce_Key ent = k" "stored_of ent = v"
    "distinct (map ce_Key xs)" "k \<notin> ce_Key ` set xs" "ce_Key ` set xs \<subseteq> K"
    unfolding held_at_def by blast
  have "length xs = card (ce_Key ` set xs)" using distinct_card [OF l(4)] by simp
  also have "\<dots> \<le> card K" using assms(2) l(6) by (rule card_mono)
  finally have "length xs < n" using assms(3) by simp
  then obtain d where "n - length xs = Suc d" by (metis Suc_diff_Suc)
  with l(1) have "take n l = xs @ ent # take d ys" by simp
  with l(2-) show ?thesis unfolding held_at_def by blast
qed

lemma held_at_map:
  assumes "held_at k v K l" and "\<And>x. ce_Key (f x) = ce_Key x \<and> stored_of (f x) = stored_of x"
  shows "held_at k v K (map f l)"
proof -
  from assms(1) obtain xs ent ys where l: "l = xs @ ent # ys" "ce_Key ent = k" "stored_of ent = v"
    "distinct (map ce_Key xs)" "k \<notin> ce_Key ` set xs" "ce_Key ` set xs \<subseteq> K"
    unfolding held_at_def by blast
  have "map f l = map f xs @ f ent # map f ys" using l(1) by simp
  moreover have "map ce_Key (map f xs) = map ce_Key xs" by (simp add: assms(2))
  ultimately show ?thesis using l(2-) assms(2) unfolding held_at_def
    by (metis list.set_map)
qed

lemma held_at_step:
  assumes h: "held_at k v K l" and K: "finite K" "card K < n"
    and other: "op_other k op" and key: "\<And>k'. op_key op = Some k' \<Longrightarrow> k' \<in> K"
  shows "held_at k v K (lru_step config n l op)"
proof (cases op)
  case (Op_Get now k')
  with other key have k': "k' \<noteq> k" "k' \<in> K" by (auto simp: op_other_def)
  show ?thesis
  proof (cases "lru_find k' l")
    case None
    with Op_Get h show ?thesis by (simp add: lru_get_def)
  next
    case (Some ent)
    let ?e = "ent\<lparr>ce_HitCount := ce_HitCount ent + 1\<rparr>"
    have e: "ce_Key ?e = k'" using lru_find_key [OF Some] by simp
    have "held_at k v K (?e # lru_drop k' l)"
      using held_at_front [OF h, of ?e] e k' by simp
    with Op_Get Some held_at_drop [OF h k'(1)] show ?thesis by (simp add: lru_get_def)
  qed
next
  case (Op_Set now k' resp t)
  with other key have k': "k' \<noteq> k" "k' \<in> K" by (auto simp: op_other_def)
  define x where "x = (case lru_find k' l of
      Some ent \<Rightarrow> refresh_entry config now resp t ent | None \<Rightarrow> new_entry config now k' resp t)"
  have x: "ce_Key x = k'"
    by (auto simp: x_def refresh_entry_def new_entry_def Let_def dest: lru_find_key split: option.split)
  have "held_at k v K (take n (x # lru_drop k' l))"
    using held_at_take [OF held_at_front [OF h, of x] K] x k' by simp
  with Op_Set h show ?thesis by (simp add: lru_set_def x_def)
next
  case (Op_Remove k')
  with other held_at_drop [OF h] show ?thesis by (auto simp: op_other_def)
qed (use other h in \<open>auto simp: op_other_def stored_of_def intro!: held_at_map\<close>)

lemma held_at_run:
  assumes "held_at k v K l" and "finite K" "card K < n"
    and "\<forall>op\<in>set ops. op_other k op" and "op_keys ops \<subseteq> K"
  shows "held_at k v K (foldl (lru_step config n) l ops)"
  using assms
proof (induction ops arbitrary: l)
  case (Cons op ops)
  have "held_at k v K (lru_step config n l op)"
    by (rule held_at_step) (use Cons.prems in \<open>auto simp: op_keys_def\<close>)
  moreover have "op_keys ops \<subseteq> K" using Cons.prems(5) by (auto simp: op_keys_def)
  ultimately show ?case using Cons by simp
qed simp


lemma cache_run_append: "cache_run config (ops @ ops') = foldl cache_step (cache_run config ops) ops'"
  by (simp add: cache_run_def)

lemma recency_run:
  "cache_live config c \<Longrightarrow>
   recency (foldl cache_step c ops)
     = foldl (lru_step config (nat (c_maxSize (NewDnsCache config)))) (recency c) ops"
proof (induction ops arbitrary: c)
  case (Cons op ops)
  then have "recency (cache_step c op)
      = lru_step config (nat (c_maxSize (NewDnsCache config))) (recency c) op"
    using recency_step [of c op] by (simp add: cache_live_def)
  with Cons.IH [OF cache_live_step [OF Cons.prems, of op]] show ?case by simp
qed simp

lemma maxSize_pos: "0 < c_maxSize (NewDnsCache config)"
  by (simp add: NewDnsCache_def)

lemma held_at_set:
  assumes "\<not> skip_negative config resp" and "0 < n"
  shows "held_at k (now, resp, t) K (lru_set config n now k resp t l)"
proof -
  define x where "x = (case lru_find k l of
      Some ent \<Rightarrow> refresh_entry config now resp t ent | None \<Rightarrow> new_entry config now k resp t)"
  have x: "ce_Key x = k" "stored_of x = (now, resp, t)"
    by (auto simp: x_def stored_of_def refresh_entry_def new_entry_def Let_def
        dest: lru_find_key split: option.split)
  obtain n' where "n = Suc n'" using assms(2) by (cases n) auto
  then have "lru_set config n now k resp t l = [] @ x # take n' (lru_drop k l)"
    using assms(1) by (simp add: lru_set_def x_def)
  with x show ?thesis unfolding held_at_def by fastforce
qed

lemma cache_answer:
  "fst (DnsCache_Get now k (cache_run config ops))
     = lru_answer config now (lru_find k (recency (cache_run config ops)))"
  by (simp add: recency_Get(2) [OF cache_run_inv] cache_run_config)

text \<open>
  (C25) Recently stored answers are served. After a response is stored under a key, as long as
  the operations that follow concern other keys and fewer distinct keys than the capacity, and its
  lifetime has not passed, the lookup of the key is a hit with that response.
\<close>

theorem cache_serves_recent:
  assumes "\<not> skip_negative config (Some r)"
    and "\<forall>op\<in>set ops'. op_other k op"
    and "int (card (op_keys ops')) < c_maxSize (NewDnsCache config)"
    and "now \<le> t0 + ttl_duration (computeEffectiveTTL (Some r) ttl config)"
  shows "fst (DnsCache_Get now k (cache_run config (ops @ Op_Set t0 k (Some r) ttl # ops')))
    = Hit (copyCachedResponse r (now - t0) (cc_MinTTL config))"
proof -
  let ?n = "nat (c_maxSize (NewDnsCache config))" and ?K = "op_keys ops'"
  let ?c = "cache_run config (ops @ Op_Set t0 k (Some r) ttl # ops')"
  have fin: "finite ?K" by (rule op_keys_finite)
  have "recency ?c = foldl (lru_step config ?n)
      (lru_set config ?n t0 k (Some r) ttl (recency (cache_run config ops))) ops'"
    using recency_run [OF cache_run_live, of config ops "Op_Set t0 k (Some r) ttl # ops'"]
    by (simp add: cache_run_append)
  moreover have "held_at k (t0, Some r, ttl) ?K (foldl (lru_step config ?n)
      (lru_set config ?n t0 k (Some r) ttl (recency (cache_run config ops))) ops')"
    by (rule held_at_run [OF held_at_set fin])
      (use assms maxSize_pos [of config] in auto)
  ultimately have "lru_stored (recency ?c) k = Some (t0, Some r, ttl)" by (simp add: held_at_stored)
  then obtain ent where f: "lru_find k (recency ?c) = Some ent" "stored_of ent = (t0, Some r, ttl)"
    by (auto simp: lru_stored_def)
  have "cache_wf ?c" using cache_run_inv by (simp add: cache_inv_def)
  with f(1) have "entry_ok config ent" by (intro cache_run_entry_ok) (simp add: lru_find_recency)
  with f assms(4) show ?thesis
    by (simp add: cache_answer lru_answer_def entry_ok_def stored_of_def)
qed

text \<open>
  (C9) The cache refines its specification: over every sequence of operations the list, the
  index and the entries behave as one bounded list of entries in order of recency, and a lookup
  answers what that list holds.
\<close>

theorem cache_refines_lru:
  "recency (cache_run config ops)
     = foldl (lru_step config (nat (c_maxSize (NewDnsCache config)))) [] ops
   \<and> fst (DnsCache_Get now k (cache_run config ops))
     = lru_answer config now (lru_find k
         (foldl (lru_step config (nat (c_maxSize (NewDnsCache config)))) [] ops))"
  using recency_run [OF cache_live_new, of config ops]
  by (simp add: cache_answer recency_new) (simp add: cache_run_def recency_new)


section \<open>Lifetimes\<close>

lemma word_of_int_less_iff32:
  "0 \<le> n \<Longrightarrow> n < 2 ^ 32 \<Longrightarrow> uint (word_of_int n :: u32) = n"
  by (simp add: uint_word_of_int)

text \<open>
  The lifetime of a positive answer is \<open>min (max minTTL originalTTL) maxTTL\<close>, with the
  defaults 60 and 86400 for limits that are not positive; limits are taken below \<open>2^32\<close>, where
  the conversion to \<open>uint32\<close> is exact.
\<close>

theorem effective_ttl_clamped:
  assumes "minTTL < 2 ^ 32" and "maxTTL < 2 ^ 32"
  shows "uint (calculateEffectiveTTL originalTTL minTTL maxTTL)
    = min (max (if minTTL \<le> 0 then 60 else minTTL) (uint originalTTL))
          (if maxTTL \<le> 0 then 86400 else maxTTL)"
proof -
  define mn mx where "mn = (if minTTL \<le> 0 then 60 else minTTL)"
    and "mx = (if maxTTL \<le> 0 then 86400 else maxTTL)"
  have "uint (word_of_int mn :: u32) = mn" "uint (word_of_int mx :: u32) = mx"
    using assms by (auto simp: mn_def mx_def word_of_int_less_iff32)
  then show ?thesis
    unfolding calculateEffectiveTTL_def mn_def [symmetric] mx_def [symmetric]
    by (simp add: Let_def word_less_def)
qed

definition stored_answers :: "dns_response \<Rightarrow> rr list" where
  "stored_answers r = (case dr_RawMsg r of Some m \<Rightarrow> m_Answer m | None \<Rightarrow> dr_Answer r)"

lemma floor_max: "(if t < m then m else t) = max m (t :: 'a :: linorder)"
  by (auto simp: max_def)

definition plain_rr :: "rr \<Rightarrow> bool" where
  "plain_rr r \<longleftrightarrow> r \<noteq> NilRR \<and> rrtype r \<noteq> TypeOPT \<and> rrtype r \<noteq> TypeTSIG"

definition lowered :: "u32 \<Rightarrow> u32 \<Rightarrow> u32 \<Rightarrow> u32" where
  "lowered elapsed minTTL t = max minTTL (if t > elapsed then t - elapsed else 0)"

lemma uint_lowered: "uint (lowered elapsed minTTL t) = max (uint minTTL) (uint t - uint elapsed)"
proof -
  have "uint (if t > elapsed then t - elapsed else 0) = max 0 (uint t - uint elapsed)"
    by (auto simp: word_less_def uint_sub_if')
  moreover have "uint (max a b) = max (uint a) (uint b)" for a b :: u32
    by (simp add: max_def word_le_def)
  moreover have "0 \<le> uint minTTL" by simp
  ultimately show ?thesis by (simp add: lowered_def max.assoc [symmetric] max_absorb1)
qed

lemma lowered_mono: "mono (lowered elapsed minTTL)"
  by (rule monoI) (simp add: word_le_def uint_lowered)

lemma map_ttl_decrease:
  assumes "\<forall>r\<in>set rs. plain_rr r"
  shows "map ttl_of (decreaseRecordTTLs rs elapsed minTTL) = map (lowered elapsed minTTL \<circ> ttl_of) rs"
  using assms
  by (induction rs)
    (simp_all add: decreaseRecordTTLs_def Let_def Header_set_ttl floor_max lowered_def plain_rr_def)

lemma min_ttl_decrease:
  assumes "\<forall>r\<in>set rs. plain_rr r" "rs \<noteq> []"
  shows "min_ttl (decreaseRecordTTLs rs elapsed minTTL) = lowered elapsed minTTL (min_ttl rs)"
proof -
  have ne: "decreaseRecordTTLs rs elapsed minTTL \<noteq> []"
    using assms(2) by (simp add: decreaseRecordTTLs_def)
  have "ttl_of ` set (decreaseRecordTTLs rs elapsed minTTL) = lowered elapsed minTTL ` ttl_of ` set rs"
    using arg_cong [OF map_ttl_decrease [OF assms(1), of elapsed minTTL], of set]
    by (simp add: image_comp)
  with ne assms(2) show ?thesis
    by (simp add: min_ttl_eq mono_Min_commute [OF lowered_mono])
qed

lemma copy_answers:
  "dr_Answer (copyCachedResponse r elapsed mn)
     = decreaseRecordTTLs (stored_answers r)
         (if elapsed > 0 then word_of_int (quot elapsed second) else 0)
         (if mn > 0 then word_of_int mn else word_of_int DefaultMinTTL)"
  by (auto simp: copyCachedResponse_def stored_answers_def Let_def split: option.split)

lemma copy_ttl:
  "dr_Answer (copyCachedResponse r elapsed mn) \<noteq> [] \<Longrightarrow>
   dr_TTL (copyCachedResponse r elapsed mn) = min_ttl (dr_Answer (copyCachedResponse r elapsed mn))"
  by (auto simp: copyCachedResponse_def Let_def split: option.splits if_splits)

text \<open>
  The TTL reported with a cached answer is the smallest TTL of the stored answer section
  less the whole seconds since it was stored, and never below the configured minimum.
\<close>

theorem cached_ttl_served:
  assumes "stored_answers r \<noteq> []" and "\<forall>x\<in>set (stored_answers r). plain_rr x"
    and "0 \<le> elapsed" and "elapsed < 2 ^ 32 * second" and "0 < minTTL" and "minTTL < 2 ^ 32"
  shows "uint (dr_TTL (copyCachedResponse r elapsed minTTL))
    = max minTTL (uint (min_ttl (stored_answers r)) - elapsed div second)"
proof -
  let ?e = "if elapsed > 0 then word_of_int (quot elapsed second) else 0 :: u32"
  let ?m = "word_of_int minTTL :: u32"
  have "elapsed div second < 2 ^ 32" using assms(4) by (simp add: second_def)
  moreover have "0 \<le> elapsed div second" using assms(3) by (simp add: second_def pos_imp_zdiv_nonneg_iff)
  ultimately have e: "uint ?e = elapsed div second"
    using assms(3) by (auto simp: quot_def word_of_int_less_iff32 second_def)
  have m: "uint ?m = minTTL" using assms(5,6) by (simp add: word_of_int_less_iff32)
  have a: "dr_Answer (copyCachedResponse r elapsed minTTL) = decreaseRecordTTLs (stored_answers r) ?e ?m"
    using assms(5) by (simp add: copy_answers)
  then have "dr_TTL (copyCachedResponse r elapsed minTTL) = lowered ?e ?m (min_ttl (stored_answers r))"
    using assms(1,2) copy_ttl [of r elapsed minTTL]
    by (simp add: min_ttl_decrease) (simp add: decreaseRecordTTLs_def)
  then show ?thesis by (simp only: uint_lowered e m)
qed


section \<open>Prefetching\<close>

abbreviation entries_of :: "cache_key \<Rightarrow> (cache_entry \<Rightarrow> bool) \<Rightarrow> cache_entry list \<Rightarrow> bool" where
  "entries_of k Q l \<equiv> \<forall>ent\<in>set l. ce_Key ent = k \<longrightarrow> Q ent"

definition stores :: "cache_key \<Rightarrow> cache_op \<Rightarrow> bool" where
  "stores k op \<longleftrightarrow> (\<exists>now resp t. op = Op_Set now k resp t)"

definition is_failure :: "cache_key \<Rightarrow> cache_op \<Rightarrow> bool" where
  "is_failure k op \<longleftrightarrow> (\<exists>now. op = Op_PrefetchFailure now k)"

lemma lru_set_subset:
  assumes "ent \<in> set (lru_set config n now k resp t l)" and "ce_Key ent \<noteq> k"
  shows "ent \<in> set l"
proof -
  define x where "x = (case lru_find k l of
      Some ent \<Rightarrow> refresh_entry config now resp t ent | None \<Rightarrow> new_entry config now k resp t)"
  have "ce_Key x = k"
    by (auto simp: x_def refresh_entry_def new_entry_def Let_def dest: lru_find_key split: option.split)
  with assms show ?thesis
    unfolding lru_set_def x_def [symmetric] by (auto split: if_splits dest: in_set_takeD)
qed

text \<open>What an operation does to an entry it keeps.\<close>

fun op_effect :: "cache_op \<Rightarrow> cache_entry \<Rightarrow> cache_entry" where
  "op_effect (Op_SetPrefetching k b) ent = ent\<lparr>ce_Prefetching := b\<rparr>"
| "op_effect (Op_PrefetchFailure now k) ent = ent\<lparr>ce_PrefetchFailCount := ce_PrefetchFailCount ent + 1,
     ce_LastPrefetchFail := now, ce_Prefetching := False,
     ce_PrefetchBackoff := prefetchBackoff (ce_PrefetchFailCount ent + 1)\<rparr>"
| "op_effect (Op_PrefetchSuccess k) ent = ent\<lparr>ce_PrefetchFailCount := 0, ce_PrefetchBackoff := 0,
     ce_Prefetching := False\<rparr>"
| "op_effect (Op_Get now k) ent = ent\<lparr>ce_HitCount := ce_HitCount ent + 1\<rparr>"
| "op_effect (Op_Set now k resp t) ent = ent"
| "op_effect (Op_Remove k) ent = ent"
| "op_effect Op_Clear ent = ent"

lemma lru_step_origin:
  assumes "ent' \<in> set (lru_step config n l op)" and "\<not> stores (ce_Key ent') op"
  shows "\<exists>ent\<in>set l. ce_Key ent = ce_Key ent'
    \<and> (ent' = ent \<and> (\<exists>now k. op = Op_Get now k) \<or> ent' = op_effect op ent \<and> op_key op = Some (ce_Key ent)
         \<or> ent' = ent \<and> op_key op \<noteq> Some (ce_Key ent))"
proof (cases op)
  case (Op_Get now k)
  then show ?thesis using assms
    by (auto simp: lru_get_def find_Some_iff split: option.splits if_splits)
next
  case (Op_Set now k resp t)
  with assms(2) have "ce_Key ent' \<noteq> k" by (auto simp: stores_def)
  with Op_Set assms(1) show ?thesis using lru_set_subset [of ent'] by auto
qed (use assms in \<open>auto split: if_splits\<close>)

definition nonneg_fails :: "cache_entry list \<Rightarrow> bool" where
  "nonneg_fails l \<longleftrightarrow> (\<forall>ent\<in>set l. 0 \<le> ce_PrefetchFailCount ent)"

lemma nonneg_fails_step: "nonneg_fails l \<Longrightarrow> nonneg_fails (lru_step config n l op)"
  unfolding nonneg_fails_def
  by (cases op)
    (auto dest!: in_set_takeD simp: lru_get_def lru_set_def refresh_entry_def new_entry_def Let_def
      find_Some_iff split: if_splits option.splits)

lemma nonneg_fails_run: "nonneg_fails (recency (cache_run config ops))"
proof -
  have "nonneg_fails l \<Longrightarrow> nonneg_fails (foldl (lru_step config n) l ops)" for l n
    by (induction ops arbitrary: l) (simp_all add: nonneg_fails_step)
  moreover have "nonneg_fails []" by (simp add: nonneg_fails_def)
  ultimately show ?thesis
    unfolding cache_run_def recency_run [OF cache_live_new] recency_new by blast
qed

lemma fails_step:
  assumes "entries_of k (\<lambda>ent. m \<le> ce_PrefetchFailCount ent) l"
    and "\<not> stores k op" and "op \<noteq> Op_PrefetchSuccess k"
  shows "entries_of k (\<lambda>ent. (if is_failure k op then m + 1 else m) \<le> ce_PrefetchFailCount ent)
           (lru_step config n l op)"
proof (intro ballI impI)
  fix ent' assume ent': "ent' \<in> set (lru_step config n l op)" "ce_Key ent' = k"
  from lru_step_origin [OF ent'(1)] assms(2) ent'(2)
  obtain ent where ent: "ent \<in> set l" "ce_Key ent = k"
    "ent' = ent \<and> (\<exists>now k. op = Op_Get now k) \<or> ent' = op_effect op ent \<and> op_key op = Some k
       \<or> ent' = ent \<and> op_key op \<noteq> Some k" by auto
  with assms(1) have "m \<le> ce_PrefetchFailCount ent" by simp
  with ent(3) assms(3) show "(if is_failure k op then m + 1 else m) \<le> ce_PrefetchFailCount ent'"
    by (cases op) (auto simp: is_failure_def)
qed

lemma fails_run:
  assumes "entries_of k (\<lambda>ent. m \<le> ce_PrefetchFailCount ent) l"
    and "\<forall>op\<in>set ops. \<not> stores k op \<and> op \<noteq> Op_PrefetchSuccess k"
  shows "entries_of k (\<lambda>ent. m + int (length (filter (is_failure k) ops)) \<le> ce_PrefetchFailCount ent)
           (foldl (lru_step config n) l ops)"
  using assms
proof (induction ops arbitrary: l m)
  case (Cons op ops)
  have "\<not> stores k op" "op \<noteq> Op_PrefetchSuccess k" using Cons.prems(2) by auto
  from Cons.IH [OF fails_step [OF Cons.prems(1) this]] Cons.prems(2)
  show ?case by (cases "is_failure k op") (simp_all add: algebra_simps)
qed simp


lemma recency_run_append:
  "recency (cache_run config (ops @ ops'))
     = foldl (lru_step config (nat (c_maxSize (NewDnsCache config)))) (recency (cache_run config ops)) ops'"
  by (simp add: cache_run_append recency_run [OF cache_run_live])

lemma entry_of_run_mem:
  assumes "entry_of (cache_run config ops) k = Some ent"
  shows "ent \<in> set (recency (cache_run config ops)) \<and> ce_Key ent = k"
proof -
  have "cache_wf (cache_run config ops)" using cache_run_inv by (simp add: cache_inv_def)
  with assms have "lru_find k (recency (cache_run config ops)) = Some ent"
    by (simp add: lru_find_recency)
  then show ?thesis by (auto simp: find_Some_iff)
qed

text \<open>
  Prefetching stops after three failures: once three failures of a key are recorded without
  a new response or a success in between, no prefetch of that key is due at any time.
\<close>

theorem prefetch_gives_up:
  assumes "\<forall>op\<in>set ops'. \<not> stores k op \<and> op \<noteq> Op_PrefetchSuccess k"
    and "3 \<le> length (filter (is_failure k) ops')"
  shows "\<not> DnsCache_ShouldPrefetch now k (cache_run config (ops @ ops'))"
proof -
  let ?l = "recency (cache_run config (ops @ ops'))"
  have "entries_of k (\<lambda>ent. 0 \<le> ce_PrefetchFailCount ent) (recency (cache_run config ops))"
    using nonneg_fails_run [of config ops] by (simp add: nonneg_fails_def)
  from fails_run [OF this assms(1)] assms(2)
  have "entries_of k (\<lambda>ent. 3 \<le> ce_PrefetchFailCount ent) ?l"
    unfolding recency_run_append by fastforce
  then show ?thesis using entry_of_run_mem [of config "ops @ ops'" k]
    by (auto simp: DnsCache_ShouldPrefetch_def shouldPrefetch_def split: option.split)
qed

text \<open>The operations that may clear the mark of a key's entry.\<close>

definition unmarks :: "cache_key \<Rightarrow> cache_op \<Rightarrow> bool" where
  "unmarks k op \<longleftrightarrow> stores k op \<or> is_failure k op \<or> op = Op_PrefetchSuccess k
     \<or> op = Op_SetPrefetching k False"

lemma marked_run:
  assumes "entries_of k ce_Prefetching l" and "\<forall>op\<in>set ops. \<not> unmarks k op"
  shows "entries_of k ce_Prefetching (foldl (lru_step config n) l ops)"
  using assms
proof (induction ops arbitrary: l)
  case (Cons op ops)
  have "entries_of k ce_Prefetching (lru_step config n l op)"
  proof (intro ballI impI)
    fix ent' assume ent': "ent' \<in> set (lru_step config n l op)" "ce_Key ent' = k"
    have op: "\<not> unmarks k op" using Cons.prems(2) by simp
    with lru_step_origin [OF ent'(1)] ent'(2)
    obtain ent where ent: "ent \<in> set l" "ce_Key ent = k"
      "ent' = ent \<and> (\<exists>now k. op = Op_Get now k) \<or> ent' = op_effect op ent \<and> op_key op = Some k
         \<or> ent' = ent \<and> op_key op \<noteq> Some k" by (auto simp: unmarks_def)
    with Cons.prems(1) have "ce_Prefetching ent" by simp
    with ent(3) op show "ce_Prefetching ent'" by (cases op) (auto simp: unmarks_def is_failure_def)
  qed
  with Cons show ?case by simp
qed simp

text \<open>
  At most one prefetch of a key is in flight: once an entry is marked, no prefetch of the
  key is due until the prefetch is reported finished, the mark is cleared or a response is
  stored.
\<close>

theorem prefetch_single_flight:
  assumes "\<forall>op\<in>set ops'. \<not> unmarks k op"
  shows "\<not> DnsCache_ShouldPrefetch now k
    (cache_run config (ops @ Op_SetPrefetching k True # ops'))"
proof -
  let ?c = "cache_run config (ops @ Op_SetPrefetching k True # ops')"
  let ?n = "nat (c_maxSize (NewDnsCache config))"
  let ?l = "lru_step config ?n (recency (cache_run config ops)) (Op_SetPrefetching k True)"
  have "entries_of k ce_Prefetching ?l"
  proof (intro ballI impI)
    fix ent assume "ent \<in> set ?l" "ce_Key ent = k"
    then obtain x where "ent = (if ce_Key x = k then x\<lparr>ce_Prefetching := True\<rparr> else x)"
      unfolding lru_step.simps set_map by blast
    with \<open>ce_Key ent = k\<close> show "ce_Prefetching ent" by (cases "ce_Key x = k") simp_all
  qed
  then have "entries_of k ce_Prefetching (foldl (lru_step config ?n) ?l ops')"
    using assms by (rule marked_run)
  then have "entries_of k ce_Prefetching (recency ?c)" by (simp only: recency_run_append foldl_Cons)
  then show ?thesis using entry_of_run_mem [of config "ops @ Op_SetPrefetching k True # ops'" k]
    by (auto simp: DnsCache_ShouldPrefetch_def shouldPrefetch_def split: option.split)
qed


section \<open>A concrete cache\<close>

definition sample_config :: cache_config where
  "sample_config = \<lparr>cc_Enabled = True, cc_Size = 2, cc_MinTTL = 60, cc_MaxTTL = 86400,
     cc_Prefetch = True, cc_PrefetchThreshold = 30, cc_NegativeCache = True\<rparr>"

definition sample_key :: "string \<Rightarrow> cache_key" where
  "sample_key n = \<lparr>ck_UpstreamAddr = ''1.1.1.1:53'', ck_ProxyTag = ''direct'', ck_Name = n,
     ck_QType = TypeA\<rparr>"

definition sample_rr :: "u32 \<Rightarrow> rr" where
  "sample_rr t = RR \<lparr>h_Name = ''a.'', h_Rrtype = TypeA, h_Class = 1, h_Ttl = t\<rparr> (RD_A [192, 0, 2, 1])"

definition sample_response :: dns_response where
  "sample_response = \<lparr>dr_Query = \<lparr>q_Name = ''a.'', q_QType = TypeA, q_QClass = 1, q_ClientIP = [],
       q_IsBootstrap = False\<rparr>, dr_RawMsg = None, dr_Rcode = 0,
     dr_Answer = [sample_rr 300, sample_rr 120], dr_Authority = [], dr_Additional = [],
     dr_TTL = 120, dr_Upstream = ''1.1.1.1:53'', dr_ProxyTag = ''direct'', dr_RTT = 0,
     dr_Cached = False\<rparr>"

lemmas sample_defs = sample_config_def sample_key_def sample_rr_def sample_response_def

lemma sample_ttl: "computeEffectiveTTL (Some sample_response) 120 sample_config = 120"
  by (simp add: computeEffectiveTTL_def calculateEffectiveTTL_def sample_defs)

lemma sample_no_skip: "\<not> skip_negative sample_config (Some sample_response)"
  by (simp add: skip_negative_def sample_defs)

theorem cache_serves_recent_witness:
  "fst (DnsCache_Get (10 * second) (sample_key ''a.'') (cache_run sample_config
     ([] @ Op_Set 0 (sample_key ''a.'') (Some sample_response) 120
        # [Op_Set second (sample_key ''b.'') (Some sample_response) 120])))
   = Hit (copyCachedResponse sample_response (10 * second - 0) (cc_MinTTL sample_config))"
proof (rule cache_serves_recent)
  have "op_keys [Op_Set second (sample_key ''b.'') (Some sample_response) 120] = {sample_key ''b.''}"
    by (auto simp: op_keys_def)
  then show "int (card (op_keys [Op_Set second (sample_key ''b.'') (Some sample_response) 120]))
      < c_maxSize (NewDnsCache sample_config)"
    by (simp add: NewDnsCache_def sample_config_def)
qed (simp_all add: sample_no_skip sample_ttl op_other_def sample_key_def ttl_duration_def second_def)

theorem cache_hit_provenance_witness:
  "\<exists>t0 r ttl. foldl (last_set sample_config) Map.empty
       [Op_Set 0 (sample_key ''a.'') (Some sample_response) 120] (sample_key ''a.'') = Some (t0, Some r, ttl)
    \<and> copyCachedResponse sample_response 5 60 = copyCachedResponse r (5 - t0) (cc_MinTTL sample_config)
    \<and> 5 \<le> t0 + ttl_duration (computeEffectiveTTL (Some r) ttl sample_config)"
proof (rule cache_hit_provenance)
  show "fst (DnsCache_Get 5 (sample_key ''a.'') (cache_run sample_config
      [Op_Set 0 (sample_key ''a.'') (Some sample_response) 120]))
    = Hit (copyCachedResponse sample_response 5 60)"
    by (simp add: cache_run_def NewDnsCache_def DnsCache_Set_def DnsCache_Get_def sample_no_skip
        new_entry_def sample_ttl evict_def resize_def ttl_duration_def second_def Let_def)
      (simp add: sample_config_def)
qed

theorem effective_ttl_clamped_witness:
  "uint (calculateEffectiveTTL 30 60 86400) = 60
   \<and> uint (calculateEffectiveTTL 100000 60 86400) = 86400"
  using effective_ttl_clamped [of 60 86400 30] effective_ttl_clamped [of 60 86400 100000] by simp

theorem cached_ttl_served_witness:
  "uint (dr_TTL (copyCachedResponse sample_response (20 * second) 60)) = 100"
  using cached_ttl_served [of sample_response "20 * second" 60]
  by (simp add: stored_answers_def sample_defs plain_rr_def qtype_defs second_def min_ttl_def)

theorem prefetch_gives_up_witness:
  "\<not> DnsCache_ShouldPrefetch (119 * second) (sample_key ''a.'') (cache_run sample_config
     ([Op_Set 0 (sample_key ''a.'') (Some sample_response) 120]
      @ [Op_PrefetchFailure 1 (sample_key ''a.''), Op_PrefetchFailure 2 (sample_key ''a.''),
         Op_PrefetchFailure 3 (sample_key ''a.'')]))"
  by (rule prefetch_gives_up) (auto simp: stores_def is_failure_def)

theorem prefetch_single_flight_witness:
  "\<not> DnsCache_ShouldPrefetch (119 * second) (sample_key ''a.'') (cache_run sample_config
     ([Op_Set 0 (sample_key ''a.'') (Some sample_response) 120]
      @ Op_SetPrefetching (sample_key ''a.'') True # [Op_Get 5 (sample_key ''a.'')]))"
  by (rule prefetch_single_flight) (simp add: unmarks_def stores_def is_failure_def)

end
