(* ===== verification/Dns_Rule.thy ===== *)
theory Dns_Rule
  imports Dns_Types
begin

text \<open>
  Rule matching, \<open>core/dns/rule.go\<close>, and the routing engine, \<open>core/dns/router.go\<close>. The
  regular-expression compiler of the Go library is the parameter \<open>compile\<close>: the language of a
  pattern, or \<open>None\<close> where \<open>regexp.Compile\<close> reports an error. A geosite resolver is an option: the
  nil resolver is \<open>None\<close>.
\<close>

section \<open>Matchers\<close>

type_synonym regex_compiler = "string \<Rightarrow> (string \<Rightarrow> bool) option"
type_synonym geosite_resolver = "string \<Rightarrow> string list \<times> string list"

datatype rule_matcher =
    DomainRule string bool bool "(string \<Rightarrow> bool) option"
  | IPRule "ipnet option"
  | QueryTypeRule query_type
  | ClientIPRule "ipnet option"
  | OrMatcher "rule_matcher list"

text \<open>
  The fields of a \<open>DomainRule\<close> are \<open>Domain\<close>, \<open>IsSuffix\<close>, \<open>IsRegex\<close> and \<open>Re\<close>, in this order. A regex rule without a compiled pattern would panic; \<open>BuildMatchers\<close> never
  makes one, and the model lets it match nothing.
\<close>

definition DomainRule_Match ::
  "string \<Rightarrow> bool \<Rightarrow> bool \<Rightarrow> (string \<Rightarrow> bool) option \<Rightarrow> dns_query \<Rightarrow> bool" where
  "DomainRule_Match domain isSuffix isRegex re query =
     (let name = TrimSuffix (q_Name query) ''.'' in
      if isRegex then (case re of Some f \<Rightarrow> f name | None \<Rightarrow> False)
      else if isSuffix then
        (let d = TrimSuffix domain ''.'' in
         if prefix ''.'' d then suffix d name
         else if name = d then True else suffix (''.'' @ d) name)
      else name = TrimSuffix domain ''.'')"

fun Match :: "rule_matcher \<Rightarrow> dns_query \<Rightarrow> bool" where
  "Match (DomainRule d s r re) query = DomainRule_Match d s r re query"
| "Match (IPRule cidr) query =
     (case cidr of None \<Rightarrow> False | Some n \<Rightarrow> IPNet_Contains n (q_ClientIP query))"
| "Match (QueryTypeRule qt) query \<longleftrightarrow> qt = q_QType query"
| "Match (ClientIPRule cidr) query =
     (case cidr of
        None \<Rightarrow> False
      | Some n \<Rightarrow> if q_ClientIP query = [] then False else IPNet_Contains n (q_ClientIP query))"
| "Match (OrMatcher ms) query = list_ex (\<lambda>m. Match m query) ms"

fun Type :: "rule_matcher \<Rightarrow> string" where
  "Type (DomainRule d s r re) =
     (if r then ''domain_regex'' else if s then ''domain_suffix'' else ''domain'')"
| "Type (IPRule cidr) = ''ip''"
| "Type (QueryTypeRule qt) = ''query_type''"
| "Type (ClientIPRule cidr) = ''client_ip''"
| "Type (OrMatcher ms) = ''or_group''"

definition MatchAll :: "rule_matcher list \<Rightarrow> dns_query \<Rightarrow> bool" where
  "MatchAll matchers query =
     (if matchers = [] then True else list_all (\<lambda>m. Match m query) matchers)"

section \<open>Building the matchers of a rule\<close>

record dns_rule =
  ru_ID :: string
  ru_Domain :: "string list"
  ru_DomainSuffix :: "string list"
  ru_DomainRegex :: "string list"
  ru_IP :: "string list"
  ru_QueryType :: "query_type list"
  ru_ClientIP :: "string list"
  ru_Upstream :: string
  ru_Action :: string
  ru_Policy :: string

datatype rule_error =
    InvalidRegex string
  | InvalidIP string
  | InvalidClientIP string

definition parseCIDR :: "string \<Rightarrow> ipnet option" where
  "parseCIDR s =
     (if CHR ''/'' \<in> set s then ParseCIDR s
      else if ParseIP s = [] then None
      else if To4 (ParseIP s) \<noteq> [] then ParseCIDR (s @ ''/32'')
      else ParseCIDR (s @ ''/128''))"

text \<open>The two domain loops: \<open>isSuffix\<close> is the flag given to the entries that are no tag.\<close>

definition expand_tag :: "geosite_resolver option \<Rightarrow> string \<Rightarrow> rule_matcher list" where
  "expand_tag resolver d =
     (case resolver of
        None \<Rightarrow> []
      | Some res \<Rightarrow>
          (case res (TrimPrefix d ''geosite:'') of
             (doms, suffs) \<Rightarrow>
               map (\<lambda>dom. DomainRule dom False False None) doms
               @ map (\<lambda>suf. DomainRule suf True False None) suffs))"

fun domain_loop :: "geosite_resolver option \<Rightarrow> bool \<Rightarrow> string list \<Rightarrow> rule_matcher list" where
  "domain_loop resolver isSuffix [] = []"
| "domain_loop resolver isSuffix (d # ds) =
     (if prefix ''geosite:'' d then expand_tag resolver d
      else [DomainRule d isSuffix False None]) @ domain_loop resolver isSuffix ds"

fun regex_loop :: "regex_compiler \<Rightarrow> string list \<Rightarrow> rule_error + rule_matcher list" where
  "regex_loop compile [] = Inr []"
| "regex_loop compile (d # ds) =
     (case compile d of
        None \<Rightarrow> Inl (InvalidRegex d)
      | Some f \<Rightarrow> map_sum id ((#) (DomainRule d False True (Some f))) (regex_loop compile ds))"

fun cidr_loop ::
  "(string \<Rightarrow> rule_error) \<Rightarrow> (ipnet option \<Rightarrow> rule_matcher) \<Rightarrow> string list
   \<Rightarrow> rule_error + rule_matcher list" where
  "cidr_loop err mk [] = Inr []"
| "cidr_loop err mk (s # ss) =
     (case parseCIDR s of
        None \<Rightarrow> Inl (err s)
      | Some n \<Rightarrow> map_sum id ((#) (mk (Some n))) (cidr_loop err mk ss))"

text \<open>A group contributes nothing when empty, itself when single, an \<open>OrMatcher\<close> otherwise.\<close>

definition group :: "rule_matcher list \<Rightarrow> rule_matcher list" where
  "group ms = (case ms of [] \<Rightarrow> [] | [m] \<Rightarrow> [m] | _ \<Rightarrow> [OrMatcher ms])"

definition BuildMatchers ::
  "regex_compiler \<Rightarrow> geosite_resolver option \<Rightarrow> dns_rule \<Rightarrow> rule_error + rule_matcher list" where
  "BuildMatchers compile resolver rule =
     (let doms = domain_loop resolver False (ru_Domain rule)
                 @ domain_loop resolver True (ru_DomainSuffix rule) in
      case regex_loop compile (ru_DomainRegex rule) of
        Inl e \<Rightarrow> Inl e
      | Inr regs \<Rightarrow>
          (case cidr_loop InvalidIP IPRule (ru_IP rule) of
             Inl e \<Rightarrow> Inl e
           | Inr ips \<Rightarrow>
               (let qts = map QueryTypeRule (ru_QueryType rule) in
                case cidr_loop InvalidClientIP ClientIPRule (ru_ClientIP rule) of
                  Inl e \<Rightarrow> Inl e
                | Inr cips \<Rightarrow> Inr (group (doms @ regs) @ group ips @ group qts @ group cips))))"

section \<open>The router\<close>

record router =
  rt_rules :: "dns_rule list"
  rt_matchers :: "rule_matcher list list"
  rt_upstreamMap :: "string \<rightharpoonup> string"
  rt_upstreamProxyTag :: "string \<rightharpoonup> string"
  rt_defaultUpstream :: string
  rt_geositeResolver :: "geosite_resolver option"

record route_result =
  rr_UpstreamID :: string
  rr_UpstreamAddr :: string
  rr_Action :: string
  rr_RuleID :: string
  rr_Policy :: string
  rr_ProxyTag :: string

text \<open>Reading a Go map: the zero value for an absent key.\<close>

definition map_get :: "('k \<rightharpoonup> string) \<Rightarrow> 'k \<Rightarrow> string" where
  "map_get m k = (case m k of None \<Rightarrow> [] | Some v \<Rightarrow> v)"

definition load_upstreams ::
  "upstream_config list \<Rightarrow> (string \<rightharpoonup> string) \<times> (string \<rightharpoonup> string)" where
  "load_upstreams us =
     foldl (\<lambda>(addrs, tags) u.
       if uc_ID u = [] then (addrs, tags)
       else (addrs(uc_ID u \<mapsto> uc_Addr u),
             if uc_ProxyTag u = [] then tags else tags(uc_ID u \<mapsto> uc_ProxyTag u)))
       (Map.empty, Map.empty) us"

datatype router_error = RuleError nat string rule_error | NilConfig

fun compile_rules ::
  "regex_compiler \<Rightarrow> geosite_resolver option \<Rightarrow> nat \<Rightarrow> dns_rule list
   \<Rightarrow> router_error + rule_matcher list list" where
  "compile_rules compile resolver i [] = Inr []"
| "compile_rules compile resolver i (rule # rules) =
     (case BuildMatchers compile resolver rule of
        Inl e \<Rightarrow> Inl (RuleError i (ru_ID rule) e)
      | Inr ms \<Rightarrow> map_sum id ((#) ms) (compile_rules compile resolver (Suc i) rules))"

text \<open>A failed update returns before the fields are assigned.\<close>

definition UpdateRules ::
  "regex_compiler \<Rightarrow> dns_rule list \<Rightarrow> router \<Rightarrow> router_error option \<times> router" where
  "UpdateRules compile rules r =
     (case compile_rules compile (rt_geositeResolver r) 0 rules of
        Inl e \<Rightarrow> (Some e, r)
      | Inr mss \<Rightarrow> (None, r\<lparr>rt_rules := rules, rt_matchers := mss\<rparr>))"

definition NewRouter ::
  "regex_compiler \<Rightarrow> dns_rule list \<Rightarrow> upstream_config list \<Rightarrow> string \<Rightarrow> router_error + router" where
  "NewRouter compile rules upstreams defaultUpstream =
     (case UpdateRules compile rules
         \<lparr>rt_rules = [], rt_matchers = [], rt_upstreamMap = fst (load_upstreams upstreams),
          rt_upstreamProxyTag = snd (load_upstreams upstreams),
          rt_defaultUpstream = defaultUpstream, rt_geositeResolver = None\<rparr> of
        (Some e, _) \<Rightarrow> Inl e
      | (None, r) \<Rightarrow> Inr r)"

text \<open>The loop of \<open>Route\<close>: a rule without matchers in the table is skipped.\<close>

fun route_loop ::
  "rule_matcher list list \<Rightarrow> nat \<Rightarrow> dns_query \<Rightarrow> dns_rule list \<Rightarrow> dns_rule option" where
  "route_loop mss i query [] = None"
| "route_loop mss i query (rule # rules) =
     (if i \<ge> length mss then route_loop mss (Suc i) query rules
      else if MatchAll (mss ! i) query then Some rule
      else route_loop mss (Suc i) query rules)"

definition Route :: "router \<Rightarrow> dns_query \<Rightarrow> route_result" where
  "Route r query =
     (case route_loop (rt_matchers r) 0 query (rt_rules r) of
        Some rule \<Rightarrow>
          \<lparr>rr_UpstreamID = ru_Upstream rule,
           rr_UpstreamAddr = map_get (rt_upstreamMap r) (ru_Upstream rule),
           rr_Action = (if ru_Action rule = [] then ''route'' else ru_Action rule),
           rr_RuleID = ru_ID rule,
           rr_Policy = (if ru_Policy rule = [] then ''single'' else ru_Policy rule),
           rr_ProxyTag = map_get (rt_upstreamProxyTag r) (ru_Upstream rule)\<rparr>
      | None \<Rightarrow>
          \<lparr>rr_UpstreamID = rt_defaultUpstream r,
           rr_UpstreamAddr = map_get (rt_upstreamMap r) (rt_defaultUpstream r),
           rr_Action = ''route'', rr_RuleID = [], rr_Policy = ''single'',
           rr_ProxyTag = map_get (rt_upstreamProxyTag r) (rt_defaultUpstream r)\<rparr>)"

definition ListRules :: "router \<Rightarrow> dns_rule list" where
  "ListRules r = rt_rules r"

definition SetGeositeResolver :: "geosite_resolver option \<Rightarrow> router \<Rightarrow> router" where
  "SetGeositeResolver resolver r = r\<lparr>rt_geositeResolver := resolver\<rparr>"

definition rule_of_config :: "rule_config \<Rightarrow> dns_rule" where
  "rule_of_config rc =
     \<lparr>ru_ID = rc_ID rc, ru_Domain = rc_Domain rc, ru_DomainSuffix = rc_DomainSuffix rc,
      ru_DomainRegex = rc_DomainRegex rc, ru_IP = rc_IP rc, ru_QueryType = rc_QueryType rc,
      ru_ClientIP = rc_ClientIP rc, ru_Upstream = rc_Upstream rc, ru_Action = rc_Action rc,
      ru_Policy = rc_Policy rc\<rparr>"

definition Router_Reload ::
  "regex_compiler \<Rightarrow> module_config option \<Rightarrow> router \<Rightarrow> router_error option \<times> router" where
  "Router_Reload compile cfg r =
     (case cfg of
        None \<Rightarrow> (Some NilConfig, r)
      | Some c \<Rightarrow>
          UpdateRules compile (map rule_of_config (mc_Rules c))
            (r\<lparr>rt_upstreamMap := fst (load_upstreams (mc_Upstreams c)),
               rt_upstreamProxyTag := snd (load_upstreams (mc_Upstreams c))\<rparr>))"

end
