(* ===== verification/Dns_Rule_Correct.thy ===== *)
theory Dns_Rule_Correct
  imports Dns_Rule
begin

text \<open>
  What rules and routing mean. \<open>rule_matches\<close> states the documented semantics of a rule without
  matchers: alternatives within a field, conjunction across fields, a domain suffix as a suffix of
  labels. The matchers built from a rule implement it, and routing is the first rule that matches.
\<close>

section \<open>Domain suffixes are label suffixes\<close>

fun join_on :: "char \<Rightarrow> string list \<Rightarrow> string" where
  "join_on c [] = []"
| "join_on c [w] = w"
| "join_on c (w # v # ws) = w @ c # join_on c (v # ws)"

lemma split_on_not_Nil [simp]: "split_on c s \<noteq> []"
  by (induction s) (auto split: list.splits)

lemma join_split: "join_on c (split_on c s) = s"
proof (induction s)
  case (Cons x s)
  obtain w ws where s: "split_on c s = w # ws" by (cases "split_on c s") auto
  with Cons show ?case by (cases ws) auto
qed simp

lemma split_on_append: "split_on c (p @ c # d) = split_on c p @ split_on c d"
proof (induction p)
  case (Cons x p)
  obtain w ws where "split_on c p = w # ws" by (cases "split_on c p") auto
  with Cons show ?case by simp
qed simp

lemma join_on_append: "vs \<noteq> [] \<Longrightarrow> ws \<noteq> [] \<Longrightarrow> join_on c (ws @ vs) = join_on c ws @ c # join_on c vs"
proof (induction c ws rule: join_on.induct)
  case (2 c w)
  then show ?case by (cases vs) simp_all
qed simp_all

lemma label_suffix_iff:
  "suffix (split_on c d) (split_on c n) \<longleftrightarrow> n = d \<or> suffix (c # d) n"
proof
  assume "suffix (split_on c d) (split_on c n)"
  then obtain ws where ws: "split_on c n = ws @ split_on c d" by (auto simp: suffix_def)
  have n: "n = join_on c (ws @ split_on c d)" unfolding ws [symmetric] by (simp add: join_split)
  show "n = d \<or> suffix (c # d) n"
  proof (cases "ws = []")
    case True
    with n show ?thesis by (simp add: join_split)
  next
    case False
    with n have "n = join_on c ws @ c # d" by (simp add: join_on_append join_split)
    then show ?thesis by (auto simp: suffix_def)
  qed
next
  assume "n = d \<or> suffix (c # d) n"
  then show "suffix (split_on c d) (split_on c n)"
    by (auto simp: suffix_def split_on_append)
qed

section \<open>What a rule means\<close>

text \<open>
  The documented semantics of a rule: the values of one field are alternatives, the fields that
  have a value must all hold.
\<close>

definition exact_hit :: "string \<Rightarrow> string \<Rightarrow> bool" where
  "exact_hit d n \<longleftrightarrow> n = TrimSuffix d ''.''"

definition suffix_hit :: "string \<Rightarrow> string \<Rightarrow> bool" where
  "suffix_hit d n \<longleftrightarrow>
     (if prefix ''.'' (TrimSuffix d ''.'') then suffix (TrimSuffix d ''.'') n
      else suffix (split_on CHR ''.'' (TrimSuffix d ''.'')) (split_on CHR ''.'' n))"

definition is_tag :: "string \<Rightarrow> bool" where
  "is_tag d \<longleftrightarrow> prefix ''geosite:'' d"

definition tag_domains :: "geosite_resolver option \<Rightarrow> string \<Rightarrow> string list" where
  "tag_domains resolver d =
     (case resolver of None \<Rightarrow> [] | Some res \<Rightarrow> fst (res (TrimPrefix d ''geosite:'')))"

definition tag_suffixes :: "geosite_resolver option \<Rightarrow> string \<Rightarrow> string list" where
  "tag_suffixes resolver d =
     (case resolver of None \<Rightarrow> [] | Some res \<Rightarrow> snd (res (TrimPrefix d ''geosite:'')))"

text \<open>The exact names and the suffixes a rule lists, tags replaced by what they stand for.\<close>

definition rule_names :: "geosite_resolver option \<Rightarrow> dns_rule \<Rightarrow> string list" where
  "rule_names resolver rule =
     filter (\<lambda>d. \<not> is_tag d) (ru_Domain rule)
     @ concat (map (tag_domains resolver) (filter is_tag (ru_Domain rule @ ru_DomainSuffix rule)))"

definition rule_suffixes :: "geosite_resolver option \<Rightarrow> dns_rule \<Rightarrow> string list" where
  "rule_suffixes resolver rule =
     filter (\<lambda>d. \<not> is_tag d) (ru_DomainSuffix rule)
     @ concat (map (tag_suffixes resolver) (filter is_tag (ru_Domain rule @ ru_DomainSuffix rule)))"

definition in_cidr :: "ip \<Rightarrow> string \<Rightarrow> bool" where
  "in_cidr x s \<longleftrightarrow> (case parseCIDR s of None \<Rightarrow> False | Some n \<Rightarrow> IPNet_Contains n x)"

definition rule_matches ::
  "regex_compiler \<Rightarrow> geosite_resolver option \<Rightarrow> dns_rule \<Rightarrow> dns_query \<Rightarrow> bool" where
  "rule_matches compile resolver rule query \<longleftrightarrow>
     (let n = TrimSuffix (q_Name query) ''.'' in
      (rule_names resolver rule = [] \<and> rule_suffixes resolver rule = [] \<and> ru_DomainRegex rule = []
       \<or> (\<exists>d\<in>set (rule_names resolver rule). exact_hit d n)
       \<or> (\<exists>d\<in>set (rule_suffixes resolver rule). suffix_hit d n)
       \<or> (\<exists>p\<in>set (ru_DomainRegex rule). \<exists>f. compile p = Some f \<and> f n))
      \<and> (ru_IP rule = [] \<or> (\<exists>s\<in>set (ru_IP rule). in_cidr (q_ClientIP query) s))
      \<and> (ru_QueryType rule = [] \<or> q_QType query \<in> set (ru_QueryType rule))
      \<and> (ru_ClientIP rule = []
         \<or> q_ClientIP query \<noteq> [] \<and> (\<exists>s\<in>set (ru_ClientIP rule). in_cidr (q_ClientIP query) s)))"

lemma MatchAll_append: "MatchAll (a @ b) q \<longleftrightarrow> MatchAll a q \<and> MatchAll b q"
  by (auto simp: MatchAll_def)

lemma MatchAll_group: "MatchAll (group ms) q \<longleftrightarrow> ms = [] \<or> (\<exists>m\<in>set ms. Match m q)"
  by (auto simp: MatchAll_def group_def list_ex_iff split: list.splits)

lemma DomainRule_Match_exact:
  "Match (DomainRule d False False re) q = exact_hit d (TrimSuffix (q_Name q) ''.'')"
  by (simp add: DomainRule_Match_def exact_hit_def)

lemma DomainRule_Match_suffix:
  "Match (DomainRule d True False re) q = suffix_hit d (TrimSuffix (q_Name q) ''.'')"
  using label_suffix_iff [of "CHR ''.''" "TrimSuffix d ''.''" "TrimSuffix (q_Name q) ''.''"]
  by (auto simp: DomainRule_Match_def suffix_hit_def Let_def)

lemma expand_tag_eq:
  "expand_tag resolver d =
     map (\<lambda>x. DomainRule x False False None) (tag_domains resolver d)
     @ map (\<lambda>x. DomainRule x True False None) (tag_suffixes resolver d)"
  by (auto simp: expand_tag_def tag_domains_def tag_suffixes_def split: option.split prod.split)

lemma domain_loop_set:
  "set (domain_loop resolver b ds) =
     (\<lambda>x. DomainRule x b False None) ` set (filter (\<lambda>d. \<not> is_tag d) ds)
     \<union> (\<lambda>x. DomainRule x False False None) ` set (concat (map (tag_domains resolver) (filter is_tag ds)))
     \<union> (\<lambda>x. DomainRule x True False None) ` set (concat (map (tag_suffixes resolver) (filter is_tag ds)))"
proof (induction ds)
  case (Cons d ds)
  show ?case
    by (cases "is_tag d") (simp_all add: Cons expand_tag_eq is_tag_def Un_ac image_Un)
qed simp

lemma domain_loops_set:
  "set (domain_loop resolver False (ru_Domain rule) @ domain_loop resolver True (ru_DomainSuffix rule))
   = (\<lambda>x. DomainRule x False False None) ` set (rule_names resolver rule)
     \<union> (\<lambda>x. DomainRule x True False None) ` set (rule_suffixes resolver rule)"
  unfolding set_append domain_loop_set rule_names_def rule_suffixes_def by auto

lemma regex_loop_set:
  "regex_loop compile ps = Inr ms \<Longrightarrow>
   ((\<exists>m\<in>set ms. P m) \<longleftrightarrow> (\<exists>p\<in>set ps. \<exists>f. compile p = Some f \<and> P (DomainRule p False True (Some f))))
   \<and> (ms = [] \<longleftrightarrow> ps = [])"
proof (induction ps arbitrary: ms)
  case (Cons p ps)
  from Cons.prems obtain f ms' where "compile p = Some f" "regex_loop compile ps = Inr ms'"
    "ms = DomainRule p False True (Some f) # ms'"
    by (cases "regex_loop compile ps") (auto split: option.splits)
  with Cons.IH [of ms'] show ?case by simp
qed simp

lemma cidr_loop_set:
  "cidr_loop err mk ss = Inr ms \<Longrightarrow>
   ((\<exists>m\<in>set ms. P m) \<longleftrightarrow> (\<exists>s\<in>set ss. \<exists>n. parseCIDR s = Some n \<and> P (mk (Some n))))
   \<and> (ms = [] \<longleftrightarrow> ss = [])"
proof (induction ss arbitrary: ms)
  case (Cons s ss)
  from Cons.prems obtain n ms' where "parseCIDR s = Some n" "cidr_loop err mk ss = Inr ms'"
    "ms = mk (Some n) # ms'"
    by (cases "cidr_loop err mk ss") (auto split: option.splits)
  with Cons.IH [of ms'] show ?case by simp
qed simp

lemma BuildMatchers_Inr:
  assumes "BuildMatchers compile resolver rule = Inr ms"
  obtains regs ips cips where "regex_loop compile (ru_DomainRegex rule) = Inr regs"
    "cidr_loop InvalidIP IPRule (ru_IP rule) = Inr ips"
    "cidr_loop InvalidClientIP ClientIPRule (ru_ClientIP rule) = Inr cips"
    "ms = group ((domain_loop resolver False (ru_Domain rule)
            @ domain_loop resolver True (ru_DomainSuffix rule)) @ regs)
          @ group ips @ group (map QueryTypeRule (ru_QueryType rule)) @ group cips"
  using assms by (auto simp: BuildMatchers_def Let_def split: sum.splits)

lemma bex_DomainRules:
  "(\<exists>m\<in>(\<lambda>x. DomainRule x False False None) ` A \<union> (\<lambda>x. DomainRule x True False None) ` B. Match m q)
   \<longleftrightarrow> (\<exists>d\<in>A. exact_hit d (TrimSuffix (q_Name q) ''.'')) \<or> (\<exists>d\<in>B. suffix_hit d (TrimSuffix (q_Name q) ''.''))"
  by (simp only: bex_Un bex_simps DomainRule_Match_exact DomainRule_Match_suffix)

lemma MatchAll_domains:
  assumes "regex_loop compile (ru_DomainRegex rule) = Inr regs"
  shows "MatchAll (group ((domain_loop resolver False (ru_Domain rule)
            @ domain_loop resolver True (ru_DomainSuffix rule)) @ regs)) q
    \<longleftrightarrow> rule_names resolver rule = [] \<and> rule_suffixes resolver rule = [] \<and> ru_DomainRegex rule = []
       \<or> (\<exists>d\<in>set (rule_names resolver rule). exact_hit d (TrimSuffix (q_Name q) ''.''))
       \<or> (\<exists>d\<in>set (rule_suffixes resolver rule). suffix_hit d (TrimSuffix (q_Name q) ''.''))
       \<or> (\<exists>p\<in>set (ru_DomainRegex rule). \<exists>f. compile p = Some f \<and> f (TrimSuffix (q_Name q) ''.''))"
proof -
  let ?doms = "domain_loop resolver False (ru_Domain rule)
    @ domain_loop resolver True (ru_DomainSuffix rule)"
  have "?doms = [] \<longleftrightarrow> set ?doms = {}" by simp
  also have "\<dots> \<longleftrightarrow> rule_names resolver rule = [] \<and> rule_suffixes resolver rule = []"
    unfolding domain_loops_set by simp
  finally have e: "?doms = [] \<longleftrightarrow> rule_names resolver rule = [] \<and> rule_suffixes resolver rule = []" .
  have r: "(\<exists>m\<in>set regs. Match m q)
      \<longleftrightarrow> (\<exists>p\<in>set (ru_DomainRegex rule). \<exists>f. compile p = Some f \<and> f (TrimSuffix (q_Name q) ''.''))"
    using regex_loop_set [OF assms, of "\<lambda>m. Match m q"] by (simp add: DomainRule_Match_def)
  have "MatchAll (group (?doms @ regs)) q \<longleftrightarrow> (?doms = [] \<and> regs = [])
      \<or> (\<exists>m\<in>set ?doms. Match m q) \<or> (\<exists>m\<in>set regs. Match m q)"
    unfolding MatchAll_group by auto
  then show ?thesis
    unfolding e r domain_loops_set bex_DomainRules using regex_loop_set [OF assms, of "\<lambda>m. True"] by blast
qed

lemma in_cidr_iff: "in_cidr x s \<longleftrightarrow> (\<exists>n. parseCIDR s = Some n \<and> IPNet_Contains n x)"
  by (simp add: in_cidr_def split: option.split)

lemma MatchAll_IPs:
  assumes "cidr_loop InvalidIP IPRule ss = Inr ms"
  shows "MatchAll (group ms) q \<longleftrightarrow> ss = [] \<or> (\<exists>s\<in>set ss. in_cidr (q_ClientIP q) s)"
  using cidr_loop_set [OF assms, of "\<lambda>m. Match m q"]
  by (simp add: MatchAll_group in_cidr_iff)

lemma MatchAll_ClientIPs:
  assumes "cidr_loop InvalidClientIP ClientIPRule ss = Inr ms"
  shows "MatchAll (group ms) q
    \<longleftrightarrow> ss = [] \<or> q_ClientIP q \<noteq> [] \<and> (\<exists>s\<in>set ss. in_cidr (q_ClientIP q) s)"
  using cidr_loop_set [OF assms, of "\<lambda>m. Match m q"]
  by (cases "q_ClientIP q = []") (simp_all add: MatchAll_group in_cidr_iff)

lemma BuildMatchers_sound:
  assumes "BuildMatchers compile resolver rule = Inr ms"
  shows "MatchAll ms q = rule_matches compile resolver rule q"
proof -
  obtain regs ips cips where regs: "regex_loop compile (ru_DomainRegex rule) = Inr regs"
    and ips: "cidr_loop InvalidIP IPRule (ru_IP rule) = Inr ips"
    and cips: "cidr_loop InvalidClientIP ClientIPRule (ru_ClientIP rule) = Inr cips"
    and ms: "ms = group ((domain_loop resolver False (ru_Domain rule)
            @ domain_loop resolver True (ru_DomainSuffix rule)) @ regs)
          @ group ips @ group (map QueryTypeRule (ru_QueryType rule)) @ group cips"
    using assms by (rule BuildMatchers_Inr)
  have q: "MatchAll (group (map QueryTypeRule ts)) q \<longleftrightarrow> ts = [] \<or> q_QType q \<in> set ts" for ts
    unfolding MatchAll_group by auto
  show ?thesis
    unfolding ms rule_matches_def Let_def MatchAll_append MatchAll_domains [OF regs]
      MatchAll_IPs [OF ips] MatchAll_ClientIPs [OF cips] q by blast
qed

section \<open>Routing\<close>

lemma compile_rules_Inr:
  "compile_rules compile resolver i rules = Inr mss \<Longrightarrow>
   list_all2 (\<lambda>rule ms. BuildMatchers compile resolver rule = Inr ms) rules mss"
proof (induction rules arbitrary: i mss)
  case (Cons rule rules)
  from Cons.prems obtain ms mss' where "BuildMatchers compile resolver rule = Inr ms"
    "compile_rules compile resolver (Suc i) rules = Inr mss'" "mss = ms # mss'"
    by (cases "compile_rules compile resolver (Suc i) rules") (auto split: sum.splits)
  with Cons.IH show ?case by simp
qed simp

lemma route_loop_find:
  assumes "list_all2 (\<lambda>rule ms. \<forall>q. MatchAll ms q = P rule q) rules mss"
  shows "route_loop (pre @ mss) (length pre) q rules = find (\<lambda>rule. P rule q) rules"
  using assms
proof (induction rules arbitrary: mss pre)
  case (Cons rule rules)
  from Cons.prems obtain ms mss' where mss: "mss = ms # mss'" "\<forall>q. MatchAll ms q = P rule q"
    "list_all2 (\<lambda>rule ms. \<forall>q. MatchAll ms q = P rule q) rules mss'"
    by (auto simp: list_all2_Cons1)
  from Cons.IH [OF mss(3), of "pre @ [ms]"] mss(1,2) show ?case by (simp add: nth_append)
qed simp

text \<open>
  The rules and the matchers of a router agree: every rule has the matchers built from it, all
  with the same resolver.
\<close>

definition router_wf :: "regex_compiler \<Rightarrow> router \<Rightarrow> bool" where
  "router_wf compile r \<longleftrightarrow> (\<exists>resolver. list_all2
     (\<lambda>rule ms. BuildMatchers compile resolver rule = Inr ms) (rt_rules r) (rt_matchers r))"

lemma route_loop_built:
  assumes "list_all2 (\<lambda>rule ms. BuildMatchers compile resolver rule = Inr ms) rules mss"
  shows "route_loop mss 0 q rules = find (\<lambda>rule. rule_matches compile resolver rule q) rules"
proof -
  have "list_all2 (\<lambda>rule ms. \<forall>q. MatchAll ms q = rule_matches compile resolver rule q) rules mss"
    using assms by (rule list_all2_mono) (simp add: BuildMatchers_sound)
  from route_loop_find [OF this, of "[]"] show ?thesis by simp
qed

datatype router_op =
    Op_UpdateRules "dns_rule list"
  | Op_Resolver "geosite_resolver option"
  | Op_Reload "module_config option"

fun router_step :: "regex_compiler \<Rightarrow> router \<Rightarrow> router_op \<Rightarrow> router" where
  "router_step compile r (Op_UpdateRules rules) = snd (UpdateRules compile rules r)"
| "router_step compile r (Op_Resolver resolver) = SetGeositeResolver resolver r"
| "router_step compile r (Op_Reload cfg) = snd (Router_Reload compile cfg r)"

lemma router_wf_UpdateRules:
  "router_wf compile r \<Longrightarrow> router_wf compile (snd (UpdateRules compile rules r))"
  by (auto simp: UpdateRules_def router_wf_def split: sum.splits dest: compile_rules_Inr)

lemma router_wf_maps [simp]:
  "router_wf compile (r\<lparr>rt_upstreamMap := a, rt_upstreamProxyTag := b\<rparr>) = router_wf compile r"
  "router_wf compile (r\<lparr>rt_geositeResolver := x\<rparr>) = router_wf compile r"
  by (simp_all add: router_wf_def)

interpretation router: machine "router_step compile" "router_wf compile" for compile
proof
  fix r op
  assume "router_wf compile r"
  then show "router_wf compile (router_step compile r op)"
    by (cases op) (auto simp: SetGeositeResolver_def Router_Reload_def router_wf_UpdateRules
        split: option.split)
qed

lemma NewRouter_Inr:
  assumes "NewRouter compile rules ups dflt = Inr r"
  shows "list_all2 (\<lambda>rule ms. BuildMatchers compile None rule = Inr ms) rules (rt_matchers r)"
    and "rt_rules r = rules" and "rt_defaultUpstream r = dflt"
    and "rt_upstreamMap r = fst (load_upstreams ups)"
    and "rt_upstreamProxyTag r = snd (load_upstreams ups)"
  using assms
  by (auto simp: NewRouter_def UpdateRules_def split: sum.splits dest: compile_rules_Inr)

text \<open>The last upstream with an id decides its address, the last with a tag decides the tag.\<close>

definition upstream_addr :: "upstream_config list \<Rightarrow> string \<Rightarrow> string" where
  "upstream_addr ups i =
     (case find (\<lambda>u. uc_ID u = i \<and> i \<noteq> []) (rev ups) of None \<Rightarrow> [] | Some u \<Rightarrow> uc_Addr u)"

definition upstream_tag :: "upstream_config list \<Rightarrow> string \<Rightarrow> string" where
  "upstream_tag ups i =
     (case find (\<lambda>u. uc_ID u = i \<and> i \<noteq> [] \<and> uc_ProxyTag u \<noteq> []) (rev ups) of
        None \<Rightarrow> [] | Some u \<Rightarrow> uc_ProxyTag u)"

lemma load_upstreams_get:
  "map_get (fst (load_upstreams ups)) i = upstream_addr ups i
   \<and> map_get (snd (load_upstreams ups)) i = upstream_tag ups i"
proof (induction ups rule: rev_induct)
  case Nil
  then show ?case by (simp add: load_upstreams_def map_get_def upstream_addr_def upstream_tag_def)
next
  case (snoc u ups)
  then show ?case
    by (auto simp: load_upstreams_def map_get_def upstream_addr_def upstream_tag_def split: prod.split)
qed

definition or_default :: "string \<Rightarrow> string \<Rightarrow> string" where
  "or_default s d = (if s = [] then d else s)"

text \<open>The documented routing decision.\<close>

definition route_decision ::
  "upstream_config list \<Rightarrow> string \<Rightarrow> dns_rule option \<Rightarrow> route_result" where
  "route_decision ups dflt found =
     (case found of
        Some rule \<Rightarrow>
          \<lparr>rr_UpstreamID = ru_Upstream rule, rr_UpstreamAddr = upstream_addr ups (ru_Upstream rule),
           rr_Action = or_default (ru_Action rule) ''route'', rr_RuleID = ru_ID rule,
           rr_Policy = or_default (ru_Policy rule) ''single'',
           rr_ProxyTag = upstream_tag ups (ru_Upstream rule)\<rparr>
      | None \<Rightarrow>
          \<lparr>rr_UpstreamID = dflt, rr_UpstreamAddr = upstream_addr ups dflt, rr_Action = ''route'',
           rr_RuleID = [], rr_Policy = ''single'', rr_ProxyTag = upstream_tag ups dflt\<rparr>)"


text \<open>
  (C28) A new router answers a query with the first rule that matches it, in the order of the
  configuration, with the defaults for an empty action and policy; the address and the proxy tag
  are those of the upstream the rule names. Without a match it is the default upstream.
\<close>

theorem route_first_match:
  assumes "NewRouter compile rules ups dflt = Inr r"
  shows "Route r q
    = route_decision ups dflt (find (\<lambda>rule. rule_matches compile None rule q) rules)"
  unfolding Route_def NewRouter_Inr(2-) [OF assms] route_loop_built [OF NewRouter_Inr(1) [OF assms]]
  by (simp add: load_upstreams_get route_decision_def or_default_def split: option.split)

text \<open>
  After a successful reload routing follows the new rules, expanded with the current
  resolver, and the new upstreams; the default upstream stays the one of the old configuration.
\<close>

theorem route_after_reload:
  assumes "Router_Reload compile (Some cfg) r = (None, r')"
  shows "Route r' q
    = route_decision (mc_Upstreams cfg) (rt_defaultUpstream r)
        (find (\<lambda>rule. rule_matches compile (rt_geositeResolver r) rule q)
          (map rule_of_config (mc_Rules cfg)))"
proof -
  from assms have r': "list_all2 (\<lambda>rule ms. BuildMatchers compile (rt_geositeResolver r) rule = Inr ms)
      (map rule_of_config (mc_Rules cfg)) (rt_matchers r')"
    "rt_rules r' = map rule_of_config (mc_Rules cfg)" "rt_defaultUpstream r' = rt_defaultUpstream r"
    "rt_upstreamMap r' = fst (load_upstreams (mc_Upstreams cfg))"
    "rt_upstreamProxyTag r' = snd (load_upstreams (mc_Upstreams cfg))"
    by (auto simp: Router_Reload_def UpdateRules_def split: sum.splits dest: compile_rules_Inr)
  show ?thesis
    unfolding Route_def r'(2-) route_loop_built [OF r'(1)]
    by (simp add: load_upstreams_get route_decision_def or_default_def split: option.split)
qed

text \<open>
  A reload with a rule that does not compile keeps the old rules and matchers, but the
  address of every upstream is already the one of the new configuration.
\<close>

theorem reload_failure_keeps_rules:
  assumes "Router_Reload compile (Some cfg) r = (Some e, r')"
  shows "rt_rules r' = rt_rules r \<and> rt_matchers r' = rt_matchers r
    \<and> map_get (rt_upstreamMap r') i = upstream_addr (mc_Upstreams cfg) i"
  using assms load_upstreams_get
  by (auto simp: Router_Reload_def UpdateRules_def split: sum.splits)

text \<open>First match over a whole history.\<close>

text \<open>
  (C27) Over any sequence of rule updates, reloads and resolver changes, failed ones included,
  a query is decided by the first match among the listed rules, all read with one resolver.
\<close>

theorem router_history:
  assumes "NewRouter compile rules ups dflt = Inr r0"
    and "r = foldl (router_step compile) r0 ops"
  shows "\<exists>resolver. \<forall>q. route_loop (rt_matchers r) 0 q (rt_rules r)
    = find (\<lambda>rule. rule_matches compile resolver rule q) (ListRules r)"
proof -
  have "router_wf compile r0"
    unfolding router_wf_def NewRouter_Inr(2) [OF assms(1)] using NewRouter_Inr(1) [OF assms(1)] by blast
  then have "router_wf compile r" unfolding assms(2) by (rule router.run_inv)
  then obtain resolver where "list_all2 (\<lambda>rule ms. BuildMatchers compile resolver rule = Inr ms)
      (rt_rules r) (rt_matchers r)" by (auto simp: router_wf_def)
  from route_loop_built [OF this] show ?thesis unfolding ListRules_def by blast
qed

text \<open>
  A rule whose only conditions are geosite tags has no matcher while no resolver is set,
  and so matches every query.
\<close>

theorem unresolved_tag_matches_all:
  assumes "\<forall>d\<in>set (ru_Domain rule @ ru_DomainSuffix rule). prefix ''geosite:'' d"
    and "ru_DomainRegex rule = []" and "ru_IP rule = []" and "ru_QueryType rule = []"
    and "ru_ClientIP rule = []"
  shows "BuildMatchers compile None rule = Inr [] \<and> MatchAll [] q"
proof -
  have "domain_loop None b ds = []" if "\<forall>d\<in>set ds. prefix ''geosite:'' d" for b ds
    using that by (induction ds) (auto simp: expand_tag_def)
  with assms show ?thesis by (simp add: BuildMatchers_def group_def MatchAll_def)
qed

section \<open>Address ranges\<close>

lemma To4_mapped: "length x = 4 \<Longrightarrow> To4 (v4InV6Prefix @ x) = x"
  by (simp add: To4_def v4InV6Prefix_def)

lemma length_CIDRMask [simp]: "length (CIDRMask n l) = l"
  by (induction n l rule: CIDRMask.induct) simp_all

lemma ParseCIDR_v4:
  assumes "ParseAddr a = Some (b, [])" and "length b = 4" and "CHR ''/'' \<notin> set a"
    and "dec_nat m = Some n" and "n \<le> 32"
  shows "ParseCIDR (a @ ''/'' @ m)
    = Some \<lparr>net_IP = map2 (AND) b (CIDRMask n 4), net_Mask = CIDRMask n 4\<rparr>"
proof -
  have "takeWhile (\<lambda>c. c \<noteq> CHR ''/'') (a @ ''/'' @ m) = a"
    using takeWhile_neq_append [OF assms(3), of m] by simp
  with assms show ?thesis
    by (simp add: ParseCIDR_def Let_def IP_Mask_def To16_def v4InV6Prefix_def)
qed

lemma networkNumberAndMask_v4:
  assumes "length nn = 4" and "length m = 4"
  shows "networkNumberAndMask \<lparr>net_IP = nn, net_Mask = m\<rparr> = (nn, m)"
proof -
  have "To4 nn = nn" using assms(1) by (simp add: To4_def)
  with assms show ?thesis by (auto simp: networkNumberAndMask_def Let_def)
qed

lemma IPNet_Contains_v4:
  assumes "length b = 4" and "n \<le> 32"
  shows "IPNet_Contains \<lparr>net_IP = map2 (AND) b (CIDRMask n 4), net_Mask = CIDRMask n 4\<rparr> x
    \<longleftrightarrow> length (To4 x) = 4 \<and> take n (ip_bits (To4 x)) = take n (ip_bits b)"
proof -
  let ?nn = "map2 (AND) b (CIDRMask n 4)"
  have len: "length ?nn = 4" using assms(1) by simp
  have "map2 (AND) ?nn (CIDRMask n 4) = ?nn"
    by (auto simp: zip_map1 and.assoc intro!: nth_equalityI)
  moreover have "networkNumberAndMask \<lparr>net_IP = ?nn, net_Mask = CIDRMask n 4\<rparr> = (?nn, CIDRMask n 4)"
    using len by (intro networkNumberAndMask_v4) simp_all
  ultimately have "IPNet_Contains \<lparr>net_IP = ?nn, net_Mask = CIDRMask n 4\<rparr> x
      \<longleftrightarrow> (let x' = (if To4 x \<noteq> [] then To4 x else x) in
           length x' = 4 \<and> map2 (AND) b (CIDRMask n 4) = map2 (AND) x' (CIDRMask n 4))"
    using len by (simp add: IPNet_Contains_def)
  also have "\<dots> \<longleftrightarrow> length (To4 x) = 4 \<and> take n (ip_bits (To4 x)) = take n (ip_bits b)"
  proof (cases "To4 x = []")
    case True
    then have "length x \<noteq> 4" by (auto simp: To4_def)
    with True show ?thesis by simp
  next
    case False
    then have "length (To4 x) = 4" by (auto simp: To4_def split: if_splits)
    with False assms masked_eq_iff [of b 4 "To4 x" n] show ?thesis by auto
  qed
  finally show ?thesis .
qed

text \<open>
  An IPv4 range of a rule parses, and the rule matches exactly the addresses whose first
  \<open>n\<close> bits are those of the range, in the four-byte or the mapped sixteen-byte form.
\<close>

theorem cidr_rule_v4:
  assumes "ParseAddr a = Some (b, [])" and "length b = 4" and "CHR ''/'' \<notin> set a"
    and "dec_nat m = Some n" and "n \<le> 32"
  shows "\<exists>net. parseCIDR (a @ ''/'' @ m) = Some net
    \<and> (\<forall>q. Match (IPRule (Some net)) q
         \<longleftrightarrow> length (To4 (q_ClientIP q)) = 4
           \<and> take n (ip_bits (To4 (q_ClientIP q))) = take n (ip_bits b))"
  using ParseCIDR_v4 [OF assms] IPNet_Contains_v4 [OF assms(2,5)]
  by (simp add: parseCIDR_def)

section \<open>A concrete rule set\<close>

definition sample_rule :: dns_rule where
  "sample_rule = \<lparr>ru_ID = ''ads'', ru_Domain = [], ru_DomainSuffix = [''ads.example''],
     ru_DomainRegex = [], ru_IP = [], ru_QueryType = [TypeA, TypeAAAA], ru_ClientIP = [],
     ru_Upstream = ''u1'', ru_Action = ''reject'', ru_Policy = []\<rparr>"

definition sample_upstream :: upstream_config where
  "sample_upstream = \<lparr>uc_ID = ''u1'', uc_Addr = ''1.1.1.1:53'', uc_Protocol = ''udp'',
     uc_ProxyTag = ''direct'', uc_Bootstrap = False, uc_ServerName = []\<rparr>"

definition sample_query :: dns_query where
  "sample_query = \<lparr>q_Name = ''x.ads.example.'', q_QType = TypeA, q_QClass = 1,
     q_ClientIP = [192, 168, 1, 7], q_IsBootstrap = False\<rparr>"

definition sample_router :: router where
  "sample_router = \<lparr>rt_rules = [sample_rule],
     rt_matchers = [[DomainRule ''ads.example'' True False None,
       OrMatcher [QueryTypeRule TypeA, QueryTypeRule TypeAAAA]]],
     rt_upstreamMap = [''u1'' \<mapsto> ''1.1.1.1:53''], rt_upstreamProxyTag = [''u1'' \<mapsto> ''direct''],
     rt_defaultUpstream = ''u1'', rt_geositeResolver = None\<rparr>"

lemma sample_matchers:
  "BuildMatchers compile resolver sample_rule = Inr [DomainRule ''ads.example'' True False None,
     OrMatcher [QueryTypeRule TypeA, QueryTypeRule TypeAAAA]]"
  by (simp add: BuildMatchers_def group_def sample_rule_def)

lemma sample_new_router:
  "NewRouter compile [sample_rule] [sample_upstream] ''u1'' = Inr sample_router"
  by (simp add: NewRouter_def UpdateRules_def sample_matchers sample_router_def load_upstreams_def
      sample_upstream_def)

lemma sample_rule_hits: "rule_matches compile None sample_rule sample_query"
  by (simp add: BuildMatchers_sound [OF sample_matchers, symmetric] MatchAll_def DomainRule_Match_def
      sample_query_def TrimSuffix_def suffix_def Let_def)


theorem route_first_match_witness:
  "rr_Action (Route sample_router sample_query) = ''reject''"
  using route_first_match [OF sample_new_router, of sample_query "\<lambda>_. None"]
    sample_rule_hits [of "\<lambda>_. None"]
  by (simp add: route_decision_def or_default_def) (simp add: sample_rule_def)


definition sample_reload :: "string list \<Rightarrow> module_config" where
  "sample_reload patterns = DefaultDnsModuleConfig\<lparr>
     mc_Upstreams := [sample_upstream\<lparr>uc_Addr := ''9.9.9.9:53''\<rparr>],
     mc_Rules := [\<lparr>rc_ID = ''ads'', rc_Domain = [], rc_DomainSuffix = [''ads.example''],
       rc_DomainRegex = patterns, rc_IP = [], rc_QueryType = [TypeA, TypeAAAA], rc_ClientIP = [],
       rc_Upstream = ''u1'', rc_Action = [], rc_Policy = []\<rparr>]\<rparr>"

lemma sample_reload_ok:
  "Router_Reload (\<lambda>_. None) (Some (sample_reload [])) sample_router
   = (None, snd (Router_Reload (\<lambda>_. None) (Some (sample_reload [])) sample_router))"
  by (simp add: Router_Reload_def UpdateRules_def sample_reload_def rule_of_config_def
      sample_router_def BuildMatchers_def)

lemma sample_reload_fails:
  "Router_Reload (\<lambda>_. None) (Some (sample_reload [''('']) ) sample_router
   = (Some (RuleError 0 ''ads'' (InvalidRegex ''('')),
      snd (Router_Reload (\<lambda>_. None) (Some (sample_reload [''('']) ) sample_router))"
  by (simp add: Router_Reload_def UpdateRules_def sample_reload_def rule_of_config_def
      sample_router_def BuildMatchers_def)

theorem route_after_reload_witness:
  "Route (snd (Router_Reload (\<lambda>_. None) (Some (sample_reload [])) sample_router)) sample_query
   = route_decision (mc_Upstreams (sample_reload [])) ''u1''
       (find (\<lambda>rule. rule_matches (\<lambda>_. None) None rule sample_query)
         (map rule_of_config (mc_Rules (sample_reload []))))"
  using route_after_reload [OF sample_reload_ok, of sample_query]
  by (simp add: sample_router_def)

theorem reload_failure_keeps_rules_witness:
  "rt_rules (snd (Router_Reload (\<lambda>_. None) (Some (sample_reload [''(''])) sample_router)) = [sample_rule]
   \<and> map_get (rt_upstreamMap (snd (Router_Reload (\<lambda>_. None) (Some (sample_reload [''('']))
       sample_router))) ''u1'' = ''9.9.9.9:53''"
  using reload_failure_keeps_rules [OF sample_reload_fails, of "''u1''"]
  by (simp add: sample_router_def upstream_addr_def sample_reload_def sample_upstream_def)

theorem router_history_witness:
  "\<exists>resolver. \<forall>q. route_loop (rt_matchers (foldl (router_step (\<lambda>_. None)) sample_router
       [Op_Resolver None, Op_Reload (Some (sample_reload []))])) 0 q
     (rt_rules (foldl (router_step (\<lambda>_. None)) sample_router
       [Op_Resolver None, Op_Reload (Some (sample_reload []))]))
   = find (\<lambda>rule. rule_matches (\<lambda>_. None) resolver rule q)
       (ListRules (foldl (router_step (\<lambda>_. None)) sample_router
         [Op_Resolver None, Op_Reload (Some (sample_reload []))]))"
  by (rule router_history [OF sample_new_router refl])

theorem unresolved_tag_matches_all_witness:
  "BuildMatchers (\<lambda>_. None) None (sample_rule\<lparr>ru_Domain := [''geosite:cn''],
     ru_DomainSuffix := [], ru_QueryType := []\<rparr>) = Inr [] \<and> MatchAll [] sample_query"
  by (rule unresolved_tag_matches_all) (simp_all add: sample_rule_def)

theorem cidr_rule_v4_witness:
  "\<exists>net. parseCIDR (''192.168.0.0'' @ ''/'' @ ''16'') = Some net
    \<and> (\<forall>q. Match (IPRule (Some net)) q
         \<longleftrightarrow> length (To4 (q_ClientIP q)) = 4
           \<and> take 16 (ip_bits (To4 (q_ClientIP q))) = take 16 (ip_bits [192, 168, 0, 0]))"
  by (rule cidr_rule_v4) (simp_all add: parse_simps)

end
