(* ===== verification/Dns_Message.thy ===== *)
theory Dns_Message
  imports Dns_Types
begin

text \<open>
  Messages: validation of upstream answers (\<open>core/dns/validator.go\<close>), the loop token
  (\<open>core/dns/loop.go\<close>) and the response builder (\<open>core/dns/response.go\<close>). Operations of
  \<open>miekg/dns\<close> are the fields of the parameter \<open>lib\<close>. A nil message is \<open>None\<close>.
\<close>

section \<open>Validation\<close>

datatype section_name = SecAnswer | SecAuthority | SecAdditional

datatype validate_error =
    NilMessage
  | NotResponse
  | NoQuestion
  | EmptyQuestionName
  | ZeroQType
  | ZeroQClass
  | BadRcode int
  | NilRecord section_name nat
  | ZeroType section_name nat
  | EmptyRecordName nat
  | NoAnswers
  | NameMismatch string string
  | TypeMismatch u16 u16

definition validateRcode :: "int \<Rightarrow> validate_error option" where
  "validateRcode rcode =
     (if 0 \<le> rcode \<and> rcode \<le> 10 \<or> 16 \<le> rcode \<and> rcode \<le> 23 then None
      else if rcode < 0 \<or> rcode > 0xFFF then Some (BadRcode rcode) else None)"

fun check_answers :: "nat \<Rightarrow> rr list \<Rightarrow> validate_error option" where
  "check_answers i [] = None"
| "check_answers i (r # rs) =
     (if r = NilRR then Some (NilRecord SecAnswer i)
      else if rrtype r = 0 then Some (ZeroType SecAnswer i)
      else if h_Name (Header r) = [] then Some (EmptyRecordName i)
      else check_answers (Suc i) rs)"

fun check_authority :: "nat \<Rightarrow> rr list \<Rightarrow> validate_error option" where
  "check_authority i [] = None"
| "check_authority i (r # rs) =
     (if r = NilRR then Some (NilRecord SecAuthority i)
      else if rrtype r = 0 then Some (ZeroType SecAuthority i)
      else check_authority (Suc i) rs)"

fun check_additional :: "nat \<Rightarrow> rr list \<Rightarrow> validate_error option" where
  "check_additional i [] = None"
| "check_additional i (r # rs) =
     (if r = NilRR then Some (NilRecord SecAdditional i)
      else if rrtype r = TypeOPT then check_additional (Suc i) rs
      else if rrtype r = 0 then Some (ZeroType SecAdditional i)
      else check_additional (Suc i) rs)"

definition ValidateResponse :: "dns_msg option \<Rightarrow> validate_error option" where
  "ValidateResponse msg =
     (case msg of
        None \<Rightarrow> Some NilMessage
      | Some m \<Rightarrow>
          if \<not> m_Response m then Some NotResponse
          else case m_Question m of
            [] \<Rightarrow> Some NoQuestion
          | q # _ \<Rightarrow>
              if qn_Name q = [] then Some EmptyQuestionName
              else if qn_Qtype q = 0 then Some ZeroQType
              else if qn_Qclass q = 0 then Some ZeroQClass
              else case validateRcode (m_Rcode m) of
                Some e \<Rightarrow> Some e
              | None \<Rightarrow>
                  (case check_answers 0 (m_Answer m) of
                     Some e \<Rightarrow> Some e
                   | None \<Rightarrow>
                       (case check_authority 0 (m_Ns m) of
                          Some e \<Rightarrow> Some e
                        | None \<Rightarrow> check_additional 0 (m_Extra m))))"

definition ValidateAnswerCount :: "dns_msg option \<Rightarrow> validate_error option" where
  "ValidateAnswerCount msg =
     (case msg of
        None \<Rightarrow> Some NilMessage
      | Some m \<Rightarrow> if m_Rcode m = RcodeSuccess \<and> m_Answer m = [] then Some NoAnswers else None)"

definition ValidateQuestionMatch ::
  "dns_lib \<Rightarrow> dns_msg option \<Rightarrow> string \<Rightarrow> query_type \<Rightarrow> validate_error option" where
  "ValidateQuestionMatch lib msg expectedName expectedQType =
     (case msg of
        None \<Rightarrow> Some NilMessage
      | Some m \<Rightarrow>
          (case m_Question m of
             [] \<Rightarrow> Some NoQuestion
           | q # _ \<Rightarrow>
               if qn_Name q \<noteq> lib_Fqdn lib expectedName
               then Some (NameMismatch (qn_Name q) (lib_Fqdn lib expectedName))
               else if qn_Qtype q \<noteq> expectedQType then Some (TypeMismatch (qn_Qtype q) expectedQType)
               else None))"

section \<open>The loop token\<close>

definition loopOptionCode :: u16 where "loopOptionCode = 65042"

text \<open>The token of a process: eight random bytes, or the fixed ones where the source of randomness fails.\<close>

definition loopToken :: "byte list option \<Rightarrow> byte list" where
  "loopToken random =
     (case random of
        Some b \<Rightarrow> b
      | None \<Rightarrow> map (\<lambda>c. word_of_nat (of_char c)) ''v2rayadn'')"

text \<open>
  \<open>IsEdns0\<close> returns a pointer to the OPT record of the message, here its position in \<open>Extra\<close>.
  Writing through the pointer replaces the record at that position.
\<close>

fun opt_options :: "rr \<Rightarrow> edns0 list" where
  "opt_options (RR h (RD_OPT os)) = os"
| "opt_options r = []"

fun set_options :: "edns0 list \<Rightarrow> rr \<Rightarrow> rr" where
  "set_options os (RR h (RD_OPT _)) = RR h (RD_OPT os)"
| "set_options os r = r"

definition update_extra :: "nat \<Rightarrow> (rr \<Rightarrow> rr) \<Rightarrow> dns_msg \<Rightarrow> dns_msg" where
  "update_extra i f m = m\<lparr>m_Extra := (m_Extra m)[i := f (m_Extra m ! i)]\<rparr>"

fun is_loop_option :: "edns0 \<Rightarrow> bool" where
  "is_loop_option (EDNS0_LOCAL code _) = (code = loopOptionCode)"
| "is_loop_option _ = False"

fun put_token :: "byte list \<Rightarrow> edns0 list \<Rightarrow> edns0 list" where
  "put_token token [] = [EDNS0_LOCAL loopOptionCode token]"
| "put_token token (x # os) =
     (if is_loop_option x then EDNS0_LOCAL loopOptionCode token # os
      else x # put_token token os)"

definition markOutgoing :: "dns_lib \<Rightarrow> byte list \<Rightarrow> dns_msg \<Rightarrow> dns_msg" where
  "markOutgoing lib token msg =
     (let m = (case lib_IsEdns0 lib msg of
                 Some _ \<Rightarrow> msg
               | None \<Rightarrow> lib_SetEdns0 lib msg 4096 False)
      in case lib_IsEdns0 lib m of
           None \<Rightarrow> m
         | Some i \<Rightarrow> update_extra i (\<lambda>r. set_options (put_token token (opt_options r)) r) m)"

fun same_token :: "byte list \<Rightarrow> edns0 \<Rightarrow> bool" where
  "same_token token (EDNS0_LOCAL code d) =
     (if code \<noteq> loopOptionCode \<or> length d \<noteq> length token then False
      else list_all (\<lambda>i. d ! i = token ! i) [0..<length token])"
| "same_token token _ = False"

definition carriesOwnToken :: "dns_lib \<Rightarrow> byte list \<Rightarrow> dns_msg option \<Rightarrow> bool" where
  "carriesOwnToken lib token msg =
     (case msg of
        None \<Rightarrow> False
      | Some m \<Rightarrow>
          (case lib_IsEdns0 lib m of
             None \<Rightarrow> False
           | Some i \<Rightarrow> list_ex (same_token token) (opt_options (m_Extra m ! i))))"

text \<open>
  The rate limit of the loop log: the time of the last line, zero before the first, and the
  number of loops seen. The result says whether a line is written.
\<close>

record loop_log =
  ll_LastLog :: time
  ll_Suppressed :: int

definition loopLogInterval :: duration where "loopLogInterval = 10 * second"

definition loopDetected :: "time \<Rightarrow> loop_log \<Rightarrow> bool \<times> loop_log" where
  "loopDetected now st =
     (let st1 = st\<lparr>ll_Suppressed := ll_Suppressed st + 1\<rparr> in
      if ll_LastLog st1 \<noteq> 0 \<and> now - ll_LastLog st1 < loopLogInterval then (False, st1)
      else (True, st1\<lparr>ll_LastLog := now\<rparr>))"

section \<open>The response builder\<close>

record response_builder =
  rb_EnableDNS64 :: bool
  rb_DNS64Prefix :: ip

definition NewResponseBuilder :: response_builder where
  "NewResponseBuilder = \<lparr>rb_EnableDNS64 = False, rb_DNS64Prefix = []\<rparr>"

definition a_records :: "rr list \<Rightarrow> (rr_hdr \<times> ip) list" where
  "a_records rs = List.map_filter (\<lambda>r. case r of RR h (RD_A a) \<Rightarrow> Some (h, a) | _ \<Rightarrow> None) rs"

definition synth_aaaa :: "ip \<Rightarrow> rr_hdr \<times> ip \<Rightarrow> rr option" where
  "synth_aaaa pre ha =
     (case ha of
        (h, a) \<Rightarrow>
          if To4 a = [] then None
          else Some (RR \<lparr>h_Name = h_Name h, h_Rrtype = TypeAAAA, h_Class = h_Class h, h_Ttl = h_Ttl h\<rparr>
                       (RD_AAAA (take 12 pre @ To4 a))))"

definition synthesizeDNS64 :: "response_builder \<Rightarrow> dns_msg \<Rightarrow> dns_msg" where
  "synthesizeDNS64 b m =
     (if \<not> rb_EnableDNS64 b \<or> rb_DNS64Prefix b = [] then m
      else if list_ex (\<lambda>r. rrtype r = TypeAAAA) (m_Answer m) then m
      else if a_records (m_Answer m) = [] then m
      else if To16 (rb_DNS64Prefix b) = [] then m
      else m\<lparr>m_Answer := m_Answer m
               @ List.map_filter (synth_aaaa (To16 (rb_DNS64Prefix b))) (a_records (m_Answer m))\<rparr>)"

text \<open>\<open>BuildResponse\<close> dereferences the raw message: \<open>None\<close> is the panic on a response without one.\<close>

definition BuildResponse ::
  "dns_lib \<Rightarrow> response_builder \<Rightarrow> dns_query \<Rightarrow> dns_response \<Rightarrow> dns_msg option" where
  "BuildResponse lib b query upstreamResp =
     (case dr_RawMsg upstreamResp of
        None \<Rightarrow> None
      | Some raw \<Rightarrow>
          (let m0 = lib_SetReply lib new_msg raw;
               m1 = m0\<lparr>m_Question := [\<lparr>qn_Name = lib_Fqdn lib (q_Name query),
                        qn_Qtype = q_QType query, qn_Qclass = q_QClass query\<rparr>],
                      m_Response := True, m_Rcode := dr_Rcode upstreamResp,
                      m_RecursionAvailable := m_RecursionAvailable raw,
                      m_Authoritative := m_Authoritative raw,
                      m_AuthenticatedData := m_AuthenticatedData raw,
                      m_CheckingDisabled := m_CheckingDisabled raw\<rparr>;
               m2 = (if dr_Answer upstreamResp \<noteq> [] then m1\<lparr>m_Answer := dr_Answer upstreamResp\<rparr> else m1);
               m3 = (if dr_Authority upstreamResp \<noteq> [] then m2\<lparr>m_Ns := dr_Authority upstreamResp\<rparr> else m2);
               m4 = (if dr_Additional upstreamResp \<noteq> [] then m3\<lparr>m_Extra := dr_Additional upstreamResp\<rparr> else m3);
               m5 = m4\<lparr>m_Compress := True\<rparr>
           in Some (if rb_EnableDNS64 b \<and> m_Rcode m5 = RcodeSuccess then synthesizeDNS64 b m5 else m5)))"

definition build_rcode :: "dns_lib \<Rightarrow> dns_query \<Rightarrow> int \<Rightarrow> dns_msg" where
  "build_rcode lib query rcode =
     (lib_SetQuestion lib new_msg (lib_Fqdn lib (q_Name query)) (q_QType query))
       \<lparr>m_Response := True, m_Rcode := rcode, m_RecursionAvailable := True, m_Compress := True\<rparr>"

definition BuildRefused :: "dns_lib \<Rightarrow> dns_query \<Rightarrow> dns_msg" where
  "BuildRefused lib query = build_rcode lib query RcodeRefused"

definition BuildNXDOMAIN :: "dns_lib \<Rightarrow> dns_query \<Rightarrow> dns_msg" where
  "BuildNXDOMAIN lib query = build_rcode lib query RcodeNameError"

definition BuildServerFailure :: "dns_lib \<Rightarrow> dns_query \<Rightarrow> dns_msg" where
  "BuildServerFailure lib query = build_rcode lib query RcodeServerFailure"

definition SetTruncated :: "dns_msg \<Rightarrow> dns_msg" where
  "SetTruncated m = m\<lparr>m_Truncated := True\<rparr>"

definition IsTruncated :: "dns_msg \<Rightarrow> bool" where
  "IsTruncated m = m_Truncated m"

definition new_opt :: "u16 \<Rightarrow> edns0 list \<Rightarrow> rr" where
  "new_opt udpSize os = RR \<lparr>h_Name = ''.'', h_Rrtype = TypeOPT, h_Class = udpSize, h_Ttl = 0\<rparr> (RD_OPT os)"

definition AddEDNS0 :: "dns_lib \<Rightarrow> u16 \<Rightarrow> edns0 list \<Rightarrow> dns_msg \<Rightarrow> dns_msg" where
  "AddEDNS0 lib udpPayloadSize options m =
     (case lib_IsEdns0 lib m of
        Some i \<Rightarrow>
          update_extra i (\<lambda>r. (let r' = lib_SetUDPSize lib r udpPayloadSize
                              in set_options (opt_options r' @ options) r')) m
      | None \<Rightarrow> m\<lparr>m_Extra := m_Extra m @ [new_opt udpPayloadSize options]\<rparr>)"

definition ecs_option :: "ip \<Rightarrow> edns0" where
  "ecs_option clientIP =
     (if To4 clientIP \<noteq> [] then EDNS0_SUBNET 1 24 0 (To4 clientIP)
      else EDNS0_SUBNET 2 48 0 (To16 clientIP))"

definition AddECSSubnet :: "dns_lib \<Rightarrow> ip \<Rightarrow> dns_msg \<Rightarrow> dns_msg" where
  "AddECSSubnet lib clientIP m =
     (if clientIP = [] then m else AddEDNS0 lib 4096 [ecs_option clientIP] m)"

definition DefaultMsgSize :: u16 where "DefaultMsgSize = 4096"

definition SetDNSSEC :: "dns_lib \<Rightarrow> dns_msg \<Rightarrow> dns_msg" where
  "SetDNSSEC lib m =
     (case lib_IsEdns0 lib m of
        Some i \<Rightarrow> update_extra i (lib_SetDo lib) m
      | None \<Rightarrow> m\<lparr>m_Extra := m_Extra m @ [lib_SetDo lib (new_opt DefaultMsgSize [])]\<rparr>)"

definition zero_query :: dns_query where
  "zero_query = \<lparr>q_Name = [], q_QType = 0, q_QClass = 0, q_ClientIP = [], q_IsBootstrap = False\<rparr>"

definition ExtractRecords :: "dns_msg option \<Rightarrow> dns_response option" where
  "ExtractRecords msg =
     map_option (\<lambda>m. \<lparr>dr_Query = zero_query, dr_RawMsg = Some m, dr_Rcode = m_Rcode m,
       dr_Answer = m_Answer m, dr_Authority = m_Ns m, dr_Additional = m_Extra m,
       dr_TTL = min_ttl (m_Answer m), dr_Upstream = [], dr_ProxyTag = [], dr_RTT = 0,
       dr_Cached = False\<rparr>) msg"

definition ExtractQuestion :: "dns_lib \<Rightarrow> dns_msg option \<Rightarrow> validate_error + dns_query" where
  "ExtractQuestion lib msg =
     (case msg of
        None \<Rightarrow> Inl NilMessage
      | Some m \<Rightarrow>
          (case m_Question m of
             [] \<Rightarrow> Inl NoQuestion
           | q # _ \<Rightarrow>
               Inr \<lparr>q_Name = lib_Fqdn lib (qn_Name q), q_QType = qn_Qtype q, q_QClass = qn_Qclass q,
                    q_ClientIP = [], q_IsBootstrap = False\<rparr>))"

text \<open>\<open>dns.Id()\<close> draws the message id; it is an argument.\<close>

definition BuildResponseMsg :: "dns_lib \<Rightarrow> u16 \<Rightarrow> dns_query \<Rightarrow> rr list \<Rightarrow> int \<Rightarrow> dns_msg" where
  "BuildResponseMsg lib msgid query answer rcode =
     (let m = (lib_SetReply lib new_msg (new_msg\<lparr>m_Id := msgid, m_Question :=
                 [\<lparr>qn_Name = lib_Fqdn lib (q_Name query), qn_Qtype = q_QType query,
                   qn_Qclass = q_QClass query\<rparr>]\<rparr>))
               \<lparr>m_Response := True, m_Rcode := rcode, m_RecursionAvailable := True,
                m_Compress := True\<rparr>
      in if answer \<noteq> [] then m\<lparr>m_Answer := answer\<rparr> else m)"

definition handleTruncation :: "dns_lib \<Rightarrow> int \<Rightarrow> dns_msg \<Rightarrow> dns_msg" where
  "handleTruncation lib maxSize m =
     (if lib_Len lib m > maxSize
      then m\<lparr>m_Truncated := True, m_Answer := [], m_Ns := [], m_Extra := []\<rparr> else m)"

definition ResponseTime :: "time \<Rightarrow> time \<Rightarrow> duration \<Rightarrow> duration" where
  "ResponseTime now queryTime rtt = (if rtt > 0 then rtt else now - queryTime)"

end
