(* ===== verification/Dns_Message_Correct.thy ===== *)
theory Dns_Message_Correct
  imports Dns_Message
begin

text \<open>
  What holds of messages: acceptance of a response is exactly soundness, a marked query is
  recognised when it comes back, the loop log is rate limited, DNS64 synthesis adds exactly the
  embedded addresses. \<open>edns_laws\<close> names what is relied on of the message package, \<open>ref_lib\<close> is an
  instance of it.
\<close>

section \<open>What the message package is relied on for\<close>

fun is_opt :: "rr \<Rightarrow> bool" where
  "is_opt (RR h (RD_OPT os)) = (h_Rrtype h = TypeOPT)"
| "is_opt r = False"

text \<open>
  The documented behaviour of \<open>IsEdns0\<close> and \<open>SetEdns0\<close>: the first reports the OPT record of the
  message, nil where there is none, and finds it by the records' types; the second appends an OPT
  record without options, with the given payload size and DO bit.
\<close>

definition edns_laws :: "dns_lib \<Rightarrow> bool" where
  "edns_laws lib \<longleftrightarrow>
     (\<forall>m i. lib_IsEdns0 lib m = Some i \<longrightarrow> i < length (m_Extra m) \<and> is_opt (m_Extra m ! i))
     \<and> (\<forall>m. lib_IsEdns0 lib m = None \<longleftrightarrow> filter is_opt (m_Extra m) = [])
     \<and> (\<forall>m m'. map is_opt (m_Extra m) = map is_opt (m_Extra m') \<longrightarrow> lib_IsEdns0 lib m = lib_IsEdns0 lib m')
     \<and> (\<forall>m sz d. \<exists>h. h_Rrtype h = TypeOPT \<and> lib_UDPSize lib (RR h (RD_OPT [])) = sz
          \<and> lib_Do lib (RR h (RD_OPT [])) = d
          \<and> lib_SetEdns0 lib m sz d = m\<lparr>m_Extra := m_Extra m @ [RR h (RD_OPT [])]\<rparr>)"

lemma IsEdns0_Some:
  "edns_laws lib \<Longrightarrow> lib_IsEdns0 lib m = Some i \<Longrightarrow> i < length (m_Extra m) \<and> is_opt (m_Extra m ! i)"
  unfolding edns_laws_def by blast

lemma IsEdns0_None: "edns_laws lib \<Longrightarrow> lib_IsEdns0 lib m = None \<longleftrightarrow> filter is_opt (m_Extra m) = []"
  unfolding edns_laws_def by blast

lemma IsEdns0_cong:
  "edns_laws lib \<Longrightarrow> map is_opt (m_Extra m) = map is_opt (m_Extra m')
   \<Longrightarrow> lib_IsEdns0 lib m = lib_IsEdns0 lib m'"
  unfolding edns_laws_def by blast

lemma SetEdns0_obtain:
  assumes "edns_laws lib"
  obtains h where "h_Rrtype h = TypeOPT" "lib_UDPSize lib (RR h (RD_OPT [])) = sz"
    "lib_Do lib (RR h (RD_OPT [])) = d"
    "lib_SetEdns0 lib m sz d = m\<lparr>m_Extra := m_Extra m @ [RR h (RD_OPT [])]\<rparr>"
  using assms unfolding edns_laws_def by blast

text \<open>A package that behaves as documented, on the records of the model.\<close>

definition find_opt :: "rr list \<Rightarrow> nat option" where
  "find_opt rs = (if filter is_opt rs = [] then None
     else Some (last (filter (\<lambda>i. is_opt (rs ! i)) [0..<length rs])))"

definition ref_Fqdn :: "string \<Rightarrow> string" where
  "ref_Fqdn s = (if suffix ''.'' s then s else s @ ''.'')"

definition ref_lib :: dns_lib where
  "ref_lib = \<lparr>lib_Fqdn = ref_Fqdn,
     lib_SetQuestion = (\<lambda>m n t. m\<lparr>m_RecursionDesired := True,
       m_Question := [\<lparr>qn_Name = n, qn_Qtype = t, qn_Qclass = 1\<rparr>]\<rparr>),
     lib_SetReply = (\<lambda>m r. m\<lparr>m_Id := m_Id r, m_Response := True, m_Opcode := m_Opcode r,
       m_RecursionDesired := m_RecursionDesired r, m_CheckingDisabled := m_CheckingDisabled r,
       m_Rcode := 0, m_Question := take 1 (m_Question r)\<rparr>),
     lib_SetRcode = (\<lambda>m r c. m\<lparr>m_Id := m_Id r, m_Response := True, m_Opcode := m_Opcode r,
       m_RecursionDesired := m_RecursionDesired r, m_CheckingDisabled := m_CheckingDisabled r,
       m_Rcode := c, m_Question := take 1 (m_Question r)\<rparr>),
     lib_SetEdns0 = (\<lambda>m sz d. m\<lparr>m_Extra := m_Extra m @
       [RR \<lparr>h_Name = ''.'', h_Rrtype = TypeOPT, h_Class = sz, h_Ttl = (if d then 0x8000 else 0)\<rparr> (RD_OPT [])]\<rparr>),
     lib_IsEdns0 = (\<lambda>m. find_opt (m_Extra m)),
     lib_Do = (\<lambda>r. bit (ttl_of r) 15),
     lib_SetDo = (\<lambda>r. set_ttl (set_bit 15 (ttl_of r)) r),
     lib_UDPSize = (\<lambda>r. h_Class (Header r)),
     lib_SetUDPSize = (\<lambda>r sz. case r of RR h d \<Rightarrow> RR (h\<lparr>h_Class := sz\<rparr>) d | NilRR \<Rightarrow> NilRR),
     lib_Len = (\<lambda>m. 12), lib_Pack = (\<lambda>m. Some []), lib_Unpack = (\<lambda>b. None)\<rparr>"

lemma find_opt_Some: "find_opt rs = Some i \<Longrightarrow> i < length rs \<and> is_opt (rs ! i)"
proof -
  assume a: "find_opt rs = Some i"
  then have "filter is_opt rs \<noteq> []" by (auto simp: find_opt_def split: if_splits)
  then obtain j where "j < length rs" "is_opt (rs ! j)"
    by (auto simp: filter_empty_conv in_set_conv_nth)
  then have "filter (\<lambda>i. is_opt (rs ! i)) [0..<length rs] \<noteq> []" by (auto simp: filter_empty_conv)
  from last_in_set [OF this] a show ?thesis by (auto simp: find_opt_def split: if_splits)
qed

lemma find_opt_cong: "map is_opt rs = map is_opt rs' \<Longrightarrow> find_opt rs = find_opt rs'"
proof -
  assume a: "map is_opt rs = map is_opt rs'"
  then have l: "length rs = length rs'" by (rule map_eq_imp_length_eq)
  then have n: "is_opt (rs ! i) = is_opt (rs' ! i)" if "i < length rs" for i
    using that a by (metis nth_map)
  have "filter is_opt rs = [] \<longleftrightarrow> filter id (map is_opt rs) = []" for rs by (simp add: filter_map)
  with a have "filter is_opt rs = [] \<longleftrightarrow> filter is_opt rs' = []" by simp
  moreover have "filter (\<lambda>i. is_opt (rs ! i)) [0..<length rs] = filter (\<lambda>i. is_opt (rs' ! i)) [0..<length rs']"
    using n l by (auto intro!: filter_cong)
  ultimately show ?thesis by (simp add: find_opt_def)
qed

lemma ref_SetEdns0:
  "\<exists>h. h_Rrtype h = TypeOPT \<and> lib_UDPSize ref_lib (RR h (RD_OPT [])) = sz
      \<and> lib_Do ref_lib (RR h (RD_OPT [])) = d
      \<and> lib_SetEdns0 ref_lib m sz d = m\<lparr>m_Extra := m_Extra m @ [RR h (RD_OPT [])]\<rparr>"
  by (rule exI [of _ "\<lparr>h_Name = ''.'', h_Rrtype = TypeOPT, h_Class = sz,
        h_Ttl = (if d then 0x8000 else 0)\<rparr>"]) (simp add: ref_lib_def)

lemma ref_lib_edns: "edns_laws ref_lib"
proof -
  have i: "lib_IsEdns0 ref_lib m = find_opt (m_Extra m)" for m by (simp add: ref_lib_def)
  have "find_opt rs = None \<longleftrightarrow> filter is_opt rs = []" for rs by (simp add: find_opt_def)
  with find_opt_Some find_opt_cong ref_SetEdns0 show ?thesis
    unfolding edns_laws_def i by blast
qed

section \<open>The loop token\<close>

lemma is_opt_set_options [simp]: "is_opt (set_options os r) = is_opt r"
  by (cases "(os, r)" rule: set_options.cases) simp_all

lemma opt_options_set: "is_opt r \<Longrightarrow> opt_options (set_options os r) = os"
  by (cases r rule: is_opt.cases) simp_all

lemma put_token_mem: "EDNS0_LOCAL loopOptionCode token \<in> set (put_token token os)"
  by (induction os) auto

lemma same_token_iff: "same_token token x \<longleftrightarrow> x = EDNS0_LOCAL loopOptionCode token"
proof (cases x)
  case (EDNS0_LOCAL code d)
  have "d = token \<longleftrightarrow> length d = length token \<and> list_all (\<lambda>i. d ! i = token ! i) [0..<length token]"
    unfolding list_all_iff list_eq_iff_nth_eq [of d] by auto
  with EDNS0_LOCAL show ?thesis by (simp, blast)
qed simp_all

lemma update_extra_types:
  assumes "i < length (m_Extra m)" and "is_opt (f (m_Extra m ! i)) = is_opt (m_Extra m ! i)"
  shows "map is_opt (m_Extra (update_extra i f m)) = map is_opt (m_Extra m)"
  using assms list_update_id [of "map is_opt (m_Extra m)" i] by (simp add: update_extra_def map_update)

lemma markOutgoing_cases:
  assumes "edns_laws lib"
  obtains m i where "lib_IsEdns0 lib m = Some i"
    "markOutgoing lib token msg
       = update_extra i (\<lambda>r. set_options (put_token token (opt_options r)) r) m"
    "m = msg \<and> filter is_opt (m_Extra msg) \<noteq> []
     \<or> (\<exists>h. h_Rrtype h = TypeOPT \<and> m = msg\<lparr>m_Extra := m_Extra msg @ [RR h (RD_OPT [])]\<rparr>
          \<and> filter is_opt (m_Extra msg) = [])"
proof (cases "lib_IsEdns0 lib msg")
  case (Some i)
  with IsEdns0_None [OF assms, of msg] show ?thesis by (intro that [of msg i]) (simp_all add: markOutgoing_def)
next
  case None
  obtain h where h: "h_Rrtype h = TypeOPT"
    "lib_SetEdns0 lib msg 4096 False = msg\<lparr>m_Extra := m_Extra msg @ [RR h (RD_OPT [])]\<rparr>"
    using assms by (rule SetEdns0_obtain)
  let ?m = "msg\<lparr>m_Extra := m_Extra msg @ [RR h (RD_OPT [])]\<rparr>"
  from h(1) have "lib_IsEdns0 lib ?m \<noteq> None" by (simp add: IsEdns0_None [OF assms])
  then obtain i where i: "lib_IsEdns0 lib ?m = Some i" by auto
  with None h IsEdns0_None [OF assms, of msg] show ?thesis
    by (intro that [of ?m i]) (auto simp: markOutgoing_def)
qed

text \<open>
  (C24) A query the module marks on its way out is recognised when it comes back: whatever
  message is marked, with or without an OPT record or an older token in it, the token is found.
\<close>

theorem mark_then_detect:
  assumes "edns_laws lib"
  shows "carriesOwnToken lib token (Some (markOutgoing lib token msg))"
proof -
  let ?f = "\<lambda>r. set_options (put_token token (opt_options r)) r"
  obtain m i where m: "lib_IsEdns0 lib m = Some i" "markOutgoing lib token msg = update_extra i ?f m"
    using assms by (rule markOutgoing_cases)
  from IsEdns0_Some [OF assms m(1)] have i: "i < length (m_Extra m)" "is_opt (m_Extra m ! i)" by auto
  then have "lib_IsEdns0 lib (update_extra i ?f m) = Some i"
    using IsEdns0_cong [OF assms update_extra_types [of i m ?f]] m(1) by simp
  with i put_token_mem [of token] show ?thesis
    by (simp add: m(2) carriesOwnToken_def update_extra_def opt_options_set list_ex_iff same_token_iff)
qed

text \<open>
  A query is taken for a looped one only if an EDNS0 option of it has the loop code and
  exactly the token of this process.
\<close>

theorem token_is_own:
  assumes "edns_laws lib" and "carriesOwnToken lib token (Some m)"
  shows "\<exists>r\<in>set (m_Extra m). EDNS0_LOCAL loopOptionCode token \<in> set (opt_options r)"
  using assms IsEdns0_Some [OF assms(1), of m]
  by (auto simp: carriesOwnToken_def list_ex_iff same_token_iff split: option.splits)

lemma filter_opt_update:
  assumes "i < length rs" and "is_opt (f (rs ! i)) = is_opt (rs ! i)" and "is_opt (rs ! i)"
  shows "filter (\<lambda>r. \<not> is_opt r) (rs[i := f (rs ! i)]) = filter (\<lambda>r. \<not> is_opt r) rs
    \<and> length (filter is_opt (rs[i := f (rs ! i)])) = length (filter is_opt rs)"
proof -
  define a x b where "a = take i rs" and "x = rs ! i" and "b = drop (Suc i) rs"
  have "rs = a @ x # b" using assms(1) by (simp add: a_def x_def b_def id_take_nth_drop)
  moreover have "rs[i := f x] = a @ f x # b"
    using assms(1) by (simp add: a_def b_def upd_conv_take_nth_drop)
  ultimately show ?thesis using assms(2,3) unfolding x_def [symmetric] by simp
qed

text \<open>
  Marking changes nothing of a query but its OPT record: the other additional records stay
  in order, and the message has one OPT record where it had none and no more than before otherwise.
\<close>

theorem mark_keeps_rest:
  assumes "edns_laws lib"
  shows "\<exists>x. markOutgoing lib token msg = msg\<lparr>m_Extra := x\<rparr>
    \<and> filter (\<lambda>r. \<not> is_opt r) x = filter (\<lambda>r. \<not> is_opt r) (m_Extra msg)
    \<and> length (filter is_opt x) = max 1 (length (filter is_opt (m_Extra msg)))"
proof -
  let ?f = "\<lambda>r. set_options (put_token token (opt_options r)) r"
  obtain m i where m: "lib_IsEdns0 lib m = Some i" "markOutgoing lib token msg = update_extra i ?f m"
    "m = msg \<and> filter is_opt (m_Extra msg) \<noteq> []
     \<or> (\<exists>h. h_Rrtype h = TypeOPT \<and> m = msg\<lparr>m_Extra := m_Extra msg @ [RR h (RD_OPT [])]\<rparr>
          \<and> filter is_opt (m_Extra msg) = [])"
    using assms by (rule markOutgoing_cases)
  from IsEdns0_Some [OF assms m(1)] have i: "i < length (m_Extra m)" "is_opt (m_Extra m ! i)" by auto
  let ?x = "(m_Extra m)[i := ?f (m_Extra m ! i)]"
  have "filter (\<lambda>r. \<not> is_opt r) ?x = filter (\<lambda>r. \<not> is_opt r) (m_Extra m)"
    "length (filter is_opt ?x) = length (filter is_opt (m_Extra m))"
    using filter_opt_update [of i "m_Extra m" ?f] i by simp_all
  moreover have "max (Suc 0) (length xs) = length xs" if "xs \<noteq> []" for xs :: "rr list"
    using that by (cases xs) auto
  ultimately show ?thesis using m(3) unfolding m(2) update_extra_def
    by (intro exI [of _ ?x]) auto
qed

section \<open>Validation\<close>

text \<open>What a response has to satisfy to be accepted.\<close>

definition sound_record :: "rr \<Rightarrow> bool" where
  "sound_record r \<longleftrightarrow> r \<noteq> NilRR \<and> rrtype r \<noteq> 0"

definition sound_response :: "dns_msg \<Rightarrow> bool" where
  "sound_response m \<longleftrightarrow>
     m_Response m
     \<and> (\<exists>q qs. m_Question m = q # qs \<and> qn_Name q \<noteq> [] \<and> qn_Qtype q \<noteq> 0 \<and> qn_Qclass q \<noteq> 0)
     \<and> 0 \<le> m_Rcode m \<and> m_Rcode m \<le> 4095
     \<and> (\<forall>r\<in>set (m_Answer m). sound_record r \<and> h_Name (Header r) \<noteq> [])
     \<and> (\<forall>r\<in>set (m_Ns m) \<union> set (m_Extra m). sound_record r)"

lemma check_answers_None:
  "check_answers i rs = None \<longleftrightarrow> (\<forall>r\<in>set rs. sound_record r \<and> h_Name (Header r) \<noteq> [])"
  by (induction rs arbitrary: i) (auto simp: sound_record_def)

lemma check_authority_None: "check_authority i rs = None \<longleftrightarrow> (\<forall>r\<in>set rs. sound_record r)"
  by (induction rs arbitrary: i) (auto simp: sound_record_def)

lemma check_additional_None: "check_additional i rs = None \<longleftrightarrow> (\<forall>r\<in>set rs. sound_record r)"
  by (induction rs arbitrary: i) (auto simp: sound_record_def TypeOPT_def)

lemma validateRcode_None: "validateRcode c = None \<longleftrightarrow> 0 \<le> c \<and> c \<le> 4095"
  by (auto simp: validateRcode_def)

lemma case_None_iff: "(case x of None \<Rightarrow> y | Some e \<Rightarrow> Some e) = None \<longleftrightarrow> x = None \<and> y = None"
  by (cases x) simp_all

lemma ValidateResponse_None: "ValidateResponse (Some m) = None \<longleftrightarrow> sound_response m"
proof (cases "m_Question m")
  case Nil
  then show ?thesis by (simp add: ValidateResponse_def sound_response_def)
next
  case (Cons q qs)
  have "ValidateResponse (Some m) = None \<longleftrightarrow> m_Response m \<and> qn_Name q \<noteq> [] \<and> qn_Qtype q \<noteq> 0
      \<and> qn_Qclass q \<noteq> 0 \<and> validateRcode (m_Rcode m) = None \<and> check_answers 0 (m_Answer m) = None
      \<and> check_authority 0 (m_Ns m) = None \<and> check_additional 0 (m_Extra m) = None"
    unfolding ValidateResponse_def by (simp add: Cons case_None_iff)
  also have "\<dots> \<longleftrightarrow> sound_response m"
    unfolding check_answers_None check_authority_None check_additional_None validateRcode_None
      sound_response_def ball_Un Cons by blast
  finally show ?thesis .
qed

lemma validated_sections:
  assumes "ValidateResponse (Some m) = None"
  shows "NilRR \<notin> set (m_Answer m) \<union> set (m_Ns m) \<union> set (m_Extra m)"
  using assms unfolding ValidateResponse_None sound_response_def sound_record_def by blast

text \<open>
  A response passes validation exactly when it is marked as a response, its first question
  has a name, a type and a class, its code is in the 12-bit range, every record of every section is
  present with a type, and every answer has a name.
\<close>

theorem validate_response_exact: "ValidateResponse (Some m) = None \<longleftrightarrow> sound_response m"
  by (rule ValidateResponse_None)

section \<open>The loop log\<close>

fun loop_log_run :: "loop_log \<Rightarrow> time list \<Rightarrow> time list" where
  "loop_log_run st [] = []"
| "loop_log_run st (t # ts) =
     (let (logged, st') = loopDetected t st
      in if logged then t # loop_log_run st' ts else loop_log_run st' ts)"

lemma loop_log_run_spaced:
  assumes "0 \<notin> set ts"
  shows "(ll_LastLog st \<noteq> 0 \<longrightarrow> (\<forall>x\<in>set (loop_log_run st ts). ll_LastLog st + loopLogInterval \<le> x))
    \<and> sorted_wrt (\<lambda>a b. a + loopLogInterval \<le> b) (loop_log_run st ts)"
  using assms
proof (induction ts arbitrary: st)
  case (Cons t ts)
  have I: "0 \<le> loopLogInterval" by (simp add: loopLogInterval_def second_def)
  show ?case
  proof (cases "ll_LastLog st \<noteq> 0 \<and> t - ll_LastLog st < loopLogInterval")
    case True
    let ?st = "st\<lparr>ll_Suppressed := ll_Suppressed st + 1\<rparr>"
    from True have "loop_log_run st (t # ts) = loop_log_run ?st ts" by (simp add: loopDetected_def)
    with Cons.IH [of ?st] Cons.prems show ?thesis by simp
  next
    case False
    let ?st = "st\<lparr>ll_Suppressed := ll_Suppressed st + 1, ll_LastLog := t\<rparr>"
    from False have run: "loop_log_run st (t # ts) = t # loop_log_run ?st ts"
      by (auto simp: loopDetected_def Let_def)
    have "t \<noteq> 0" "0 \<notin> set ts" using Cons.prems by auto
    with Cons.IH [of ?st] have rest: "\<forall>x\<in>set (loop_log_run ?st ts). t + loopLogInterval \<le> x"
      "sorted_wrt (\<lambda>a b. a + loopLogInterval \<le> b) (loop_log_run ?st ts)" by simp_all
    have "ll_LastLog st + loopLogInterval \<le> t" if "ll_LastLog st \<noteq> 0" using that False by auto
    with rest I show ?thesis unfolding run by fastforce
  qed
qed simp

text \<open>
  However many looped queries arrive, two lines of the loop log are at least ten seconds
  apart.
\<close>

theorem loop_log_rate:
  assumes "0 \<notin> set ts"
  shows "sorted_wrt (\<lambda>a b. a + 10 * second \<le> b)
    (loop_log_run \<lparr>ll_LastLog = 0, ll_Suppressed = 0\<rparr> ts)"
  using loop_log_run_spaced [OF assms] by (simp add: loopLogInterval_def)

section \<open>DNS64\<close>

text \<open>The address records of an answer section that have an IPv4 address.\<close>

lemma a_records_mem: "(h, a) \<in> set (a_records rs) \<longleftrightarrow> RR h (RD_A a) \<in> set rs"
proof
  show "(h, a) \<in> set (a_records rs) \<Longrightarrow> RR h (RD_A a) \<in> set rs"
    by (induction rs) (auto simp: a_records_def List.map_filter_simps split: rr.splits rdata.splits option.splits)
  show "RR h (RD_A a) \<in> set rs \<Longrightarrow> (h, a) \<in> set (a_records rs)"
    by (induction rs) (auto simp: a_records_def List.map_filter_simps split: rr.splits rdata.splits option.splits)
qed

lemma map_filter_mem: "y \<in> set (List.map_filter f xs) \<longleftrightarrow> (\<exists>x\<in>set xs. f x = Some y)"
  by (force simp: List.map_filter_def)

text \<open>
  DNS64 synthesis on an answer without AAAA records adds, and adds only, the AAAA record of
  every A record: the prefix followed by the four bytes of the address, with its name, class and TTL.
\<close>

theorem dns64_records:
  assumes "rb_EnableDNS64 b" and "length (rb_DNS64Prefix b) = 16"
    and "list_all (\<lambda>r. rrtype r \<noteq> TypeAAAA) (m_Answer m)"
  shows "\<exists>new. synthesizeDNS64 b m = m\<lparr>m_Answer := m_Answer m @ new\<rparr>
    \<and> set new = {RR (h\<lparr>h_Rrtype := TypeAAAA\<rparr>) (RD_AAAA (take 12 (rb_DNS64Prefix b) @ To4 a)) | h a.
         RR h (RD_A a) \<in> set (m_Answer m) \<and> To4 a \<noteq> []}"
proof -
  let ?p = "rb_DNS64Prefix b" and ?as = "a_records (m_Answer m)"
  let ?new = "List.map_filter (synth_aaaa ?p) ?as"
  have p: "To16 ?p = ?p" "?p \<noteq> []" using assms(2) by (auto simp: To16_def)
  have "\<not> list_ex (\<lambda>r. rrtype r = TypeAAAA) (m_Answer m)"
    using assms(3) by (auto simp: list_all_iff list_ex_iff)
  then have m: "synthesizeDNS64 b m = m\<lparr>m_Answer := m_Answer m @ ?new\<rparr>"
    using assms(1) p by (simp add: synthesizeDNS64_def List.map_filter_def)
  have "r \<in> set ?new \<longleftrightarrow> (\<exists>h a. RR h (RD_A a) \<in> set (m_Answer m) \<and> To4 a \<noteq> []
      \<and> r = RR (h\<lparr>h_Rrtype := TypeAAAA\<rparr>) (RD_AAAA (take 12 ?p @ To4 a)))" for r
  proof -
    have "synth_aaaa ?p (h, a) = Some r \<longleftrightarrow> To4 a \<noteq> []
        \<and> r = RR (h\<lparr>h_Rrtype := TypeAAAA\<rparr>) (RD_AAAA (take 12 ?p @ To4 a))" for h :: rr_hdr and a
      by (auto simp: synth_aaaa_def)
    moreover have "r \<in> set ?new \<longleftrightarrow> (\<exists>h a. (h, a) \<in> set ?as \<and> synth_aaaa ?p (h, a) = Some r)"
      unfolding map_filter_mem by auto
    ultimately show ?thesis by (simp only: a_records_mem)
  qed
  then have "set ?new = {RR (h\<lparr>h_Rrtype := TypeAAAA\<rparr>) (RD_AAAA (take 12 ?p @ To4 a)) | h a.
      RR h (RD_A a) \<in> set (m_Answer m) \<and> To4 a \<noteq> []}" by blast
  with m show ?thesis by blast
qed


section \<open>Concrete messages\<close>

definition sample_msg :: dns_msg where
  "sample_msg = new_msg\<lparr>m_Response := True,
     m_Question := [\<lparr>qn_Name = ''a.'', qn_Qtype = TypeA, qn_Qclass = 1\<rparr>],
     m_Answer := [RR \<lparr>h_Name = ''a.'', h_Rrtype = TypeA, h_Class = 1, h_Ttl = 60\<rparr> (RD_A [192, 0, 2, 1])],
     m_Extra := [new_opt 1232 []]\<rparr>"

theorem mark_then_detect_witness:
  "edns_laws ref_lib \<and> carriesOwnToken ref_lib [1, 2] (Some (markOutgoing ref_lib [1, 2] sample_msg))"
  using mark_then_detect [OF ref_lib_edns] ref_lib_edns by blast

theorem token_is_own_witness:
  "\<exists>r\<in>set (m_Extra (sample_msg\<lparr>m_Extra := [new_opt 1232 [EDNS0_LOCAL loopOptionCode [1, 2]]]\<rparr>)).
     EDNS0_LOCAL loopOptionCode [1, 2] \<in> set (opt_options r)"
proof (rule token_is_own [OF ref_lib_edns])
  show "carriesOwnToken ref_lib [1, 2]
      (Some (sample_msg\<lparr>m_Extra := [new_opt 1232 [EDNS0_LOCAL loopOptionCode [1, 2]]]\<rparr>))"
    by (simp add: carriesOwnToken_def ref_lib_def find_opt_def new_opt_def)
qed

theorem mark_keeps_rest_witness:
  "\<exists>x. markOutgoing ref_lib [1, 2] sample_msg = sample_msg\<lparr>m_Extra := x\<rparr>
    \<and> filter (\<lambda>r. \<not> is_opt r) x = filter (\<lambda>r. \<not> is_opt r) (m_Extra sample_msg)
    \<and> length (filter is_opt x) = max 1 (length (filter is_opt (m_Extra sample_msg)))"
  by (rule mark_keeps_rest [OF ref_lib_edns])

theorem loop_log_rate_witness:
  "sorted_wrt (\<lambda>a b. a + 10 * second \<le> b)
     (loop_log_run \<lparr>ll_LastLog = 0, ll_Suppressed = 0\<rparr> [1, 2 * second, 11 * second])"
  by (rule loop_log_rate) (simp add: second_def)

theorem dns64_records_witness:
  "\<exists>new. synthesizeDNS64 \<lparr>rb_EnableDNS64 = True, rb_DNS64Prefix = replicate 16 0\<rparr> sample_msg
      = sample_msg\<lparr>m_Answer := m_Answer sample_msg @ new\<rparr>
    \<and> set new = {RR (h\<lparr>h_Rrtype := TypeAAAA\<rparr>) (RD_AAAA (take 12 (rb_DNS64Prefix
         \<lparr>rb_EnableDNS64 = True, rb_DNS64Prefix = replicate 16 0\<rparr>) @ To4 a)) | h a.
         RR h (RD_A a) \<in> set (m_Answer sample_msg) \<and> To4 a \<noteq> []}"
  by (rule dns64_records) (simp_all add: sample_msg_def qtype_defs)

end
