(* ===== verification/Dns_Upstream.thy ===== *)
theory Dns_Upstream
  imports Dns_Message
begin

text \<open>
  Upstream servers: the manager (\<open>core/dns/upstream.go\<close>), the exchange paths
  (\<open>core/dns/upstream_stub.go\<close>) and DNS over HTTPS (\<open>core/dns/doh.go\<close>). The network is the
  parameter \<open>net_env\<close>: what the \<open>i\<close>-th call of an operation returns. A connection is a script of
  the byte chunks its reads will deliver and the outcomes of its writes, and records what was
  written. Sleeps and deadlines only delay and are not modelled.
\<close>

section \<open>Instances and the manager\<close>

record upstream_instance =
  ui_ID :: string
  ui_Addr :: string
  ui_Protocol :: string
  ui_ProxyTag :: string
  ui_ClientNet :: "string option"
  ui_Healthy :: bool
  ui_Bootstrap :: bool
  ui_ServerName :: string

definition BuildUpstreamKey :: "string \<Rightarrow> string \<Rightarrow> string" where
  "BuildUpstreamKey addr proxyTag = addr @ ''|'' @ proxyTag"

definition CompositeKey :: "upstream_instance \<Rightarrow> string" where
  "CompositeKey u = BuildUpstreamKey (ui_Addr u) (ui_ProxyTag u)"

text \<open>
  Both indices hold pointers to instances: cells of \<open>um_cells\<close>. The dispatcher and the
  proxy-address resolver are optional.
\<close>

record upstream_manager =
  um_upstreams :: "string \<rightharpoonup> nat"
  um_upstreamsByID :: "string \<rightharpoonup> nat"
  um_cells :: "upstream_instance list"
  um_proxyAddrResolver :: "(string \<Rightarrow> string) option"
  um_dispatcher :: bool
  um_bootstrapIPs :: "string \<rightharpoonup> string"

definition or_else :: "string \<Rightarrow> string \<Rightarrow> string" where
  "or_else s d = (if s = [] then d else s)"

definition instance_of :: "upstream_config \<Rightarrow> upstream_instance" where
  "instance_of cfg =
     \<lparr>ui_ID = or_else (uc_ID cfg) (uc_Addr cfg), ui_Addr = uc_Addr cfg,
      ui_Protocol = or_else (uc_Protocol cfg) ''udp'',
      ui_ProxyTag = or_else (uc_ProxyTag cfg) ''direct'',
      ui_ClientNet = Some (or_else (uc_Protocol cfg) ''udp''), ui_Healthy = True,
      ui_Bootstrap = uc_Bootstrap cfg, ui_ServerName = uc_ServerName cfg\<rparr>"

definition add_instance :: "upstream_instance \<Rightarrow> upstream_manager \<Rightarrow> upstream_manager" where
  "add_instance u m =
     m\<lparr>um_upstreams := (um_upstreams m)(CompositeKey u \<mapsto> length (um_cells m)),
       um_upstreamsByID := (um_upstreamsByID m)(ui_ID u \<mapsto> length (um_cells m)),
       um_cells := um_cells m @ [u]\<rparr>"

definition empty_manager :: upstream_manager where
  "empty_manager = \<lparr>um_upstreams = Map.empty, um_upstreamsByID = Map.empty, um_cells = [],
     um_proxyAddrResolver = None, um_dispatcher = False, um_bootstrapIPs = Map.empty\<rparr>"

definition NewUpstreamManager :: "upstream_config list \<Rightarrow> upstream_manager" where
  "NewUpstreamManager configs = foldl (\<lambda>m cfg. add_instance (instance_of cfg) m) empty_manager configs"

definition GetUpstream :: "upstream_manager \<Rightarrow> string \<Rightarrow> nat option" where
  "GetUpstream m i =
     (case um_upstreamsByID m i of Some u \<Rightarrow> Some u | None \<Rightarrow> um_upstreams m i)"

definition GetUpstreamByKey :: "upstream_manager \<Rightarrow> string \<Rightarrow> nat option" where
  "GetUpstreamByKey m compositeKey = um_upstreams m compositeKey"

definition GetOrCreateUpstream :: "upstream_config \<Rightarrow> upstream_manager \<Rightarrow> nat \<times> upstream_manager" where
  "GetOrCreateUpstream config m =
     (let proxyTag = or_else (uc_ProxyTag config) ''direct'';
          compositeKey = BuildUpstreamKey (uc_Addr config) proxyTag in
      case um_upstreams m compositeKey of
        Some existing \<Rightarrow> (existing, m)
      | None \<Rightarrow>
          (length (um_cells m),
           add_instance
             \<lparr>ui_ID = or_else (uc_ID config) (uc_Addr config), ui_Addr = uc_Addr config,
              ui_Protocol = or_else (uc_Protocol config) ''udp'', ui_ProxyTag = proxyTag,
              ui_ClientNet = Some (or_else (uc_Protocol config) ''udp''), ui_Healthy = True,
              ui_Bootstrap = uc_Bootstrap config, ui_ServerName = []\<rparr> m))"

text \<open>
  A health check writes the outcome of the ping into every instance of the key index (of one
  proxy tag). \<open>ping\<close> is \<open>pingUpstream\<close>, below applied to a network.
\<close>

definition health_update ::
  "(upstream_instance \<Rightarrow> bool) \<Rightarrow> (upstream_instance \<Rightarrow> bool) \<Rightarrow> upstream_manager \<Rightarrow> upstream_manager" where
  "health_update sel ping m =
     m\<lparr>um_cells := map (\<lambda>i. let u = um_cells m ! i in
         if i \<in> ran (um_upstreams m) \<and> sel u then u\<lparr>ui_Healthy := ping u\<rparr> else u)
         [0..<length (um_cells m)]\<rparr>"

definition health_results ::
  "(upstream_instance \<Rightarrow> bool) \<Rightarrow> (upstream_instance \<Rightarrow> bool) \<Rightarrow> upstream_manager \<Rightarrow> (string \<rightharpoonup> bool)" where
  "health_results sel ping m k =
     (case um_upstreams m k of
        None \<Rightarrow> None
      | Some i \<Rightarrow> if sel (um_cells m ! i) then Some (ping (um_cells m ! i)) else None)"

definition HealthCheck ::
  "(upstream_instance \<Rightarrow> bool) \<Rightarrow> upstream_manager \<Rightarrow> (string \<rightharpoonup> bool) \<times> upstream_manager" where
  "HealthCheck ping m = (health_results (\<lambda>u. True) ping m, health_update (\<lambda>u. True) ping m)"

definition HealthCheckByProxyTag ::
  "string \<Rightarrow> (upstream_instance \<Rightarrow> bool) \<Rightarrow> upstream_manager \<Rightarrow> (string \<rightharpoonup> bool) \<times> upstream_manager" where
  "HealthCheckByProxyTag proxyTag ping m =
     (health_results (\<lambda>u. ui_ProxyTag u = proxyTag) ping m,
      health_update (\<lambda>u. ui_ProxyTag u = proxyTag) ping m)"

definition ListUpstreams :: "upstream_manager \<Rightarrow> upstream_instance set" where
  "ListUpstreams m = (\<lambda>i. um_cells m ! i) ` ran (um_upstreams m)"

definition SetProxyAddrResolver :: "(string \<Rightarrow> string) option \<Rightarrow> upstream_manager \<Rightarrow> upstream_manager" where
  "SetProxyAddrResolver resolver m = m\<lparr>um_proxyAddrResolver := resolver\<rparr>"

definition SetDispatcher :: "bool \<Rightarrow> upstream_manager \<Rightarrow> upstream_manager" where
  "SetDispatcher d m = m\<lparr>um_dispatcher := d\<rparr>"

definition SetBootstrapIPs :: "(string \<rightharpoonup> string) \<Rightarrow> upstream_manager \<Rightarrow> upstream_manager" where
  "SetBootstrapIPs ips m = m\<lparr>um_bootstrapIPs := ips\<rparr>"

section \<open>Connections\<close>

record conn =
  cn_Reads :: "byte list list"
  cn_Writes :: "bool list"
  cn_Sent :: "byte list list"

definition conn_write :: "byte list \<Rightarrow> conn \<Rightarrow> conn option" where
  "conn_write b c =
     (case cn_Writes c of
        False # _ \<Rightarrow> None
      | True # ws \<Rightarrow> Some (c\<lparr>cn_Writes := ws, cn_Sent := cn_Sent c @ [b]\<rparr>)
      | [] \<Rightarrow> Some (c\<lparr>cn_Sent := cn_Sent c @ [b]\<rparr>))"

text \<open>\<open>conn.Read\<close> into a buffer of \<open>k\<close> bytes: at most the next chunk; an exhausted script is an error.\<close>

definition conn_read :: "nat \<Rightarrow> conn \<Rightarrow> (byte list \<times> conn) option" where
  "conn_read k c =
     (case cn_Reads c of
        [] \<Rightarrow> None
      | ch # rest \<Rightarrow>
          Some (take k ch, c\<lparr>cn_Reads := (if length ch \<le> k then rest else drop k ch # rest)\<rparr>))"

text \<open>\<open>io.ReadFull\<close>: chunks are read until the buffer is full.\<close>

fun read_full :: "nat \<Rightarrow> byte list list \<Rightarrow> (byte list \<times> byte list list) option" where
  "read_full k [] = (if k = 0 then Some ([], []) else None)"
| "read_full k (ch # rest) =
     (if k = 0 then Some ([], ch # rest)
      else if k < length ch then Some (take k ch, drop k ch # rest)
      else (case read_full (k - length ch) rest of
              None \<Rightarrow> None | Some (d, r) \<Rightarrow> Some (ch @ d, r)))"

definition tcp_frame :: "byte list \<Rightarrow> byte list" where
  "tcp_frame packed =
     word_of_nat (length packed div 256) # word_of_nat (length packed) # packed"

text \<open>
  The two-byte length and then that many bytes. The test of the length for the range 0 to 65535
  cannot fail on two bytes.
\<close>

definition read_frame :: "byte list list \<Rightarrow> (byte list \<times> byte list list) option" where
  "read_frame chunks =
     (case read_full 2 chunks of
        None \<Rightarrow> None
      | Some (hd2, rest) \<Rightarrow>
          (let respLen = unat (hd2 ! 0) * 256 + unat (hd2 ! 1)
           in if respLen > 65535 then None else read_full respLen rest))"

section \<open>The network\<close>

record net_env =
  net_Exchange :: "string \<Rightarrow> string option \<Rightarrow> string \<Rightarrow> dns_msg \<Rightarrow> nat
    \<Rightarrow> (string + dns_msg option) \<times> duration"
  net_HTTP :: "(string \<Rightarrow> string + conn) \<Rightarrow> string \<Rightarrow> byte list \<Rightarrow> nat \<Rightarrow> string + (int \<times> (string + byte list))"
  net_Dial :: "string \<Rightarrow> nat \<Rightarrow> string + conn"
  net_Dispatch :: "string \<Rightarrow> string \<Rightarrow> nat \<Rightarrow> string + conn"
  net_TLS :: "string \<Rightarrow> conn \<Rightarrow> string + conn"
  net_LookupPort :: "string \<Rightarrow> nat option"
  net_Elapsed :: "nat \<Rightarrow> duration"

datatype exch_error =
    ExchangeFailed string
  | InvalidResponse validate_error
  | QuestionMismatch validate_error
  | PackFailed
  | UnpackFailed
  | DohTransport string
  | DohStatus int
  | DohBody string
  | DohTooLarge
  | DialFailed string
  | TLSFailed string
  | WriteFailed
  | ReadFailed
  | SocksVersion byte
  | SocksRefused byte byte
  | NilUpstream
  | NilRawMessage

section \<open>Query and answer\<close>

definition shouldAttachECS :: "ip \<Rightarrow> bool" where
  "shouldAttachECS clientIP \<longleftrightarrow>
     clientIP \<noteq> [] \<and> IP_IsGlobalUnicast clientIP \<and> \<not> IP_IsPrivate clientIP
     \<and> \<not> IP_IsLoopback clientIP \<and> \<not> IP_IsLinkLocalUnicast clientIP"

definition build_query :: "dns_lib \<Rightarrow> byte list \<Rightarrow> dns_query \<Rightarrow> dns_msg" where
  "build_query lib token query =
     (let m1 = (lib_SetQuestion lib new_msg (lib_Fqdn lib (q_Name query)) (q_QType query))
                 \<lparr>m_RecursionDesired := True\<rparr>;
          m2 = lib_SetEdns0 lib m1 4096 True;
          m3 = markOutgoing lib token m2
      in if shouldAttachECS (q_ClientIP query) then AddECSSubnet lib (q_ClientIP query) m3 else m3)"

definition wrap_response ::
  "dns_lib \<Rightarrow> upstream_instance \<Rightarrow> dns_query \<Rightarrow> dns_msg \<Rightarrow> duration \<Rightarrow> exch_error + dns_response" where
  "wrap_response lib upstream query resp rtt =
     (case ValidateResponse (Some resp) of
        Some e \<Rightarrow> Inl (InvalidResponse e)
      | None \<Rightarrow>
          (case ValidateQuestionMatch lib (Some resp) (q_Name query) (q_QType query) of
             Some e \<Rightarrow> Inl (QuestionMismatch e)
           | None \<Rightarrow>
               Inr \<lparr>dr_Query = query, dr_RawMsg = Some resp, dr_Rcode = m_Rcode resp,
                    dr_Answer = m_Answer resp, dr_Authority = m_Ns resp,
                    dr_Additional = m_Extra resp, dr_TTL = min_ttl (m_Answer resp),
                    dr_Upstream = ui_Addr upstream, dr_ProxyTag = ui_ProxyTag upstream,
                    dr_RTT = rtt, dr_Cached = False\<rparr>))"

section \<open>DNS over HTTPS\<close>

definition dialTarget :: "upstream_manager \<Rightarrow> string \<Rightarrow> string" where
  "dialTarget m addr =
     (case SplitHostPort addr of
        None \<Rightarrow> addr
      | Some (host, port) \<Rightarrow>
          (case um_bootstrapIPs m host of
             Some ip \<Rightarrow> if ip \<noteq> [] then JoinHostPort ip port else addr
           | None \<Rightarrow> addr))"

text \<open>
  A dial function opens the connection to an address: the marked dialer for a direct upstream, the
  dispatcher, tried twice, for a proxied one.
\<close>

type_synonym dial_func = "string \<Rightarrow> string + conn"

definition directDial :: "net_env \<Rightarrow> nat \<Rightarrow> dial_func" where
  "directDial net i addr = net_Dial net addr i"

definition dispatch_dial :: "net_env \<Rightarrow> string \<Rightarrow> dial_func" where
  "dispatch_dial net tag addr =
     (case net_Dispatch net addr tag 0 of
        Inr c \<Rightarrow> Inr c
      | Inl _ \<Rightarrow> net_Dispatch net addr tag 1)"

definition tlsOver :: "net_env \<Rightarrow> conn \<Rightarrow> string \<Rightarrow> string + conn" where
  "tlsOver net raw serverName = net_TLS net serverName raw"

text \<open>
  How the HTTP client of an upstream connects: the bootstrapped address is dialled, the TLS name
  stays the host of the URL.
\<close>

definition dohClient :: "net_env \<Rightarrow> upstream_manager \<Rightarrow> dial_func \<Rightarrow> dial_func" where
  "dohClient net m dial addr =
     (case dial (dialTarget m addr) of
        Inl e \<Rightarrow> Inl e
      | Inr raw \<Rightarrow>
          net_TLS net (case SplitHostPort addr of None \<Rightarrow> [] | Some (host, _) \<Rightarrow> host) raw)"

definition MaxMsgSize :: nat where "MaxMsgSize = 65535"

definition exchangeDoH ::
  "net_env \<Rightarrow> dns_lib \<Rightarrow> upstream_manager \<Rightarrow> dial_func \<Rightarrow> upstream_instance \<Rightarrow> dns_msg \<Rightarrow> nat \<Rightarrow> exch_error + (dns_msg \<times> duration)" where
  "exchangeDoH net lib m dial upstream msg i =
     (case lib_Pack lib msg of
        None \<Rightarrow> Inl PackFailed
      | Some packed \<Rightarrow>
          (case net_HTTP net (dohClient net m dial) (ui_Addr upstream) packed i of
             Inl e \<Rightarrow> Inl (DohTransport e)
           | Inr (status, body) \<Rightarrow>
               if status \<noteq> 200 then Inl (DohStatus status)
               else (case body of
                 Inl e \<Rightarrow> Inl (DohBody e)
               | Inr full \<Rightarrow>
                   (let b = take (MaxMsgSize + 1) full in
                    if length b > MaxMsgSize then Inl DohTooLarge
                    else (case lib_Unpack lib b of
                      None \<Rightarrow> Inl UnpackFailed
                    | Some answer \<Rightarrow> Inr (answer, net_Elapsed net i))))))"

section \<open>The direct path\<close>

text \<open>
  The result of one attempt: the loop variables \<open>err\<close>, \<open>resp\<close>, \<open>rtt\<close> and whether the loop ends.
  On the network, attempt \<open>i\<close> is call \<open>2 i\<close>, its fallback to TCP call \<open>2 i + 1\<close>.
\<close>

type_synonym attempt = "(exch_error option \<times> dns_msg option \<times> duration) \<times> bool"

definition direct_attempt ::
  "net_env \<Rightarrow> dns_lib \<Rightarrow> upstream_manager \<Rightarrow> upstream_instance \<Rightarrow> string \<Rightarrow> dns_msg \<Rightarrow> nat \<Rightarrow> attempt" where
  "direct_attempt net lib m upstream protocol msg i =
     (if protocol = ''https'' then
        (case exchangeDoH net lib m (directDial net (2 * i)) upstream msg (2 * i) of
           Inl e \<Rightarrow> ((Some e, None, 0), False)
         | Inr (r, rtt) \<Rightarrow> ((None, Some r, rtt), True))
      else
        (let tlsName = (if protocol = ''tcp-tls'' \<and> ui_ServerName upstream \<noteq> []
                        then Some (ui_ServerName upstream) else None) in
         case net_Exchange net protocol tlsName (ui_Addr upstream) msg (2 * i) of
           (Inl e, rtt) \<Rightarrow> ((Some (ExchangeFailed e), None, rtt), False)
         | (Inr r, rtt) \<Rightarrow>
             (case r of
                None \<Rightarrow> ((None, None, rtt), True)
              | Some x \<Rightarrow>
                  if m_Truncated x \<and> protocol = ''udp'' then
                    (case net_Exchange net ''tcp'' None (ui_Addr upstream) msg (2 * i + 1) of
                       (Inl e, rtt') \<Rightarrow> ((Some (ExchangeFailed e), None, rtt'), False)
                     | (Inr r', rtt') \<Rightarrow> ((None, r', rtt'), True))
                  else ((None, Some x, rtt), True))))"

fun direct_loop ::
  "(nat \<Rightarrow> attempt) \<Rightarrow> nat \<Rightarrow> nat \<Rightarrow> exch_error option \<times> dns_msg option \<times> duration
   \<Rightarrow> exch_error option \<times> dns_msg option \<times> duration" where
  "direct_loop f i 0 st = st"
| "direct_loop f i (Suc left) st =
     (case f i of (st', stop) \<Rightarrow> if stop then st' else direct_loop f (Suc i) left st')"

definition exchangeDirect ::
  "net_env \<Rightarrow> dns_lib \<Rightarrow> byte list \<Rightarrow> upstream_manager \<Rightarrow> upstream_instance option \<Rightarrow> dns_query
   \<Rightarrow> exch_error + dns_response option" where
  "exchangeDirect net lib token m upstream query =
     (case upstream of
        None \<Rightarrow> Inr None
      | Some u \<Rightarrow>
          (let msg = build_query lib token query;
               protocol = or_else (ui_Protocol u) ''udp'' in
           case direct_loop (direct_attempt net lib m u protocol msg) 0 2 (None, None, 0) of
             (Some e, _, _) \<Rightarrow> Inl e
           | (None, None, _) \<Rightarrow> Inr None
           | (None, Some resp, rtt) \<Rightarrow> map_sum id Some (wrap_response lib u query resp rtt)))"

section \<open>Through a SOCKS5 proxy\<close>

definition resolveProxyAddr :: "upstream_manager \<Rightarrow> string \<Rightarrow> string" where
  "resolveProxyAddr m proxyTag =
     (let known = (if proxyTag = ''proxy'' then ''127.0.0.1:1080'' else []) in
      case um_proxyAddrResolver m of
        None \<Rightarrow> known
      | Some resolver \<Rightarrow> if resolver proxyTag \<noteq> [] then resolver proxyTag else known)"

definition str_bytes :: "string \<Rightarrow> byte list" where
  "str_bytes s = map (\<lambda>c. word_of_nat (of_char c)) s"

definition socks_target :: "net_env \<Rightarrow> string \<Rightarrow> string \<times> nat" where
  "socks_target net targetAddr =
     (let (host, portStr) = (case SplitHostPort targetAddr of
            None \<Rightarrow> (targetAddr, ''53'') | Some hp \<Rightarrow> hp)
      in (host, case net_LookupPort net portStr of None \<Rightarrow> 53 | Some p \<Rightarrow> p))"

definition socks_request :: "string \<Rightarrow> nat \<Rightarrow> byte list" where
  "socks_request host port =
     (let ip = ParseIP host in
      (if ip \<noteq> [] then
         (if To4 ip \<noteq> [] then [5, 1, 0, 1] @ To4 ip else [5, 1, 0, 4] @ To16 ip)
       else [5, 1, 0, 3, word_of_nat (length host)] @ str_bytes host)
      @ [word_of_nat (port div 256), word_of_nat port])"

text \<open>A read buffer is zero beyond what was read.\<close>

definition buf_at :: "byte list \<Rightarrow> nat \<Rightarrow> byte" where
  "buf_at b i = (if i < length b then b ! i else 0)"

definition dns_over_conn ::
  "dns_lib \<Rightarrow> byte list \<Rightarrow> conn \<Rightarrow> exch_error + dns_msg" where
  "dns_over_conn lib packed c =
     (case conn_write (tcp_frame packed) c of
        None \<Rightarrow> Inl WriteFailed
      | Some c1 \<Rightarrow>
          (case read_frame (cn_Reads c1) of
             None \<Rightarrow> Inl ReadFailed
           | Some (respData, _) \<Rightarrow>
               (case lib_Unpack lib respData of None \<Rightarrow> Inl UnpackFailed | Some m \<Rightarrow> Inr m)))"

definition exchangeViaSocks5 ::
  "net_env \<Rightarrow> dns_lib \<Rightarrow> string \<Rightarrow> string \<Rightarrow> dns_msg \<Rightarrow> nat \<Rightarrow> exch_error + dns_msg" where
  "exchangeViaSocks5 net lib proxyAddr targetAddr msg i =
     (case net_Dial net proxyAddr i of
        Inl e \<Rightarrow> Inl (DialFailed e)
      | Inr c0 \<Rightarrow>
          (case conn_write [5, 1, 0] c0 of
             None \<Rightarrow> Inl WriteFailed
           | Some c1 \<Rightarrow>
               (case conn_read 2 c1 of
                  None \<Rightarrow> Inl ReadFailed
                | Some (b, c2) \<Rightarrow>
                    if buf_at b 0 \<noteq> 5 then Inl (SocksVersion (buf_at b 0))
                    else
                      (let (host, port) = socks_target net targetAddr in
                       case conn_write (socks_request host port) c2 of
                         None \<Rightarrow> Inl WriteFailed
                       | Some c3 \<Rightarrow>
                           (case conn_read 256 c3 of
                              None \<Rightarrow> Inl ReadFailed
                            | Some (r, c4) \<Rightarrow>
                                if length r < 2 \<or> buf_at r 0 \<noteq> 5 \<or> buf_at r 1 \<noteq> 0
                                then Inl (SocksRefused (buf_at r 0) (buf_at r 1))
                                else (case lib_Pack lib msg of
                                  None \<Rightarrow> Inl PackFailed
                                | Some packed \<Rightarrow> dns_over_conn lib packed c4))))))"

definition exchangeViaProxy ::
  "net_env \<Rightarrow> dns_lib \<Rightarrow> byte list \<Rightarrow> upstream_manager \<Rightarrow> upstream_instance option \<Rightarrow> dns_query
   \<Rightarrow> exch_error + dns_response option" where
  "exchangeViaProxy net lib token m upstream query =
     (case upstream of
        None \<Rightarrow> Inr None
      | Some u \<Rightarrow>
          (let proxyAddr = resolveProxyAddr m (ui_ProxyTag u) in
           if proxyAddr = [] then
             exchangeDirect net lib token m
               (Some \<lparr>ui_ID = [], ui_Addr = ui_Addr u, ui_Protocol = ''tcp'', ui_ProxyTag = ''direct'',
                 ui_ClientNet = Some ''tcp'', ui_Healthy = False, ui_Bootstrap = False,
                 ui_ServerName = []\<rparr>) query
           else
             (let msg = build_query lib token query in
              case exchangeViaSocks5 net lib proxyAddr (ui_Addr u) msg 0 of
                Inr r \<Rightarrow> map_sum id Some (wrap_response lib u query r (net_Elapsed net 0))
              | Inl _ \<Rightarrow>
                  (case exchangeViaSocks5 net lib proxyAddr (ui_Addr u) msg 1 of
                     Inl e \<Rightarrow> Inl e
                   | Inr r \<Rightarrow> map_sum id Some (wrap_response lib u query r (net_Elapsed net 1))))))"

section \<open>Through the dispatcher\<close>

definition exchangeViaDispatcher ::
  "net_env \<Rightarrow> dns_lib \<Rightarrow> byte list \<Rightarrow> upstream_manager \<Rightarrow> upstream_instance option \<Rightarrow> dns_query
   \<Rightarrow> exch_error + dns_response option" where
  "exchangeViaDispatcher net lib token m upstream query =
     (case upstream of
        None \<Rightarrow> Inr None
      | Some u \<Rightarrow>
          if \<not> um_dispatcher m then Inr None
          else
            (let msg = build_query lib token query in
             if ui_Protocol u = ''https'' then
               (case exchangeDoH net lib m (dispatch_dial net (ui_ProxyTag u)) u msg 0 of
                  Inl e \<Rightarrow> Inl e
                | Inr (resp, rtt) \<Rightarrow> map_sum id Some (wrap_response lib u query resp rtt))
             else
               (case lib_Pack lib msg of
                  None \<Rightarrow> Inl PackFailed
                | Some packed \<Rightarrow>
                    (case dispatch_dial net (ui_ProxyTag u) (ui_Addr u) of
                       Inl e \<Rightarrow> Inl (DialFailed e)
                     | Inr c \<Rightarrow>
                         (case (if ui_Protocol u = ''tcp-tls'' then
                                  tlsOver net c
                                    (if ui_ServerName u = []
                                     then (case SplitHostPort (ui_Addr u) of
                                             None \<Rightarrow> [] | Some (h, _) \<Rightarrow> h)
                                     else ui_ServerName u)
                                else Inr c) of
                            Inl e \<Rightarrow> Inl (TLSFailed e)
                          | Inr c' \<Rightarrow>
                              (case dns_over_conn lib packed c' of
                                 Inl e \<Rightarrow> Inl e
                               | Inr resp \<Rightarrow>
                                   map_sum id Some (wrap_response lib u query resp (net_Elapsed net 0))))))))"

section \<open>Dispatch over the paths\<close>

definition Exchange ::
  "net_env \<Rightarrow> dns_lib \<Rightarrow> byte list \<Rightarrow> upstream_manager \<Rightarrow> upstream_instance option \<Rightarrow> dns_query
   \<Rightarrow> exch_error + dns_response option" where
  "Exchange net lib token m upstream query =
     (case upstream of
        None \<Rightarrow> Inr None
      | Some u \<Rightarrow>
          if ui_ProxyTag u \<noteq> [] \<and> ui_ProxyTag u \<noteq> ''direct'' then
            if um_dispatcher m then exchangeViaDispatcher net lib token m upstream query
            else exchangeViaProxy net lib token m upstream query
          else exchangeDirect net lib token m upstream query)"

definition pingUpstream :: "net_env \<Rightarrow> dns_lib \<Rightarrow> upstream_instance \<Rightarrow> bool" where
  "pingUpstream net lib u =
     (case ui_ClientNet u of
        None \<Rightarrow> False
      | Some protocol \<Rightarrow>
          \<not> isl (fst (net_Exchange net protocol None (ui_Addr u)
             ((lib_SetQuestion lib new_msg ''.'' TypeSOA)\<lparr>m_RecursionDesired := True\<rparr>) 0)))"

definition ExchangeRaw ::
  "net_env \<Rightarrow> dns_lib \<Rightarrow> byte list \<Rightarrow> upstream_instance option \<Rightarrow> dns_msg option
   \<Rightarrow> exch_error + dns_msg option" where
  "ExchangeRaw net lib token upstream msg =
     (case (upstream, msg) of
        (None, _) \<Rightarrow> Inl NilUpstream
      | (Some u, None) \<Rightarrow> Inl NilRawMessage
      | (Some u, Some m0) \<Rightarrow>
          (let protocol = or_else (ui_Protocol u) ''udp''; m = markOutgoing lib token m0 in
           case fst (net_Exchange net protocol None (ui_Addr u) m 0) of
             Inl e \<Rightarrow> Inl (ExchangeFailed e)
           | Inr r \<Rightarrow>
               (case r of
                  Some x \<Rightarrow>
                    if m_Truncated x \<and> protocol = ''udp'' then
                      (case fst (net_Exchange net ''tcp'' None (ui_Addr u) m 1) of
                         Inl e \<Rightarrow> Inl (ExchangeFailed e)
                       | Inr r' \<Rightarrow> Inr r')
                    else Inr r
                | None \<Rightarrow> Inr None)))"

end
