(* ===== verification/Dns_Upstream_Correct.thy ===== *)
theory Dns_Upstream_Correct
  imports Dns_Upstream Dns_Message_Correct
begin

text \<open>
  What holds of the exchange with upstreams: whatever the path, only a validated answer to the
  question asked is returned; retries and the fallback to TCP; framing independent of segmentation;
  the SOCKS5 request as its receiver decodes it; one OPT record in every query sent; the lookups of
  the manager. \<open>query_laws\<close> names what is relied on of the message package.
\<close>

section \<open>Only validated answers\<close>

text \<open>An answer to a query: sound, for the question asked, wrapped without change.\<close>

definition answers :: "dns_lib \<Rightarrow> dns_query \<Rightarrow> dns_msg \<Rightarrow> dns_response \<Rightarrow> bool" where
  "answers lib query m r \<longleftrightarrow>
     sound_response m
     \<and> (\<exists>q qs. m_Question m = q # qs \<and> qn_Name q = lib_Fqdn lib (q_Name query)
          \<and> qn_Qtype q = q_QType query)
     \<and> dr_RawMsg r = Some m \<and> dr_Query r = query \<and> dr_Rcode r = m_Rcode m
     \<and> dr_Answer r = m_Answer m \<and> dr_Authority r = m_Ns m \<and> dr_Additional r = m_Extra m
     \<and> dr_TTL r = min_ttl (m_Answer m) \<and> \<not> dr_Cached r"

lemma ValidateQuestionMatch_None:
  "ValidateQuestionMatch lib (Some m) n t = None \<longleftrightarrow>
   (\<exists>q qs. m_Question m = q # qs \<and> qn_Name q = lib_Fqdn lib n \<and> qn_Qtype q = t)"
  by (cases "m_Question m") (simp_all add: ValidateQuestionMatch_def)

lemma wrap_response_Inr:
  assumes "wrap_response lib u query m rtt = Inr r"
  shows "answers lib query m r" and "dr_Upstream r = ui_Addr u" and "dr_ProxyTag r = ui_ProxyTag u"
proof -
  from assms have v: "ValidateResponse (Some m) = None"
    "ValidateQuestionMatch lib (Some m) (q_Name query) (q_QType query) = None"
    by (auto simp: wrap_response_def split: option.splits)
  with assms have r: "r = \<lparr>dr_Query = query, dr_RawMsg = Some m, dr_Rcode = m_Rcode m,
                    dr_Answer = m_Answer m, dr_Authority = m_Ns m,
                    dr_Additional = m_Extra m, dr_TTL = min_ttl (m_Answer m),
                    dr_Upstream = ui_Addr u, dr_ProxyTag = ui_ProxyTag u,
                    dr_RTT = rtt, dr_Cached = False\<rparr>"
    by (simp add: wrap_response_def)
  show "answers lib query m r" "dr_Upstream r = ui_Addr u" "dr_ProxyTag r = ui_ProxyTag u"
    using v unfolding answers_def ValidateResponse_None ValidateQuestionMatch_None by (simp_all add: r)
qed

lemma map_sum_Inr_iff: "map_sum id Some x = Inr (Some y) \<longleftrightarrow> x = Inr y"
  by (cases x) simp_all

lemma exchangeDirect_Inr:
  assumes "exchangeDirect net lib token mgr (Some u) query = Inr (Some r)"
  obtains m rtt where "wrap_response lib u query m rtt = Inr r"
    "direct_loop (direct_attempt net lib mgr u (or_else (ui_Protocol u) ''udp'')
        (build_query lib token query)) 0 2 (None, None, 0) = (None, Some m, rtt)"
  using assms by (auto simp: exchangeDirect_def Let_def map_sum_Inr_iff split: prod.splits option.splits)

lemma exchangeViaProxy_Inr:
  assumes "exchangeViaProxy net lib token mgr (Some u) query = Inr (Some r)"
  shows "\<exists>u' m rtt. wrap_response lib u' query m rtt = Inr r \<and> ui_Addr u' = ui_Addr u
    \<and> (ui_ProxyTag u' = ui_ProxyTag u
       \<or> ui_ProxyTag u' = ''direct'' \<and> resolveProxyAddr mgr (ui_ProxyTag u) = [])"
proof (cases "resolveProxyAddr mgr (ui_ProxyTag u) = []")
  case True
  let ?u = "\<lparr>ui_ID = [], ui_Addr = ui_Addr u, ui_Protocol = ''tcp'', ui_ProxyTag = ''direct'',
     ui_ClientNet = Some ''tcp'', ui_Healthy = False, ui_Bootstrap = False, ui_ServerName = []\<rparr>"
  have "exchangeDirect net lib token mgr (Some ?u) query = Inr (Some r)"
    using assms True by (simp add: exchangeViaProxy_def)
  then obtain m rtt where "wrap_response lib ?u query m rtt = Inr r" by (rule exchangeDirect_Inr)
  with True show ?thesis by (intro exI [of _ ?u] exI [of _ m] exI [of _ rtt]) simp
next
  case False
  with assms show ?thesis
    by (auto simp: exchangeViaProxy_def Let_def map_sum_Inr_iff split: sum.splits intro!: exI [of _ u])
qed

lemma exchangeViaDispatcher_Inr:
  assumes "exchangeViaDispatcher net lib token mgr (Some u) query = Inr (Some r)"
  shows "\<exists>m rtt. wrap_response lib u query m rtt = Inr r"
  using assms
  by (auto simp: exchangeViaDispatcher_def Let_def map_sum_Inr_iff
      split: sum.splits if_splits option.splits prod.splits)

lemma Exchange_Inr:
  assumes "Exchange net lib token mgr (Some u) query = Inr (Some r)"
  shows "\<exists>u' m rtt. wrap_response lib u' query m rtt = Inr r \<and> ui_Addr u' = ui_Addr u
    \<and> (ui_ProxyTag u' = ui_ProxyTag u
       \<or> ui_ProxyTag u' = ''direct'' \<and> resolveProxyAddr mgr (ui_ProxyTag u) = [])"
proof -
  consider "exchangeViaDispatcher net lib token mgr (Some u) query = Inr (Some r)"
    | "exchangeViaProxy net lib token mgr (Some u) query = Inr (Some r)"
    | "exchangeDirect net lib token mgr (Some u) query = Inr (Some r)"
    using assms by (auto simp: Exchange_def split: if_splits)
  then show ?thesis
  proof cases
    case 1
    from exchangeViaDispatcher_Inr [OF 1] show ?thesis by blast
  next
    case 2
    then show ?thesis by (rule exchangeViaProxy_Inr)
  next
    case 3
    then obtain m rtt where "wrap_response lib u query m rtt = Inr r" by (rule exchangeDirect_Inr)
    then show ?thesis by blast
  qed
qed

text \<open>
  (C13) Whatever the path to an upstream (direct, SOCKS5 proxy, dispatcher, HTTPS), an answer is
  handed on only after it was found sound and for the name and type asked; it carries the message
  unchanged with the smallest answer TTL, and it is attributed to the upstream and its proxy tag, or
  to \<open>direct\<close> only where the tag has no proxy address.
\<close>

theorem exchange_validated:
  assumes "Exchange net lib token mgr (Some u) query = Inr (Some r)"
  shows "\<exists>m. answers lib query m r \<and> dr_Upstream r = ui_Addr u
    \<and> (dr_ProxyTag r = ui_ProxyTag u
       \<or> dr_ProxyTag r = ''direct'' \<and> resolveProxyAddr mgr (ui_ProxyTag u) = [])"
  using Exchange_Inr [OF assms] wrap_response_Inr by metis

section \<open>Attempts\<close>

lemma direct_loop_2: "direct_loop f 0 2 st = (if snd (f 0) then fst (f 0) else fst (f 1))"
  by (simp add: numeral_2_eq_2 split: prod.split)

lemma direct_attempt_stop:
  "snd (direct_attempt net lib mgr u protocol msg i)
   \<longleftrightarrow> fst (fst (direct_attempt net lib mgr u protocol msg i)) = None"
  by (simp add: direct_attempt_def Let_def split: sum.split prod.split option.split)

text \<open>
  A direct query fails for a reason of transport only after two failed attempts.
\<close>

theorem direct_fails_after_two:
  assumes "exchangeDirect net lib token mgr (Some u) query = Inl e"
  shows "(\<exists>v. e = InvalidResponse v \<or> e = QuestionMismatch v)
    \<or> (\<forall>i<2. fst (fst (direct_attempt net lib mgr u (or_else (ui_Protocol u) ''udp'')
          (build_query lib token query) i)) \<noteq> None)"
proof -
  let ?f = "direct_attempt net lib mgr u (or_else (ui_Protocol u) ''udp'') (build_query lib token query)"
  let ?st = "if snd (?f 0) then fst (?f 0) else fst (?f 1)"
  consider "fst ?st \<noteq> None" | m rtt where "wrap_response lib u query m rtt = Inl e"
    using assms unfolding exchangeDirect_def option.case Let_def direct_loop_2
    by (cases ?st) (auto split: option.splits simp: map_sum_def split: sum.splits)
  then show ?thesis
  proof cases
    case 1
    then have "fst (fst (?f 0)) \<noteq> None \<and> fst (fst (?f 1)) \<noteq> None"
      using direct_attempt_stop [of net lib mgr u "or_else (ui_Protocol u) ''udp''"
          "build_query lib token query" 0] by (auto split: if_splits)
    then show ?thesis by (auto simp: less_2_cases_iff)
  next
    case 2
    then show ?thesis by (auto simp: wrap_response_def split: option.splits)
  qed
qed

lemma direct_attempt_truncated:
  assumes "fst (direct_attempt net lib mgr u ''udp'' msg i) = (None, Some m, rtt)" and "m_Truncated m"
  shows "net_Exchange net ''tcp'' None (ui_Addr u) msg (2 * i + 1) = (Inr (Some m), rtt)"
  using assms by (auto simp: direct_attempt_def split: prod.splits sum.splits option.splits if_splits)

text \<open>
  A truncated answer of a UDP upstream is never handed on: where the returned message has
  the TC bit, it is what the fallback to TCP returned.
\<close>

theorem truncated_only_from_tcp:
  assumes "exchangeDirect net lib token mgr (Some u) query = Inr (Some r)"
    and "ui_Protocol u = ''udp'' \<or> ui_Protocol u = []"
    and "dr_RawMsg r = Some m" and "m_Truncated m"
  shows "\<exists>i<2. \<exists>rtt. net_Exchange net ''tcp'' None (ui_Addr u) (build_query lib token query) (2 * i + 1)
    = (Inr (Some m), rtt)"
proof -
  let ?f = "direct_attempt net lib mgr u ''udp'' (build_query lib token query)"
  obtain m' rtt where m': "wrap_response lib u query m' rtt = Inr r"
    "direct_loop (direct_attempt net lib mgr u (or_else (ui_Protocol u) ''udp'')
        (build_query lib token query)) 0 2 (None, None, 0) = (None, Some m', rtt)"
    using assms(1) by (rule exchangeDirect_Inr)
  have "m' = m" using wrap_response_Inr(1) [OF m'(1)] assms(3) by (simp add: answers_def)
  moreover have "or_else (ui_Protocol u) ''udp'' = ''udp''" using assms(2) by (auto simp: or_else_def)
  ultimately have "fst (?f 0) = (None, Some m, rtt) \<or> fst (?f 1) = (None, Some m, rtt)"
    using m'(2) unfolding direct_loop_2 by (auto split: if_splits)
  then obtain i where "i < 2" "fst (?f i) = (None, Some m, rtt)"
    by (auto intro: that [of 0] that [of 1])
  with direct_attempt_truncated [OF _ assms(4)] show ?thesis by blast
qed


section \<open>Frames and requests on the wire\<close>

lemma read_full_enough:
  "k \<le> length (concat chs) \<Longrightarrow>
   \<exists>r. read_full k chs = Some (take k (concat chs), r) \<and> concat r = drop k (concat chs)"
proof (induction k chs rule: read_full.induct)
  case (2 k ch rest)
  show ?case
  proof (cases "k = 0 \<or> k < length ch")
    case True
    then show ?thesis by auto
  next
    case False
    moreover have "k - length ch \<le> length (concat rest)" using "2.prems" by simp
    ultimately obtain r where "read_full (k - length ch) rest
        = Some (take (k - length ch) (concat rest), r)" "concat r = drop (k - length ch) (concat rest)"
      using "2.IH" by blast
    with False show ?thesis by auto
  qed
qed simp

lemma unat_byte: "unat (word_of_nat n :: byte) = n mod 256"
  by (simp add: unat_of_nat)

lemma frame_roundtrip:
  assumes "length p < 65536" and "concat chunks = tcp_frame p @ rest"
  shows "\<exists>r. read_frame chunks = Some (p, r) \<and> concat r = rest"
proof -
  from assms(2) obtain r where r: "read_full 2 chunks = Some (take 2 (tcp_frame p), r)"
    "concat r = p @ rest"
    using read_full_enough [of 2 chunks] by (auto simp: tcp_frame_def numeral_2_eq_2)
  have "length p div 256 mod 256 = length p div 256" using assms(1) by simp
  then have "unat (tcp_frame p ! 0) * 256 + unat (tcp_frame p ! 1) = length p"
    by (simp add: tcp_frame_def unat_byte)
  then have len: "unat (take 2 (tcp_frame p) ! 0) * 256 + unat (take 2 (tcp_frame p) ! 1) = length p"
    by simp
  from read_full_enough [of "length p" r] r(2) obtain r' where
    "read_full (length p) r = Some (p, r')" "concat r' = rest" by auto
  with r(1) len assms(1) show ?thesis by (simp add: read_frame_def)
qed

text \<open>
  A framed message is read back whole however the stream is cut into segments, and what
  follows it stays unread.
\<close>

theorem tcp_frame_roundtrip:
  assumes "length p < 65536" and "concat chunks = tcp_frame p @ rest"
  shows "\<exists>r. read_frame chunks = Some (p, r) \<and> concat r = rest"
  using assms by (rule frame_roundtrip)

text \<open>A SOCKS5 connect request as its receiver reads it (RFC 1928).\<close>

datatype socks_addr = SocksIP ip | SocksName "byte list"

definition port_of :: "byte list \<Rightarrow> nat option" where
  "port_of b = (case b of [x, y] \<Rightarrow> Some (unat x * 256 + unat y) | _ \<Rightarrow> None)"

definition socks_decode :: "byte list \<Rightarrow> (socks_addr \<times> nat) option" where
  "socks_decode b =
     (case b of
        ver # cmd # rsv # atyp # body \<Rightarrow>
          if ver \<noteq> 5 \<or> cmd \<noteq> 1 then None
          else if atyp = 1 then map_option (Pair (SocksIP (take 4 body))) (port_of (drop 4 body))
          else if atyp = 4 then map_option (Pair (SocksIP (take 16 body))) (port_of (drop 16 body))
          else if atyp = 3 then
            (case body of
               n # name \<Rightarrow> map_option (Pair (SocksName (take (unat n) name))) (port_of (drop (unat n) name))
             | [] \<Rightarrow> None)
          else None
      | _ \<Rightarrow> None)"

definition socks_meant :: "string \<Rightarrow> socks_addr" where
  "socks_meant host =
     (if ParseIP host = [] then SocksName (str_bytes host)
      else SocksIP (if To4 (ParseIP host) = [] then ParseIP host else To4 (ParseIP host)))"

lemma port_bytes: "port < 65536 \<Longrightarrow> port_of [word_of_nat (port div 256), word_of_nat port] = Some port"
  by (simp add: port_of_def unat_byte)

lemma ParseIP_length: "ParseIP s \<noteq> [] \<Longrightarrow> length (ParseIP s) = 16"
  by (auto simp: ParseIP_def To16_def v4InV6Prefix_def split: option.splits if_splits prod.splits)

lemma To4_length: "To4 x \<noteq> [] \<Longrightarrow> length (To4 x) = 4"
  by (auto simp: To4_def split: if_splits)

text \<open>
  The SOCKS5 request names the host and port it was built for, as RFC 1928 decodes it, for
  every IP address and every name of at most 255 bytes.
\<close>

theorem socks_request_roundtrip:
  assumes "ParseIP host = [] \<longrightarrow> length host < 256" and "port < 65536"
  shows "socks_decode (socks_request host port) = Some (socks_meant host, port)"
proof -
  let ?p = "[word_of_nat (port div 256), word_of_nat port] :: byte list"
  note pb = port_bytes [OF assms(2)]
  consider "ParseIP host = []" | "ParseIP host \<noteq> []" "To4 (ParseIP host) \<noteq> []"
    | "ParseIP host \<noteq> []" "To4 (ParseIP host) = []" by blast
  then show ?thesis
  proof cases
    case 1
    then have "unat (word_of_nat (length host) :: byte) = length (str_bytes host)"
      using assms(1) by (simp add: unat_byte str_bytes_def)
    with 1 pb show ?thesis by (simp add: socks_request_def socks_decode_def socks_meant_def)
  next
    case 2
    with To4_length [OF 2(2)] pb show ?thesis
      by (simp add: socks_request_def socks_decode_def socks_meant_def Let_def)
  next
    case 3
    with ParseIP_length [OF 3(1)] have "To16 (ParseIP host) = ParseIP host" by (simp add: To16_def)
    with 3 ParseIP_length [OF 3(1)] pb show ?thesis
      by (simp add: socks_request_def socks_decode_def socks_meant_def Let_def)
  qed
qed

text \<open>
  An https upstream that is reached through a SOCKS5 proxy has its URL split as host and
  port: the connection is requested to the host \<open>https\<close>, port 53.
\<close>

theorem socks_url_target:
  assumes "net_LookupPort net ''//dns.google/dns-query'' = None"
  shows "socks_target net ''https://dns.google/dns-query'' = (''https'', 53)"
  using assms by (simp add: socks_target_def SplitHostPort_def split_last_def)

section \<open>The query sent\<close>

text \<open>
  Further documented behaviour of the message package: \<open>SetQuestion\<close> sets the question section and
  leaves the additional section, \<open>SetUDPSize\<close> changes the payload size of an OPT record only.
\<close>

definition query_laws :: "dns_lib \<Rightarrow> bool" where
  "query_laws lib \<longleftrightarrow>
     edns_laws lib
     \<and> (\<forall>m n t. m_Extra (lib_SetQuestion lib m n t) = m_Extra m
          \<and> m_Question (lib_SetQuestion lib m n t) = [\<lparr>qn_Name = n, qn_Qtype = t, qn_Qclass = 1\<rparr>])
     \<and> (\<forall>h os sz. \<exists>h'. h_Rrtype h' = h_Rrtype h
          \<and> lib_SetUDPSize lib (RR h (RD_OPT os)) sz = RR h' (RD_OPT os))"

lemma IsEdns0_single:
  assumes "edns_laws lib" and "m_Extra m = [r]" and "is_opt r"
  shows "lib_IsEdns0 lib m = Some 0"
proof -
  have "lib_IsEdns0 lib m \<noteq> None" by (simp add: IsEdns0_None [OF assms(1)] assms(2,3))
  then obtain i where i: "lib_IsEdns0 lib m = Some i" by auto
  from IsEdns0_Some [OF assms(1) i] assms(2) have "i = 0" by simp
  with i show ?thesis by simp
qed

lemma markOutgoing_single:
  assumes "edns_laws lib" and "m_Extra m = [RR h (RD_OPT [])]" and "h_Rrtype h = TypeOPT"
  shows "markOutgoing lib token m
    = m\<lparr>m_Extra := [RR h (RD_OPT [EDNS0_LOCAL loopOptionCode token])]\<rparr>"
  using IsEdns0_single [OF assms(1,2)] assms(2,3) by (simp add: markOutgoing_def update_extra_def)

lemma AddECSSubnet_single:
  assumes "query_laws lib" and "m_Extra m = [RR h (RD_OPT os)]" and "h_Rrtype h = TypeOPT"
    and "x \<noteq> []"
  shows "\<exists>h'. h_Rrtype h' = TypeOPT
    \<and> AddECSSubnet lib x m = m\<lparr>m_Extra := [RR h' (RD_OPT (os @ [ecs_option x]))]\<rparr>"
proof -
  have e: "edns_laws lib" using assms(1) unfolding query_laws_def by blast
  obtain h' where "h_Rrtype h' = h_Rrtype h" "lib_SetUDPSize lib (RR h (RD_OPT os)) 4096 = RR h' (RD_OPT os)"
    using assms(1) unfolding query_laws_def by blast
  then show ?thesis using IsEdns0_single [OF e assms(2)] assms(2-)
    by (intro exI [of _ h']) (simp add: AddECSSubnet_def AddEDNS0_def update_extra_def)
qed

text \<open>
  Every query sent upstream has exactly one OPT record, with the loop token as its first
  option, followed by the client subnet exactly when the client address is globally routable, and it
  asks the question of the query.
\<close>

theorem query_one_opt:
  assumes "query_laws lib"
  shows "\<exists>h. h_Rrtype h = TypeOPT
    \<and> m_Extra (build_query lib token query)
      = [RR h (RD_OPT (EDNS0_LOCAL loopOptionCode token
           # (if shouldAttachECS (q_ClientIP query) then [ecs_option (q_ClientIP query)] else [])))]
    \<and> m_Question (build_query lib token query)
      = [\<lparr>qn_Name = lib_Fqdn lib (q_Name query), qn_Qtype = q_QType query, qn_Qclass = 1\<rparr>]"
proof -
  have e: "edns_laws lib" using assms unfolding query_laws_def by blast
  define m1 where "m1 = (lib_SetQuestion lib new_msg (lib_Fqdn lib (q_Name query)) (q_QType query))
    \<lparr>m_RecursionDesired := True\<rparr>"
  have m1: "m_Extra m1 = []" "m_Question m1
      = [\<lparr>qn_Name = lib_Fqdn lib (q_Name query), qn_Qtype = q_QType query, qn_Qclass = 1\<rparr>]"
    using assms unfolding query_laws_def by (simp_all add: m1_def new_msg_def)
  obtain h where h: "h_Rrtype h = TypeOPT"
    "lib_SetEdns0 lib m1 4096 True = m1\<lparr>m_Extra := m_Extra m1 @ [RR h (RD_OPT [])]\<rparr>"
    using e by (rule SetEdns0_obtain)
  define m3 where "m3 = m1\<lparr>m_Extra := [RR h (RD_OPT [EDNS0_LOCAL loopOptionCode token])]\<rparr>"
  have m3: "markOutgoing lib token (lib_SetEdns0 lib m1 4096 True) = m3"
    using markOutgoing_single [OF e, of "lib_SetEdns0 lib m1 4096 True" h] h m1(1)
    by (simp add: m3_def)
  have b: "build_query lib token query
      = (if shouldAttachECS (q_ClientIP query) then AddECSSubnet lib (q_ClientIP query) m3 else m3)"
    unfolding build_query_def Let_def m1_def [symmetric] m3 by simp
  show ?thesis
  proof (cases "shouldAttachECS (q_ClientIP query)")
    case True
    then have "q_ClientIP query \<noteq> []" by (simp add: shouldAttachECS_def)
    with AddECSSubnet_single [OF assms, of m3 h "[EDNS0_LOCAL loopOptionCode token]"] h(1) obtain h' where "h_Rrtype h' = TypeOPT"
      "AddECSSubnet lib (q_ClientIP query) m3 = m3\<lparr>m_Extra := [RR h' (RD_OPT
         ([EDNS0_LOCAL loopOptionCode token] @ [ecs_option (q_ClientIP query)]))]\<rparr>"
      by (auto simp: m3_def)
    with True m1 show ?thesis by (intro exI [of _ h']) (simp add: b m3_def)
  next
    case False
    with h(1) m1 show ?thesis by (intro exI [of _ h]) (simp add: b m3_def)
  qed
qed

section \<open>The manager\<close>

definition manager_wf :: "upstream_manager \<Rightarrow> bool" where
  "manager_wf m \<longleftrightarrow> ran (um_upstreams m) \<union> ran (um_upstreamsByID m) \<subseteq> {..<length (um_cells m)}"

lemma manager_wf_add: "manager_wf m \<Longrightarrow> manager_wf (add_instance u m)"
  by (fastforce simp: manager_wf_def add_instance_def ran_def split: if_splits)

lemma manager_wf_new: "manager_wf (NewUpstreamManager configs)"
  by (induction configs rule: rev_induct)
    (simp_all add: NewUpstreamManager_def manager_wf_add, simp add: manager_wf_def empty_manager_def)

definition cfg_id :: "upstream_config \<Rightarrow> string" where
  "cfg_id c = or_else (uc_ID c) (uc_Addr c)"

definition cfg_key :: "upstream_config \<Rightarrow> string" where
  "cfg_key c = BuildUpstreamKey (uc_Addr c) (or_else (uc_ProxyTag c) ''direct'')"

lemma manager_indices:
  "map_option ((!) (um_cells (NewUpstreamManager configs))) (um_upstreamsByID (NewUpstreamManager configs) i)
     = map_option instance_of (find (\<lambda>c. cfg_id c = i) (rev configs))
   \<and> map_option ((!) (um_cells (NewUpstreamManager configs))) (um_upstreams (NewUpstreamManager configs) i)
     = map_option instance_of (find (\<lambda>c. cfg_key c = i) (rev configs))"
proof (induction configs rule: rev_induct)
  case Nil
  show ?case by (simp add: NewUpstreamManager_def empty_manager_def)
next
  case (snoc c configs)
  let ?m = "NewUpstreamManager configs"
  have m: "NewUpstreamManager (configs @ [c]) = add_instance (instance_of c) ?m"
    by (simp add: NewUpstreamManager_def)
  have lt: "x < length (um_cells ?m)"
    if "um_upstreamsByID ?m i = Some x \<or> um_upstreams ?m i = Some x" for x
    using manager_wf_new [of configs] that by (auto simp: manager_wf_def ran_def)
  have app: "map_option ((!) (um_cells ?m @ [u])) o' = map_option ((!) (um_cells ?m)) o'"
    if "o' = um_upstreamsByID ?m i \<or> o' = um_upstreams ?m i" for o' u
    using lt that by (cases o') (auto simp: nth_append)
  have "ui_ID (instance_of c) = cfg_id c" "CompositeKey (instance_of c) = cfg_key c"
    by (simp_all add: instance_of_def cfg_id_def cfg_key_def CompositeKey_def)
  with snoc app show ?case by (auto simp: m add_instance_def)
qed

text \<open>
  An upstream is found by its id, the last configured one winning, an empty id being the
  address; otherwise by the composite key of address and proxy tag.
\<close>

theorem manager_lookup:
  "map_option ((!) (um_cells (NewUpstreamManager configs))) (GetUpstream (NewUpstreamManager configs) i)
   = map_option instance_of
       (case find (\<lambda>c. cfg_id c = i) (rev configs) of
          Some c \<Rightarrow> Some c
        | None \<Rightarrow> find (\<lambda>c. cfg_key c = i) (rev configs))"
  using manager_indices [of configs i]
  by (cases "um_upstreamsByID (NewUpstreamManager configs) i")
    (auto simp: GetUpstream_def split: option.splits)

lemma BuildUpstreamKey_inj:
  assumes "BuildUpstreamKey a t = BuildUpstreamKey a' t'"
    and "CHR ''|'' \<notin> set t" and "CHR ''|'' \<notin> set t'"
  shows "a = a' \<and> t = t'"
proof -
  have "split_last CHR ''|'' (a @ CHR ''|'' # t) = split_last CHR ''|'' (a' @ CHR ''|'' # t')"
    using assms(1) by (simp add: BuildUpstreamKey_def)
  with assms(2,3) show ?thesis by (simp add: split_last_snoc)
qed

text \<open>
  The instance under a composite key has exactly the address and the proxy tag of the key:
  one server reached through two proxy channels is two instances.
\<close>

theorem channels_separate:
  assumes "GetUpstreamByKey (NewUpstreamManager configs) (BuildUpstreamKey a t) = Some i"
    and "\<forall>c\<in>set configs. CHR ''|'' \<notin> set (uc_ProxyTag c)" and "CHR ''|'' \<notin> set t"
  shows "ui_Addr (um_cells (NewUpstreamManager configs) ! i) = a
    \<and> ui_ProxyTag (um_cells (NewUpstreamManager configs) ! i) = t"
proof -
  from assms(1) manager_indices [of configs "BuildUpstreamKey a t"] obtain c where
    c: "find (\<lambda>c. cfg_key c = BuildUpstreamKey a t) (rev configs) = Some c"
    "um_cells (NewUpstreamManager configs) ! i = instance_of c"
    by (cases "find (\<lambda>c. cfg_key c = BuildUpstreamKey a t) (rev configs)")
      (auto simp: GetUpstreamByKey_def)
  from find_Some_conv [OF c(1)] have "c \<in> set configs" "cfg_key c = BuildUpstreamKey a t" by auto
  with assms(2,3) have "uc_Addr c = a \<and> or_else (uc_ProxyTag c) ''direct'' = t"
    by (intro BuildUpstreamKey_inj) (auto simp: cfg_key_def or_else_def)
  with c(2) show ?thesis by (simp add: instance_of_def)
qed

text \<open>
  A health check of one proxy channel writes the outcome of the ping into the instances of
  that channel and reports it, and leaves the instances of other channels alone.
\<close>

theorem health_by_tag:
  assumes "manager_wf m" and "HealthCheckByProxyTag tag ping m = (results, m')"
    and "um_upstreams m k = Some i"
  shows "um_cells m' ! i = (if ui_ProxyTag (um_cells m ! i) = tag
           then (um_cells m ! i)\<lparr>ui_Healthy := ping (um_cells m ! i)\<rparr> else um_cells m ! i)
    \<and> results k = (if ui_ProxyTag (um_cells m ! i) = tag then Some (ping (um_cells m ! i)) else None)"
proof -
  have "i \<in> ran (um_upstreams m)" "i < length (um_cells m)"
    using assms(1,3) by (auto simp: manager_wf_def ran_def)
  with assms show ?thesis
    by (auto simp: HealthCheckByProxyTag_def health_update_def health_results_def Let_def)
qed

text \<open>
  The HTTP client of an https upstream whose host was bootstrapped dials that address and the
  same port, IPv6 addresses included, while TLS is still spoken with the name of the host: no name
  of an upstream is looked up on the way.
\<close>

theorem bootstrap_dials_ip:
  assumes "SplitHostPort addr = Some (host, port)" and "um_bootstrapIPs m host = Some addr'"
    and "addr' \<noteq> []" and "plain_host addr'" and "plain_port port"
  shows "\<exists>target. SplitHostPort target = Some (addr', port)
    \<and> dohClient net m dial addr
        = (case dial target of Inl e \<Rightarrow> Inl e | Inr raw \<Rightarrow> net_TLS net host raw)"
  using assms by (intro exI [of _ "JoinHostPort addr' port"])
    (simp add: dohClient_def dialTarget_def Split_Join_HostPort split: sum.split)


section \<open>Concrete exchanges\<close>

lemma ref_lib_query: "query_laws ref_lib"
proof -
  have "\<exists>h'. h_Rrtype h' = h_Rrtype h
      \<and> lib_SetUDPSize ref_lib (RR h (RD_OPT os)) sz = RR h' (RD_OPT os)" for h os sz
    by (rule exI [of _ "h\<lparr>h_Class := sz\<rparr>"]) (simp add: ref_lib_def)
  moreover have "m_Extra (lib_SetQuestion ref_lib m n t) = m_Extra m
      \<and> m_Question (lib_SetQuestion ref_lib m n t) = [\<lparr>qn_Name = n, qn_Qtype = t, qn_Qclass = 1\<rparr>]" for m n t
    by (simp add: ref_lib_def)
  ultimately show ?thesis using ref_lib_edns unfolding query_laws_def by blast
qed

definition sample_upq :: dns_query where
  "sample_upq = \<lparr>q_Name = ''a'', q_QType = TypeA, q_QClass = 1, q_ClientIP = [8, 8, 4, 4],
     q_IsBootstrap = False\<rparr>"

definition sample_cfg :: "string \<Rightarrow> string \<Rightarrow> upstream_config" where
  "sample_cfg i tag = \<lparr>uc_ID = i, uc_Addr = ''9.9.9.9:53'', uc_Protocol = [], uc_ProxyTag = tag,
     uc_Bootstrap = False, uc_ServerName = []\<rparr>"

text \<open>A network whose UDP answer is truncated and whose TCP answer is not reached, or never answers.\<close>

definition sample_net :: "bool \<Rightarrow> net_env" where
  "sample_net up = \<lparr>net_Exchange = (\<lambda>p s a m i. if \<not> up then (Inl ''timeout'', 0)
       else (Inr (Some (sample_msg\<lparr>m_Truncated := True\<rparr>)), 7)),
     net_HTTP = (\<lambda>d u b i. Inl ''no''), net_Dial = (\<lambda>a i. Inl ''no''), net_Dispatch = (\<lambda>a t i. Inl ''no''),
     net_TLS = (\<lambda>n c. Inl ''no''), net_LookupPort = (\<lambda>s. None), net_Elapsed = (\<lambda>i. 1)\<rparr>"

definition sample_answer :: dns_response where
  "sample_answer = \<lparr>dr_Query = sample_upq, dr_RawMsg = Some (sample_msg\<lparr>m_Truncated := True\<rparr>),
     dr_Rcode = 0, dr_Answer = m_Answer sample_msg, dr_Authority = [],
     dr_Additional = m_Extra sample_msg, dr_TTL = 60, dr_Upstream = ''9.9.9.9:53'',
     dr_ProxyTag = ''direct'', dr_RTT = 7, dr_Cached = False\<rparr>"

lemma sample_sound: "ValidateResponse (Some (sample_msg\<lparr>m_Truncated := True\<rparr>)) = None"
  by (simp add: ValidateResponse_def sample_msg_def new_msg_def qtype_defs validateRcode_def new_opt_def)

lemma sample_wrap:
  "wrap_response ref_lib (instance_of (sample_cfg ''q'' [])) sample_upq
     (sample_msg\<lparr>m_Truncated := True\<rparr>) 7 = Inr sample_answer"
proof -
  have q: "ValidateQuestionMatch ref_lib (Some (sample_msg\<lparr>m_Truncated := True\<rparr>)) (q_Name sample_upq)
      (q_QType sample_upq) = None"
    by (simp add: ValidateQuestionMatch_def sample_msg_def ref_lib_def ref_Fqdn_def sample_upq_def suffix_def)
  show ?thesis
    unfolding wrap_response_def sample_sound q option.case
    by (simp add: sample_answer_def sample_msg_def new_msg_def min_ttl_def instance_of_def sample_cfg_def
        or_else_def)
qed

lemma sample_direct:
  "exchangeDirect (sample_net True) ref_lib [1] mgr (Some (instance_of (sample_cfg ''q'' []))) sample_upq
   = Inr (Some sample_answer)"
proof -
  have "direct_attempt (sample_net True) ref_lib mgr (instance_of (sample_cfg ''q'' [])) ''udp'' msg 0
      = ((None, Some (sample_msg\<lparr>m_Truncated := True\<rparr>), 7), True)" for msg
    by (simp add: direct_attempt_def sample_net_def)
  moreover have "or_else (ui_Protocol (instance_of (sample_cfg ''q'' []))) ''udp'' = ''udp''"
    by (simp add: instance_of_def sample_cfg_def or_else_def)
  ultimately show ?thesis by (simp add: exchangeDirect_def Let_def direct_loop_2 sample_wrap)
qed

theorem exchange_validated_witness:
  "\<exists>m. answers ref_lib sample_upq m sample_answer
    \<and> dr_Upstream sample_answer = ui_Addr (instance_of (sample_cfg ''q'' []))
    \<and> (dr_ProxyTag sample_answer = ui_ProxyTag (instance_of (sample_cfg ''q'' []))
       \<or> dr_ProxyTag sample_answer = ''direct''
         \<and> resolveProxyAddr empty_manager (ui_ProxyTag (instance_of (sample_cfg ''q'' []))) = [])"
proof (rule exchange_validated)
  have "ui_ProxyTag (instance_of (sample_cfg ''q'' [])) = ''direct''"
    by (simp add: instance_of_def sample_cfg_def or_else_def)
  then show "Exchange (sample_net True) ref_lib [1] empty_manager
      (Some (instance_of (sample_cfg ''q'' []))) sample_upq = Inr (Some sample_answer)"
    by (simp add: Exchange_def sample_direct)
qed

theorem truncated_only_from_tcp_witness:
  "\<exists>i<2. \<exists>rtt. net_Exchange (sample_net True) ''tcp'' None (ui_Addr (instance_of (sample_cfg ''q'' [])))
     (build_query ref_lib [1] sample_upq) (2 * i + 1) = (Inr (Some (sample_msg\<lparr>m_Truncated := True\<rparr>)), rtt)"
  by (rule truncated_only_from_tcp [OF sample_direct])
    (simp_all add: instance_of_def sample_cfg_def or_else_def sample_answer_def)

theorem direct_fails_after_two_witness:
  "(\<exists>v. ExchangeFailed ''timeout'' = InvalidResponse v \<or> ExchangeFailed ''timeout'' = QuestionMismatch v)
    \<or> (\<forall>i<2. fst (fst (direct_attempt (sample_net False) ref_lib empty_manager (instance_of (sample_cfg ''q'' []))
          (or_else (ui_Protocol (instance_of (sample_cfg ''q'' []))) ''udp'')
          (build_query ref_lib [1] sample_upq) i)) \<noteq> None)"
  by (rule direct_fails_after_two)
    (simp add: exchangeDirect_def direct_loop_2 direct_attempt_def sample_net_def instance_of_def
      sample_cfg_def or_else_def)

theorem tcp_frame_roundtrip_witness:
  "\<exists>r. read_frame [[0], [3, 7], [8, 9, 1]] = Some ([7, 8, 9], r) \<and> concat r = [1]"
  by (rule tcp_frame_roundtrip) (simp_all add: tcp_frame_def)

theorem socks_request_roundtrip_witness:
  "socks_decode (socks_request ''1.2.3.4'' 53) = Some (SocksIP [1, 2, 3, 4], 53)
   \<and> socks_decode (socks_request ''ns'' 853) = Some (SocksName [110, 115], 853)"
proof -
  have "ParseIP ''1.2.3.4'' = v4InV6Prefix @ [1, 2, 3, 4]" "ParseIP ''ns'' = []"
    by (simp_all add: parse_simps To16_def)
  then show ?thesis
    using socks_request_roundtrip [of "''1.2.3.4''" 53] socks_request_roundtrip [of "''ns''" 853]
    by (simp add: socks_meant_def To4_def v4InV6Prefix_def str_bytes_def)
qed

theorem socks_url_target_witness:
  "socks_target (sample_net True) ''https://dns.google/dns-query'' = (''https'', 53)"
  by (rule socks_url_target) (simp add: sample_net_def)

theorem query_one_opt_witness:
  "\<exists>h. h_Rrtype h = TypeOPT
    \<and> m_Extra (build_query ref_lib [1] sample_upq)
      = [RR h (RD_OPT (EDNS0_LOCAL loopOptionCode [1]
           # (if shouldAttachECS (q_ClientIP sample_upq) then [ecs_option (q_ClientIP sample_upq)] else [])))]
    \<and> m_Question (build_query ref_lib [1] sample_upq)
      = [\<lparr>qn_Name = lib_Fqdn ref_lib (q_Name sample_upq), qn_Qtype = q_QType sample_upq, qn_Qclass = 1\<rparr>]"
  by (rule query_one_opt [OF ref_lib_query])

lemma sample_by_key:
  "GetUpstreamByKey (NewUpstreamManager [sample_cfg ''q'' [], sample_cfg ''r'' ''proxy''])
     (BuildUpstreamKey ''9.9.9.9:53'' ''proxy'') = Some 1"
  by (simp add: GetUpstreamByKey_def NewUpstreamManager_def add_instance_def instance_of_def
      CompositeKey_def sample_cfg_def or_else_def empty_manager_def)

theorem channels_separate_witness:
  "ui_Addr (um_cells (NewUpstreamManager [sample_cfg ''q'' [], sample_cfg ''r'' ''proxy'']) ! 1) = ''9.9.9.9:53''
   \<and> ui_ProxyTag (um_cells (NewUpstreamManager [sample_cfg ''q'' [], sample_cfg ''r'' ''proxy'']) ! 1) = ''proxy''"
  by (rule channels_separate [OF sample_by_key]) (simp_all add: sample_cfg_def)

theorem health_by_tag_witness:
  "um_cells (snd (HealthCheckByProxyTag ''proxy'' (\<lambda>u. False)
       (NewUpstreamManager [sample_cfg ''q'' [], sample_cfg ''r'' ''proxy'']))) ! 1
     = (um_cells (NewUpstreamManager [sample_cfg ''q'' [], sample_cfg ''r'' ''proxy'']) ! 1)\<lparr>ui_Healthy := False\<rparr>"
  using health_by_tag [OF manager_wf_new surjective_pairing sample_by_key [unfolded GetUpstreamByKey_def],
      of "''proxy''" "\<lambda>u. False"]
  by (simp add: NewUpstreamManager_def add_instance_def instance_of_def sample_cfg_def or_else_def
      empty_manager_def)

theorem bootstrap_dials_ip_witness:
  "\<exists>target. SplitHostPort target = Some (''8.8.8.8'', ''443'')
    \<and> dohClient (sample_net True) (empty_manager\<lparr>um_bootstrapIPs := [''dns.google'' \<mapsto> ''8.8.8.8'']\<rparr>)
        (directDial (sample_net True) 0) ''dns.google:443''
        = (case directDial (sample_net True) 0 target of
             Inl e \<Rightarrow> Inl e | Inr raw \<Rightarrow> net_TLS (sample_net True) ''dns.google'' raw)"
  by (rule bootstrap_dials_ip)
    (simp_all add: SplitHostPort_def split_last_def plain_host_def plain_port_def)

end
