(* ===== verification/Dns_Metrics.thy ===== *)
theory Dns_Metrics
  imports Dns_Types
begin

text \<open>
  Metrics of the DNS module, \<open>core/dns/metrics.go\<close>. Every method is one atomic step; counters are
  unbounded integers.
\<close>

record upstream_metrics =
  um_Queries :: int
  um_Successes :: int
  um_Errors :: int
  um_AvgRTT :: duration
  um_MinRTT :: duration
  um_MaxRTT :: duration
  um_LastQuery :: time

record dns_metrics =
  dm_TotalQueries :: int
  dm_TotalResponses :: int
  dm_TotalErrors :: int
  dm_TotalTimeouts :: int
  dm_QueriesByType :: "query_type \<rightharpoonup> int"
  dm_QueriesByUpstream :: "string \<rightharpoonup> upstream_metrics"
  dm_ErrorsByUpstream :: "string \<rightharpoonup> int"
  dm_HitsByRule :: "string \<rightharpoonup> int"
  dm_CacheHits :: int
  dm_CacheMisses :: int
  dm_CacheEvictions :: int
  dm_PrefetchCount :: int
  dm_LatencyBuckets :: "(string \<times> int) list"
  dm_RoutedQueries :: int
  dm_RejectedQueries :: int
  dm_BypassedQueries :: int
  dm_startedAt :: time

definition bucket_labels :: "string list" where
  "bucket_labels = [''<1ms'', ''1-5ms'', ''5-10ms'', ''10-50ms'', ''50-200ms'', ''200ms+'']"

definition NewDnsMetrics :: "time \<Rightarrow> dns_metrics" where
  "NewDnsMetrics now =
     \<lparr>dm_TotalQueries = 0, dm_TotalResponses = 0, dm_TotalErrors = 0, dm_TotalTimeouts = 0,
      dm_QueriesByType = Map.empty, dm_QueriesByUpstream = Map.empty,
      dm_ErrorsByUpstream = Map.empty, dm_HitsByRule = Map.empty, dm_CacheHits = 0,
      dm_CacheMisses = 0, dm_CacheEvictions = 0, dm_PrefetchCount = 0,
      dm_LatencyBuckets = map (\<lambda>l. (l, 0)) bucket_labels, dm_RoutedQueries = 0,
      dm_RejectedQueries = 0, dm_BypassedQueries = 0, dm_startedAt = now\<rparr>"

definition MaxInt64 :: int where "MaxInt64 = 2 ^ 63 - 1"

definition new_upstream_metrics :: upstream_metrics where
  "new_upstream_metrics = \<lparr>um_Queries = 0, um_Successes = 0, um_Errors = 0, um_AvgRTT = 0,
     um_MinRTT = MaxInt64, um_MaxRTT = 0, um_LastQuery = 0\<rparr>"

text \<open>\<open>getOrCreateUpstreamMetrics\<close> followed by an update under the lock of the entry.\<close>

definition update_upstream ::
  "string \<Rightarrow> (upstream_metrics \<Rightarrow> upstream_metrics) \<Rightarrow> dns_metrics \<Rightarrow> dns_metrics" where
  "update_upstream upstream f m =
     m\<lparr>dm_QueriesByUpstream := (dm_QueriesByUpstream m)(upstream \<mapsto>
        f (case dm_QueriesByUpstream m upstream of None \<Rightarrow> new_upstream_metrics | Some u \<Rightarrow> u))\<rparr>"

definition bump :: "'k \<Rightarrow> ('k \<rightharpoonup> int) \<Rightarrow> ('k \<rightharpoonup> int)" where
  "bump k c = c(k \<mapsto> (case c k of None \<Rightarrow> 0 | Some n \<Rightarrow> n) + 1)"

definition RecordQuery :: "time \<Rightarrow> dns_query \<Rightarrow> string \<Rightarrow> dns_metrics \<Rightarrow> dns_metrics" where
  "RecordQuery now query upstream m =
     (let m1 = m\<lparr>dm_TotalQueries := dm_TotalQueries m + 1,
                 dm_QueriesByType := bump (q_QType query) (dm_QueriesByType m)\<rparr>
      in if upstream \<noteq> []
         then update_upstream upstream
                (\<lambda>u. u\<lparr>um_Queries := um_Queries u + 1, um_LastQuery := now\<rparr>) m1
         else m1)"

fun bump_nth :: "nat \<Rightarrow> (string \<times> int) list \<Rightarrow> (string \<times> int) list" where
  "bump_nth i bs = bs[i := (fst (bs ! i), snd (bs ! i) + 1)]"

definition latency_bucket :: "duration \<Rightarrow> nat" where
  "latency_bucket rtt =
     (let ms = quot rtt millisecond in
      if ms < 1 then 0 else if ms \<le> 5 then 1 else if ms \<le> 10 then 2
      else if ms \<le> 50 then 3 else if ms \<le> 200 then 4 else 5)"

definition recordLatency :: "duration \<Rightarrow> dns_metrics \<Rightarrow> dns_metrics" where
  "recordLatency rtt m =
     m\<lparr>dm_LatencyBuckets := bump_nth (latency_bucket rtt) (dm_LatencyBuckets m)\<rparr>"

definition record_rtt :: "duration \<Rightarrow> upstream_metrics \<Rightarrow> upstream_metrics" where
  "record_rtt rtt u =
     (let u1 = u\<lparr>um_Successes := um_Successes u + 1\<rparr> in
      if rtt > 0 then
        u1\<lparr>um_AvgRTT := (if um_AvgRTT u1 = 0 then rtt else quot (wrap64 (um_AvgRTT u1 * 2 + rtt)) 3),
           um_MinRTT := (if rtt < um_MinRTT u1 then rtt else um_MinRTT u1),
           um_MaxRTT := (if rtt > um_MaxRTT u1 then rtt else um_MaxRTT u1)\<rparr>
      else u1)"

definition RecordResponse :: "dns_response \<Rightarrow> duration \<Rightarrow> dns_metrics \<Rightarrow> dns_metrics" where
  "RecordResponse resp rtt m =
     (let m1 = recordLatency rtt (m\<lparr>dm_TotalResponses := dm_TotalResponses m + 1\<rparr>)
      in if dr_Upstream resp \<noteq> [] then update_upstream (dr_Upstream resp) (record_rtt rtt) m1 else m1)"

definition RecordError :: "string \<Rightarrow> dns_metrics \<Rightarrow> dns_metrics" where
  "RecordError upstream m =
     (let m1 = m\<lparr>dm_TotalErrors := dm_TotalErrors m + 1\<rparr>
      in if upstream \<noteq> []
         then update_upstream upstream (\<lambda>u. u\<lparr>um_Errors := um_Errors u + 1\<rparr>)
                (m1\<lparr>dm_ErrorsByUpstream := bump upstream (dm_ErrorsByUpstream m1)\<rparr>)
         else m1)"

definition RecordTimeout :: "string \<Rightarrow> dns_metrics \<Rightarrow> dns_metrics" where
  "RecordTimeout upstream m = RecordError upstream (m\<lparr>dm_TotalTimeouts := dm_TotalTimeouts m + 1\<rparr>)"

definition RecordCacheHit :: "dns_metrics \<Rightarrow> dns_metrics" where
  "RecordCacheHit m = m\<lparr>dm_CacheHits := dm_CacheHits m + 1\<rparr>"

definition RecordCacheMiss :: "dns_metrics \<Rightarrow> dns_metrics" where
  "RecordCacheMiss m = m\<lparr>dm_CacheMisses := dm_CacheMisses m + 1\<rparr>"

definition RecordCacheEviction :: "dns_metrics \<Rightarrow> dns_metrics" where
  "RecordCacheEviction m = m\<lparr>dm_CacheEvictions := dm_CacheEvictions m + 1\<rparr>"

definition RecordPrefetch :: "dns_metrics \<Rightarrow> dns_metrics" where
  "RecordPrefetch m = m\<lparr>dm_PrefetchCount := dm_PrefetchCount m + 1\<rparr>"

definition RecordRuleHit :: "string \<Rightarrow> dns_metrics \<Rightarrow> dns_metrics" where
  "RecordRuleHit ruleID m =
     (if ruleID = [] then m else m\<lparr>dm_HitsByRule := bump ruleID (dm_HitsByRule m)\<rparr>)"

definition RecordAction :: "string \<Rightarrow> dns_metrics \<Rightarrow> dns_metrics" where
  "RecordAction action m =
     (if action = ''route'' then m\<lparr>dm_RoutedQueries := dm_RoutedQueries m + 1\<rparr>
      else if action = ''reject'' then m\<lparr>dm_RejectedQueries := dm_RejectedQueries m + 1\<rparr>
      else if action = ''bypass'' then m\<lparr>dm_BypassedQueries := dm_BypassedQueries m + 1\<rparr>
      else m)"

definition Metrics_Reset :: "time \<Rightarrow> dns_metrics \<Rightarrow> dns_metrics" where
  "Metrics_Reset now m =
     \<lparr>dm_TotalQueries = 0, dm_TotalResponses = 0, dm_TotalErrors = 0, dm_TotalTimeouts = 0,
      dm_QueriesByType = Map.empty, dm_QueriesByUpstream = Map.empty,
      dm_ErrorsByUpstream = Map.empty, dm_HitsByRule = Map.empty, dm_CacheHits = 0,
      dm_CacheMisses = 0, dm_CacheEvictions = 0, dm_PrefetchCount = 0,
      dm_LatencyBuckets = map (\<lambda>(l, n). (l, 0)) (dm_LatencyBuckets m), dm_RoutedQueries = 0,
      dm_RejectedQueries = 0, dm_BypassedQueries = 0, dm_startedAt = now\<rparr>"

end
