(* ===== verification/Dns_Handler.thy ===== *)
theory Dns_Handler
  imports Dns_Cache Dns_Rule Dns_Upstream Dns_Metrics
begin

text \<open>
  The query handler, \<open>core/dns/handler.go\<close>, over the parts of the module it uses. The clock is a
  function \<open>clk\<close> of the reading: 0 for the metrics, 1 for the cache lookup, 2 for the prefetch
  decision, 3 and 4 around the exchange, 5 for storing. A prefetch that the handler starts in a new
  goroutine is queued in \<open>ms_Pending\<close> and runs as a step of its own.
\<close>

section \<open>State\<close>

record dns_stats =
  st_TotalQueries :: int
  st_RoutedQueries :: "string \<rightharpoonup> int"
  st_RejectedQueries :: int
  st_BypassedQueries :: int
  st_CacheHits :: int
  st_CacheMisses :: int
  st_AvgRTT :: duration
  st_StartedAt :: time

definition new_stats :: "time \<Rightarrow> dns_stats" where
  "new_stats now = \<lparr>st_TotalQueries = 0, st_RoutedQueries = Map.empty, st_RejectedQueries = 0,
     st_BypassedQueries = 0, st_CacheHits = 0, st_CacheMisses = 0, st_AvgRTT = 0,
     st_StartedAt = now\<rparr>"

record prefetch_job =
  pj_Upstream :: "upstream_instance option"
  pj_Query :: dns_query
  pj_Key :: cache_key

record module_state =
  ms_Upstreams :: "upstream_config list"
  ms_Router :: "router option"
  ms_UpstreamMgr :: "upstream_manager option"
  ms_Cache :: "dns_cache option"
  ms_Metrics :: "dns_metrics option"
  ms_Stats :: dns_stats
  ms_Pending :: "prefetch_job list"

type_synonym clock = "nat \<Rightarrow> time"

text \<open>The outside of the module: the network, the message package, the loop token of the process.\<close>

record world =
  w_net :: net_env
  w_lib :: dns_lib
  w_token :: "byte list"

datatype handler_error =
    ContextCancelled
  | UpstreamError exch_error
  | BypassError exch_error

datatype handler_result = Answered dns_response | Failed handler_error | Panicked

section \<open>Helpers\<close>

definition map_metrics :: "(dns_metrics \<Rightarrow> dns_metrics) \<Rightarrow> module_state \<Rightarrow> module_state" where
  "map_metrics f s = s\<lparr>ms_Metrics := map_option f (ms_Metrics s)\<rparr>"

definition map_cache :: "(dns_cache \<Rightarrow> dns_cache) \<Rightarrow> module_state \<Rightarrow> module_state" where
  "map_cache f s = s\<lparr>ms_Cache := map_option f (ms_Cache s)\<rparr>"

definition map_stats :: "(dns_stats \<Rightarrow> dns_stats) \<Rightarrow> module_state \<Rightarrow> module_state" where
  "map_stats f s = s\<lparr>ms_Stats := f (ms_Stats s)\<rparr>"

definition buildCacheKey :: "dns_query \<Rightarrow> upstream_instance option \<Rightarrow> cache_key" where
  "buildCacheKey query upstream =
     \<lparr>ck_UpstreamAddr = (case upstream of None \<Rightarrow> [] | Some u \<Rightarrow> ui_Addr u),
      ck_ProxyTag = (case upstream of
         Some u \<Rightarrow> if ui_ProxyTag u \<noteq> [] then ui_ProxyTag u else ''direct'' | None \<Rightarrow> ''direct''),
      ck_Name = q_Name query, ck_QType = q_QType query\<rparr>"

definition buildStubResponse :: "dns_lib \<Rightarrow> dns_query \<Rightarrow> dns_response" where
  "buildStubResponse lib query =
     \<lparr>dr_Query = query,
      dr_RawMsg = Some ((lib_SetQuestion lib new_msg (q_Name query) (q_QType query))
        \<lparr>m_Response := True, m_RecursionAvailable := True, m_Rcode := RcodeSuccess\<rparr>),
      dr_Rcode = RcodeSuccess, dr_Answer = [], dr_Authority = [], dr_Additional = [], dr_TTL = 0,
      dr_Upstream = ''stub'', dr_ProxyTag = ''direct'', dr_RTT = 0, dr_Cached = False\<rparr>"

definition buildRefused :: "dns_lib \<Rightarrow> dns_query \<Rightarrow> dns_response" where
  "buildRefused lib query =
     \<lparr>dr_Query = query,
      dr_RawMsg = Some ((lib_SetQuestion lib new_msg (q_Name query) (q_QType query))
        \<lparr>m_Response := True, m_Rcode := RcodeRefused\<rparr>),
      dr_Rcode = RcodeRefused, dr_Answer = [], dr_Authority = [], dr_Additional = [], dr_TTL = 0,
      dr_Upstream = [], dr_ProxyTag = [], dr_RTT = 0, dr_Cached = False\<rparr>"

text \<open>The product is one of \<open>int64\<close> and wraps.\<close>

definition updateAvgRTT :: "duration \<Rightarrow> duration \<Rightarrow> int \<Rightarrow> duration" where
  "updateAvgRTT current sample count =
     (if count \<le> 1 then sample
      else wrap64 (quot (wrap64 (current * (count - 1))) count + quot sample count))"

section \<open>Choosing the upstream\<close>

definition get_instance :: "upstream_manager \<Rightarrow> string \<Rightarrow> upstream_instance option" where
  "get_instance m i = map_option ((!) (um_cells m)) (GetUpstream m i)"

text \<open>An upstream of the configuration by its id, else by its address.\<close>

definition get_configured :: "upstream_manager \<Rightarrow> upstream_config \<Rightarrow> upstream_instance option" where
  "get_configured m u =
     (case get_instance m (uc_ID u) of Some x \<Rightarrow> Some x | None \<Rightarrow> get_instance m (uc_Addr u))"

definition first_non_bootstrap ::
  "upstream_manager \<Rightarrow> upstream_config list \<Rightarrow> upstream_instance option" where
  "first_non_bootstrap m ups =
     (case find (\<lambda>u. \<not> uc_Bootstrap u) ups of None \<Rightarrow> None | Some u \<Rightarrow> get_configured m u)"

definition route_upstream :: "module_state \<Rightarrow> string \<Rightarrow> upstream_instance option" where
  "route_upstream s upstreamID =
     (case ms_UpstreamMgr s of
        None \<Rightarrow> None
      | Some m \<Rightarrow>
          (case (if upstreamID \<noteq> [] then get_instance m upstreamID else None) of
             Some u \<Rightarrow> Some u
           | None \<Rightarrow>
               (case first_non_bootstrap m (ms_Upstreams s) of
                  Some u \<Rightarrow> Some u
                | None \<Rightarrow>
                    (case ms_Upstreams s of [] \<Rightarrow> None | u # _ \<Rightarrow> get_configured m u))))"

definition bypass_upstream :: "module_state \<Rightarrow> string \<Rightarrow> upstream_instance option" where
  "bypass_upstream s upstreamID =
     (case ms_UpstreamMgr s of
        None \<Rightarrow> None
      | Some m \<Rightarrow>
          (case (if upstreamID \<noteq> [] then get_instance m upstreamID else None) of
             Some u \<Rightarrow> Some u
           | None \<Rightarrow> first_non_bootstrap m (ms_Upstreams s)))"

section \<open>The three actions\<close>

definition record_decision ::
  "time \<Rightarrow> dns_query \<Rightarrow> string \<Rightarrow> string \<Rightarrow> string \<Rightarrow> dns_metrics \<Rightarrow> dns_metrics" where
  "record_decision now query upstreamID action ruleID m =
     (let m1 = RecordAction action (RecordQuery now query upstreamID m)
      in if ruleID \<noteq> [] then RecordRuleHit ruleID m1 else m1)"

definition routed :: "string \<Rightarrow> dns_stats \<Rightarrow> dns_stats" where
  "routed upstreamID st = st\<lparr>st_RoutedQueries := bump upstreamID (st_RoutedQueries st)\<rparr>"

definition with_rtt :: "duration \<Rightarrow> dns_stats \<Rightarrow> dns_stats" where
  "with_rtt rtt st = st\<lparr>st_AvgRTT := updateAvgRTT (st_AvgRTT st) rtt (st_TotalQueries st)\<rparr>"

text \<open>A cache miss, or no cache: ask the upstream and store the answer.\<close>

definition route_exchange ::
  "world \<Rightarrow> clock \<Rightarrow> dns_query \<Rightarrow> string \<Rightarrow> upstream_manager \<Rightarrow> upstream_instance \<Rightarrow> module_state
   \<Rightarrow> handler_result \<times> module_state" where
  "route_exchange w clk query upstreamID m u s =
     (let rtt = clk 4 - clk 3 in
      case Exchange (w_net w) (w_lib w) (w_token w) m (Some u) query of
        Inl e \<Rightarrow>
          (Failed (UpstreamError e),
           map_metrics (RecordError upstreamID) (map_stats (routed upstreamID) s))
      | Inr None \<Rightarrow> (Answered (buildStubResponse (w_lib w) query), s)
      | Inr (Some resp) \<Rightarrow>
          (let s1 = (if q_IsBootstrap query then s
                     else map_cache (DnsCache_Set (clk 5) (buildCacheKey query (Some u))
                            (Some resp) (dr_TTL resp)) s);
               s2 = map_stats (\<lambda>st. with_rtt rtt (routed upstreamID st)) s1
           in (Answered resp, map_metrics (RecordResponse resp rtt) s2)))"

definition handleRoute ::
  "world \<Rightarrow> clock \<Rightarrow> dns_query \<Rightarrow> route_result \<Rightarrow> module_state \<Rightarrow> handler_result \<times> module_state" where
  "handleRoute w clk query result s =
     (let upstreamID = rr_UpstreamID result in
      case (route_upstream s upstreamID, ms_UpstreamMgr s) of
        (Some u, Some m) \<Rightarrow>
          (let cacheKey = buildCacheKey query (Some u);
               s1 = map_metrics (record_decision (clk 0) query upstreamID ''route'' (rr_RuleID result)) s in
           case ms_Cache s1 of
             None \<Rightarrow> route_exchange w clk query upstreamID m u s1
           | Some cache \<Rightarrow>
               (case DnsCache_Get (clk 1) cacheKey cache of
                  (Miss, c') \<Rightarrow>
                    (let s2 = map_stats (\<lambda>st. st\<lparr>st_CacheMisses := st_CacheMisses st + 1\<rparr>)
                                (s1\<lparr>ms_Cache := Some c'\<rparr>)
                     in route_exchange w clk query upstreamID m u (map_metrics RecordCacheMiss s2))
                | (NilPanic, c') \<Rightarrow> (Panicked, s1\<lparr>ms_Cache := Some c'\<rparr>)
                | (Hit cached, c') \<Rightarrow>
                    (let s2 = map_stats (\<lambda>st. st\<lparr>st_CacheHits := st_CacheHits st + 1\<rparr>)
                                (s1\<lparr>ms_Cache := Some c'\<rparr>);
                         s3 = map_metrics RecordCacheHit s2
                     in (Answered cached,
                         if DnsCache_ShouldPrefetch (clk 2) cacheKey c'
                         then (map_cache (DnsCache_SetPrefetching cacheKey True) s3)
                                \<lparr>ms_Pending := ms_Pending s3 @
                                  [\<lparr>pj_Upstream = Some u, pj_Query = query, pj_Key = cacheKey\<rparr>]\<rparr>
                         else s3))))
      | _ \<Rightarrow> (Answered (buildStubResponse (w_lib w) query), s))"

definition handleReject ::
  "world \<Rightarrow> clock \<Rightarrow> dns_query \<Rightarrow> route_result \<Rightarrow> module_state \<Rightarrow> handler_result \<times> module_state" where
  "handleReject w clk query result s =
     (Answered (buildRefused (w_lib w) query),
      map_metrics (record_decision (clk 0) query [] ''reject'' (rr_RuleID result))
        (map_stats (\<lambda>st. st\<lparr>st_RejectedQueries := st_RejectedQueries st + 1\<rparr>) s))"

definition handleBypass ::
  "world \<Rightarrow> clock \<Rightarrow> dns_query \<Rightarrow> route_result \<Rightarrow> module_state \<Rightarrow> handler_result \<times> module_state" where
  "handleBypass w clk query result s =
     (let s1 = map_stats (\<lambda>st. st\<lparr>st_BypassedQueries := st_BypassedQueries st + 1\<rparr>) s in
      case (bypass_upstream s1 (rr_UpstreamID result), ms_UpstreamMgr s1) of
        (Some u, Some m) \<Rightarrow>
          (let s2 = map_metrics (record_decision (clk 0) query (rr_UpstreamID result) ''bypass''
                      (rr_RuleID result)) s1;
               rtt = clk 4 - clk 3 in
           case Exchange (w_net w) (w_lib w) (w_token w) m (Some u) query of
             Inl e \<Rightarrow> (Failed (BypassError e), map_metrics (RecordError (rr_UpstreamID result)) s2)
           | Inr None \<Rightarrow> (Answered (buildStubResponse (w_lib w) query), s2)
           | Inr (Some resp) \<Rightarrow>
               (Answered resp,
                map_metrics (RecordResponse resp rtt)
                  (map_stats (\<lambda>st. with_rtt rtt (routed (ui_ID u) st)) s2)))
      | _ \<Rightarrow> (Answered (buildStubResponse (w_lib w) query), s1))"

section \<open>Queries and prefetches\<close>

text \<open>
  \<open>HandleQuery\<close>: \<open>cancelled\<close> says whether the context is done. A handler without a module is
  \<open>None\<close> and answers with a stub.
\<close>

definition HandleQuery ::
  "world \<Rightarrow> clock \<Rightarrow> bool \<Rightarrow> dns_query \<Rightarrow> module_state option \<Rightarrow> handler_result \<times> module_state option" where
  "HandleQuery w clk cancelled query modul =
     (if cancelled then (Failed ContextCancelled, modul)
      else case modul of
        None \<Rightarrow> (Answered (buildStubResponse (w_lib w) query), None)
      | Some s \<Rightarrow>
          (let s1 = map_stats (\<lambda>st. st\<lparr>st_TotalQueries := st_TotalQueries st + 1\<rparr>) s;
               result = (case ms_Router s1 of
                   Some r \<Rightarrow> Route r query
                 | None \<Rightarrow> \<lparr>rr_UpstreamID = [], rr_UpstreamAddr = [], rr_Action = ''route'',
                            rr_RuleID = [], rr_Policy = ''single'', rr_ProxyTag = []\<rparr>)
           in map_prod id Some
                (if rr_Action result = ''reject'' then handleReject w clk query result s1
                 else if rr_Action result = ''bypass'' then handleBypass w clk query result s1
                 else handleRoute w clk query result s1)))"

definition prefetchAsync :: "world \<Rightarrow> clock \<Rightarrow> prefetch_job \<Rightarrow> module_state \<Rightarrow> module_state" where
  "prefetchAsync w clk job s =
     (case (pj_Upstream job, ms_UpstreamMgr s) of
        (Some u, Some m) \<Rightarrow>
          (let s1 = map_metrics RecordPrefetch s in
           case Exchange (w_net w) (w_lib w) (w_token w) m (Some u) (pj_Query job) of
             Inl e \<Rightarrow> map_cache (DnsCache_RecordPrefetchFailure (clk 5) (pj_Key job)) s1
           | Inr None \<Rightarrow> map_cache (DnsCache_RecordPrefetchFailure (clk 5) (pj_Key job)) s1
           | Inr (Some resp) \<Rightarrow>
               map_cache (\<lambda>c. DnsCache_RecordPrefetchSuccess (pj_Key job)
                  (DnsCache_Set (clk 5) (pj_Key job) (Some resp) (dr_TTL resp) c)) s1)
      | _ \<Rightarrow> map_cache (DnsCache_SetPrefetching (pj_Key job) False) s)"

text \<open>The goroutine of a queued prefetch runs; any of them may be next.\<close>

definition run_prefetch :: "world \<Rightarrow> clock \<Rightarrow> nat \<Rightarrow> module_state \<Rightarrow> module_state" where
  "run_prefetch w clk i s =
     (if i < length (ms_Pending s)
      then prefetchAsync w clk (ms_Pending s ! i)
             (s\<lparr>ms_Pending := take i (ms_Pending s) @ drop (Suc i) (ms_Pending s)\<rparr>)
      else s)"

end
