(* ===== verification/Dns_Handler_Correct.thy ===== *)
theory Dns_Handler_Correct
  imports Dns_Handler Dns_Cache_Correct Dns_Rule_Correct Dns_Upstream_Correct
begin

text \<open>
  Correctness of the query handler over any history of queries and prefetches: answers are for the
  question asked, cached answers never cross upstreams or proxy channels, rejected queries stay
  local, and the counters add up. The two interpretations of the machine locale carry the
  invariants over the events.
\<close>

section \<open>Cached answers belong to their key\<close>

definition belongs :: "cache_key \<Rightarrow> dns_response \<Rightarrow> bool" where
  "belongs k r \<longleftrightarrow>
     dr_Upstream r = ck_UpstreamAddr k \<and> q_Name (dr_Query r) = ck_Name k
     \<and> q_QType (dr_Query r) = ck_QType k
     \<and> (or_else (dr_ProxyTag r) ''direct'' = ck_ProxyTag k \<or> dr_ProxyTag r = ''direct'')"

definition cache_pure :: "dns_cache \<Rightarrow> bool" where
  "cache_pure c \<longleftrightarrow> cache_inv c
     \<and> (\<forall>ent\<in>set (recency c). \<exists>r. ce_Response ent = Some r \<and> belongs (ce_Key ent) r)"

lemma lru_step_response:
  assumes "ent' \<in> set (lru_step config n l op)"
  shows "(\<exists>ent\<in>set l. ce_Key ent = ce_Key ent' \<and> ce_Response ent = ce_Response ent')
    \<or> (\<exists>now t. op = Op_Set now (ce_Key ent') (ce_Response ent') t)"
proof (cases "stores (ce_Key ent') op")
  case False
  from lru_step_origin [OF assms False] obtain ent where ent: "ent \<in> set l"
    "ce_Key ent = ce_Key ent'" "ent' = ent \<or> ent' = op_effect op ent" by blast
  have "ce_Response (op_effect op ent) = ce_Response ent" by (cases op) simp_all
  with ent show ?thesis by auto
next
  case True
  then obtain now resp t where op: "op = Op_Set now (ce_Key ent') resp t" by (auto simp: stores_def)
  define x where "x = (case lru_find (ce_Key ent') l of
      Some ent \<Rightarrow> refresh_entry config now resp t ent
    | None \<Rightarrow> new_entry config now (ce_Key ent') resp t)"
  have x: "ce_Response x = resp"
    by (simp add: x_def refresh_entry_def new_entry_def Let_def split: option.split)
  from assms have "ent' \<in> set l \<or> ent' = x"
    unfolding op lru_step.simps lru_set_def x_def [symmetric]
    by (auto split: if_splits dest: in_set_takeD)
  with op x show ?thesis by auto
qed

lemma cache_pure_step:
  assumes "cache_pure c"
    and "\<And>now k resp t. op = Op_Set now k resp t \<Longrightarrow> \<exists>r. resp = Some r \<and> belongs k r"
  shows "cache_pure (cache_step c op)"
proof -
  have inv: "cache_inv c" using assms(1) by (simp add: cache_pure_def)
  have "\<exists>r. ce_Response ent = Some r \<and> belongs (ce_Key ent) r"
    if "ent \<in> set (recency (cache_step c op))" for ent
    using lru_step_response [OF that [unfolded recency_step [OF inv]]] assms
    unfolding cache_pure_def by metis
  with cache_inv_step [OF inv] show ?thesis by (simp add: cache_pure_def)
qed

lemmas cache_pure_Get = cache_pure_step [of _ "Op_Get now k" for now k, simplified]
lemmas cache_pure_SetPrefetching = cache_pure_step [of _ "Op_SetPrefetching k b" for k b, simplified]
lemmas cache_pure_Failure = cache_pure_step [of _ "Op_PrefetchFailure now k" for now k, simplified]
lemmas cache_pure_Success = cache_pure_step [of _ "Op_PrefetchSuccess k" for k, simplified]

lemma cache_pure_Set:
  "cache_pure c \<Longrightarrow> belongs k r \<Longrightarrow> cache_pure (DnsCache_Set now k (Some r) t c)"
  using cache_pure_step [of c "Op_Set now k (Some r) t"] by simp

lemma cache_pure_new: "cache_pure (NewDnsCache config)"
  by (simp add: cache_pure_def cache_inv_new recency_new)

lemma cache_pure_hit:
  assumes "cache_pure c" and "DnsCache_Get now k c = (Hit resp, c')"
  shows "belongs k resp \<and> dr_Cached resp"
proof -
  have inv: "cache_inv c" and wf: "cache_wf c" using assms(1) by (simp_all add: cache_pure_def cache_inv_def)
  from recency_Get(2) [OF inv, of now k] assms(2) obtain ent r where
    ent: "lru_find k (recency c) = Some ent" "ce_Response ent = Some r"
    "resp = copyCachedResponse r (now - ce_StoredAt ent) (cc_MinTTL (c_config c))"
    by (auto simp: lru_answer_def split: option.splits if_splits)
  from find_Some_conv [OF ent(1)] assms(1) ent(2) have "belongs k r"
    by (auto simp: cache_pure_def)
  then show ?thesis unfolding ent(3) by (simp add: belongs_def copyCachedResponse_def Let_def split: option.split)
qed

lemma cache_pure_no_panic:
  assumes "cache_pure c" shows "fst (DnsCache_Get now k c) \<noteq> NilPanic"
proof -
  have inv: "cache_inv c" using assms by (simp add: cache_pure_def)
  show ?thesis
  proof (cases "lru_find k (recency c)")
    case None
    then show ?thesis by (simp add: recency_Get(2) [OF inv] lru_answer_def)
  next
    case (Some ent)
    from find_Some_conv [OF this] assms obtain r where "ce_Response ent = Some r"
      by (auto simp: cache_pure_def)
    with Some show ?thesis by (simp add: recency_Get(2) [OF inv] lru_answer_def)
  qed
qed

lemma exchange_belongs:
  assumes "Exchange net lib token m (Some u) query = Inr (Some r)"
  shows "belongs (buildCacheKey query (Some u)) r \<and> dr_Query r = query \<and> \<not> dr_Cached r"
proof -
  obtain u' msg rtt where u': "wrap_response lib u' query msg rtt = Inr r" "ui_Addr u' = ui_Addr u"
    "ui_ProxyTag u' = ui_ProxyTag u \<or> ui_ProxyTag u' = ''direct''"
    using Exchange_Inr [OF assms] by blast
  from wrap_response_Inr [OF u'(1)] u'(2,3) show ?thesis
    by (auto simp: belongs_def buildCacheKey_def answers_def or_else_def)
qed

section \<open>The module as a machine\<close>

datatype module_event =
    Ev_Query world clock bool dns_query
  | Ev_Prefetch world clock nat

fun module_step :: "module_state \<Rightarrow> module_event \<Rightarrow> module_state" where
  "module_step s (Ev_Query w clk cancelled query) =
     the (snd (HandleQuery w clk cancelled query (Some s)))"
| "module_step s (Ev_Prefetch w clk i) = run_prefetch w clk i s"

definition job_ok :: "prefetch_job \<Rightarrow> bool" where
  "job_ok j \<longleftrightarrow> (\<exists>u. pj_Upstream j = Some u \<and> pj_Key j = buildCacheKey (pj_Query j) (Some u))"

definition module_pure :: "module_state \<Rightarrow> bool" where
  "module_pure s \<longleftrightarrow> (\<forall>c. ms_Cache s = Some c \<longrightarrow> cache_pure c) \<and> (\<forall>j\<in>set (ms_Pending s). job_ok j)"

lemma module_pure_metrics [simp]: "module_pure (map_metrics f s) = module_pure s"
  and module_pure_stats [simp]: "module_pure (map_stats g s) = module_pure s"
  by (simp_all add: module_pure_def map_metrics_def map_stats_def)

lemma module_pure_cache:
  "module_pure s \<Longrightarrow> (\<And>c. cache_pure c \<Longrightarrow> cache_pure (f c)) \<Longrightarrow> module_pure (map_cache f s)"
  by (auto simp: module_pure_def map_cache_def)

lemma module_pure_set_cache: "module_pure s \<Longrightarrow> cache_pure c \<Longrightarrow> module_pure (s\<lparr>ms_Cache := Some c\<rparr>)"
  by (simp add: module_pure_def)

lemma module_pure_pending:
  "module_pure s \<Longrightarrow> (\<And>j. j \<in> set js \<Longrightarrow> job_ok j) \<Longrightarrow> module_pure (s\<lparr>ms_Pending := js\<rparr>)"
  by (simp add: module_pure_def)

lemma route_exchange_pure:
  assumes "module_pure s"
  shows "module_pure (snd (route_exchange w clk query i m u s))"
proof (cases "Exchange (w_net w) (w_lib w) (w_token w) m (Some u) query")
  case (Inl e)
  with assms show ?thesis by (simp add: route_exchange_def Let_def)
next
  case (Inr x)
  show ?thesis
  proof (cases x)
    case None
    with Inr assms show ?thesis by (simp add: route_exchange_def Let_def)
  next
    case (Some resp)
    with Inr exchange_belongs have "belongs (buildCacheKey query (Some u)) resp" by blast
    with Inr Some assms show ?thesis
      by (auto simp: route_exchange_def Let_def intro!: module_pure_cache cache_pure_Set)
  qed
qed

lemma handleRoute_pure:
  assumes pure: "module_pure s"
  shows "module_pure (snd (handleRoute w clk query result s))"
proof (cases "route_upstream s (rr_UpstreamID result)")
  case None
  with pure show ?thesis by (simp add: handleRoute_def Let_def)
next
  case (Some u)
  then obtain m where m: "ms_UpstreamMgr s = Some m" by (auto simp: route_upstream_def split: option.splits)
  let ?d = "record_decision (clk 0) query (rr_UpstreamID result) ''route'' (rr_RuleID result)"
  let ?k = "buildCacheKey query (Some u)"
  show ?thesis
  proof (cases "ms_Cache s")
    case None
    then have "ms_Cache (map_metrics ?d s) = None" by (simp add: map_metrics_def)
    with Some m pure show ?thesis by (simp add: handleRoute_def Let_def route_exchange_pure)
  next
    case c: (Some c)
    obtain res c' where g: "DnsCache_Get (clk 1) ?k c = (res, c')" by fastforce
    have "cache_pure c" using pure c by (simp add: module_pure_def)
    with g have c': "cache_pure c'" using cache_pure_Get [of c "clk 1" ?k] by simp
    have s1: "module_pure ((map_metrics ?d s)\<lparr>ms_Cache := Some c'\<rparr>)"
      using pure c' by (simp add: module_pure_set_cache)
    have mc: "ms_Cache (map_metrics ?d s) = Some c" by (simp add: map_metrics_def c)
    show ?thesis
    proof (cases res)
      case Miss
      with Some m g s1 show ?thesis
        by (simp add: handleRoute_def Let_def mc route_exchange_pure)
    next
      case NilPanic
      with Some m g s1 show ?thesis by (simp add: handleRoute_def Let_def mc)
    next
      case (Hit cached)
      let ?s3 = "map_metrics RecordCacheHit (map_stats (\<lambda>st. st\<lparr>st_CacheHits := st_CacheHits st + 1\<rparr>)
          ((map_metrics ?d s)\<lparr>ms_Cache := Some c'\<rparr>))"
      have s3: "module_pure ?s3" using s1 by simp
      then have "module_pure (map_cache (DnsCache_SetPrefetching ?k True) ?s3)"
        by (rule module_pure_cache) (rule cache_pure_SetPrefetching)
      then have "module_pure ((map_cache (DnsCache_SetPrefetching ?k True) ?s3)
          \<lparr>ms_Pending := ms_Pending ?s3 @ [\<lparr>pj_Upstream = Some u, pj_Query = query, pj_Key = ?k\<rparr>]\<rparr>)"
        using s3 by (intro module_pure_pending) (auto simp: job_ok_def module_pure_def)
      with Hit Some m g s3 show ?thesis by (simp add: handleRoute_def Let_def mc)
    qed
  qed
qed

lemma handleBypass_pure: "module_pure s \<Longrightarrow> module_pure (snd (handleBypass w clk query result s))"
  by (simp add: handleBypass_def Let_def split: option.split sum.split)

lemma HandleQuery_pure:
  assumes "module_pure s"
  shows "module_pure (the (snd (HandleQuery w clk cancelled query (Some s))))"
  using assms
  by (simp add: HandleQuery_def Let_def handleRoute_pure handleBypass_pure handleReject_def)

lemma prefetchAsync_pure:
  assumes "module_pure s" and "job_ok j"
  shows "module_pure (prefetchAsync w clk j s)"
proof -
  obtain u where u: "pj_Upstream j = Some u" "pj_Key j = buildCacheKey (pj_Query j) (Some u)"
    using assms(2) by (auto simp: job_ok_def)
  have set: "module_pure (map_cache (\<lambda>c. DnsCache_RecordPrefetchSuccess (pj_Key j)
      (DnsCache_Set (clk 5) (pj_Key j) (Some r) (dr_TTL r) c)) (map_metrics RecordPrefetch s))"
    if "Exchange (w_net w) (w_lib w) (w_token w) m (Some u) (pj_Query j) = Inr (Some r)" for m r
    using exchange_belongs [OF that] assms(1) u(2)
    by (auto intro!: module_pure_cache cache_pure_Success cache_pure_Set)
  show ?thesis
    using assms(1) set
    by (auto simp: prefetchAsync_def u(1) Let_def split: option.split sum.split
        intro!: module_pure_cache cache_pure_Failure cache_pure_SetPrefetching)
qed

interpretation module: machine module_step module_pure
proof
  fix s ev
  assume pure: "module_pure s"
  show "module_pure (module_step s ev)"
  proof (cases ev)
    case (Ev_Query w clk cancelled query)
    with pure show ?thesis by (simp add: HandleQuery_pure)
  next
    case (Ev_Prefetch w clk i)
    have "module_pure (s\<lparr>ms_Pending := take i (ms_Pending s) @ drop (Suc i) (ms_Pending s)\<rparr>)"
      using pure by (auto simp: module_pure_def dest: in_set_takeD in_set_dropD)
    moreover have "i < length (ms_Pending s) \<Longrightarrow> job_ok (ms_Pending s ! i)"
      using pure by (simp add: module_pure_def)
    ultimately show ?thesis
      using pure Ev_Prefetch by (simp add: run_prefetch_def prefetchAsync_pure)
  qed
qed


definition fresh_module :: "module_state \<Rightarrow> bool" where
  "fresh_module s \<longleftrightarrow> (\<exists>config. ms_Cache s = None \<or> ms_Cache s = Some (NewDnsCache config)) \<and> ms_Pending s = []"

lemma fresh_module_pure: "fresh_module s \<Longrightarrow> module_pure s"
  by (auto simp: fresh_module_def module_pure_def cache_pure_new)

section \<open>Answers are for the question asked\<close>

definition asked :: "dns_query \<Rightarrow> dns_response \<Rightarrow> bool" where
  "asked query r \<longleftrightarrow> q_Name (dr_Query r) = q_Name query \<and> q_QType (dr_Query r) = q_QType query"

definition good_result :: "dns_query \<Rightarrow> upstream_instance option \<Rightarrow> handler_result \<Rightarrow> bool" where
  "good_result query u res \<longleftrightarrow>
     res \<noteq> Panicked
     \<and> (\<forall>r. res = Answered r \<longrightarrow> asked query r
          \<and> (dr_Cached r \<longrightarrow> (\<exists>x. u = Some x \<and> belongs (buildCacheKey query (Some x)) r)))"

lemma good_result_simps [simp]:
  "good_result query u (Failed e)"
  "good_result query u (Answered (buildStubResponse lib query))"
  "good_result query u (Answered (buildRefused lib query))"
  by (simp_all add: good_result_def asked_def buildStubResponse_def buildRefused_def)

lemma good_result_exchange:
  "Exchange net lib token m (Some x) query = Inr (Some r) \<Longrightarrow> good_result query u (Answered r)"
  using exchange_belongs [of net lib token m x query r] by (simp add: good_result_def asked_def)

lemma route_exchange_good: "good_result query v (fst (route_exchange w clk query i m u s))"
  by (auto simp: route_exchange_def Let_def split: sum.split option.split intro: good_result_exchange)

lemma handleRoute_good:
  assumes pure: "module_pure s"
  shows "good_result query (route_upstream s (rr_UpstreamID result)) (fst (handleRoute w clk query result s))"
proof (cases "route_upstream s (rr_UpstreamID result)")
  case None
  then show ?thesis by (simp add: handleRoute_def Let_def)
next
  case (Some u)
  then obtain m where m: "ms_UpstreamMgr s = Some m" by (auto simp: route_upstream_def split: option.splits)
  let ?d = "record_decision (clk 0) query (rr_UpstreamID result) ''route'' (rr_RuleID result)"
  let ?k = "buildCacheKey query (Some u)"
  have mc: "ms_Cache (map_metrics ?d s) = ms_Cache s" by (simp add: map_metrics_def)
  show ?thesis
  proof (cases "ms_Cache s")
    case None
    with Some m mc show ?thesis by (simp add: handleRoute_def Let_def route_exchange_good)
  next
    case c: (Some c)
    then have cp: "cache_pure c" using pure by (simp add: module_pure_def)
    obtain res c' where g: "DnsCache_Get (clk 1) ?k c = (res, c')" by fastforce
    have "res \<noteq> NilPanic" using cache_pure_no_panic [OF cp, of "clk 1" ?k] g by simp
    moreover have "good_result query (Some u) (Answered r)" if "res = Hit r" for r
      using cache_pure_hit [OF cp, of "clk 1" ?k r c'] g that
      by (auto simp: good_result_def asked_def belongs_def buildCacheKey_def)
    ultimately show ?thesis using Some m c mc g
      by (cases res) (simp_all add: handleRoute_def Let_def route_exchange_good)
  qed
qed

lemma handleBypass_good: "good_result query u (fst (handleBypass w clk query result s))"
  by (auto simp: handleBypass_def Let_def split: option.split sum.split intro: good_result_exchange)

definition routed_to :: "module_state \<Rightarrow> dns_query \<Rightarrow> upstream_instance option" where
  "routed_to s query =
     route_upstream s (case ms_Router s of Some r \<Rightarrow> rr_UpstreamID (Route r query) | None \<Rightarrow> [])"

lemma map_stats_sel [simp]:
  "ms_Upstreams (map_stats f s) = ms_Upstreams s" "ms_Router (map_stats f s) = ms_Router s"
  "ms_UpstreamMgr (map_stats f s) = ms_UpstreamMgr s" "ms_Cache (map_stats f s) = ms_Cache s"
  "ms_Metrics (map_stats f s) = ms_Metrics s" "ms_Pending (map_stats f s) = ms_Pending s"
  by (simp_all add: map_stats_def)

lemma route_upstream_stats [simp]: "route_upstream (map_stats f s) i = route_upstream s i"
  unfolding route_upstream_def map_stats_sel by (rule refl)

lemma HandleQuery_good:
  assumes "module_pure s"
  shows "good_result query (routed_to s query) (fst (HandleQuery w clk cancelled query (Some s)))"
proof -
  let ?s = "map_stats (\<lambda>st. st\<lparr>st_TotalQueries := st_TotalQueries st + 1\<rparr>) s"
  have "module_pure ?s" using assms by simp
  note r = handleRoute_good [OF this, simplified]
  have "good_result query (route_upstream s []) (fst (handleRoute w clk query
      \<lparr>rr_UpstreamID = [], rr_UpstreamAddr = [], rr_Action = ''route'', rr_RuleID = [],
       rr_Policy = ''single'', rr_ProxyTag = []\<rparr> ?s))"
    using r [of query "\<lparr>rr_UpstreamID = [], rr_UpstreamAddr = [], rr_Action = ''route'', rr_RuleID = [],
       rr_Policy = ''single'', rr_ProxyTag = []\<rparr>"] by simp
  then show ?thesis
    using r [of query] handleBypass_good [of query]
    unfolding HandleQuery_def Let_def routed_to_def
    by (auto simp: handleReject_def split: option.split)
qed

text \<open>
  From a fresh module, after any sequence of queries and prefetches, answering a query never
  runs into the nil dereference of a cache entry without a response, and an answer, from the cache
  or not, is one for the name and type of the query.
\<close>

theorem handler_answers_question:
  assumes "fresh_module s0"
  shows "case fst (HandleQuery w clk cancelled query (Some (foldl module_step s0 events))) of
      Answered r \<Rightarrow> q_Name (dr_Query r) = q_Name query \<and> q_QType (dr_Query r) = q_QType query
    | Failed e \<Rightarrow> True
    | Panicked \<Rightarrow> False"
  using HandleQuery_good [OF module.run_inv [OF fresh_module_pure [OF assms]], of query events w clk cancelled]
  by (simp add: good_result_def asked_def split: handler_result.split)


section \<open>Rejected and bypassed queries\<close>

text \<open>
  A query whose rule rejects it is answered REFUSED whatever the network does, with the same
  effect on the module: the cache and the queue of prefetches stay as they are.
\<close>

theorem reject_is_local:
  assumes "ms_Router s = Some r" and "rr_Action (Route r query) = ''reject''"
  shows "\<exists>s'. (\<forall>net. HandleQuery (w\<lparr>w_net := net\<rparr>) clk False query (Some s)
            = (Answered (buildRefused (w_lib w) query), Some s'))
    \<and> ms_Cache s' = ms_Cache s \<and> ms_Pending s' = ms_Pending s
    \<and> st_RejectedQueries (ms_Stats s') = st_RejectedQueries (ms_Stats s) + 1"
  using assms
  by (simp add: HandleQuery_def handleReject_def map_metrics_def map_stats_def)

lemma handleBypass_frame:
  "ms_Cache (snd (handleBypass w clk query result s)) = ms_Cache s
   \<and> ms_Pending (snd (handleBypass w clk query result s)) = ms_Pending s"
  by (simp add: handleBypass_def Let_def map_metrics_def map_stats_def split: option.split sum.split)

lemma bypass_leaves_cache:
  assumes "ms_Router s = Some r" and "rr_Action (Route r query) = ''bypass''"
  shows "\<exists>s'. snd (HandleQuery w clk False query (Some s)) = Some s'
    \<and> ms_Cache s' = ms_Cache s \<and> ms_Pending s' = ms_Pending s"
  using assms handleBypass_frame [of w clk query "Route r query"]
  by (simp add: HandleQuery_def)

lemma handleRoute_hit:
  assumes "route_upstream s (rr_UpstreamID result) = Some u" and "ms_Cache s = Some c"
    and "fst (DnsCache_Get (clk 1) (buildCacheKey query (Some u)) c) = Hit r"
  shows "fst (handleRoute w clk query result s) = Answered r"
proof -
  obtain c' where g: "DnsCache_Get (clk 1) (buildCacheKey query (Some u)) c = (Hit r, c')"
    using assms(3) by (cases "DnsCache_Get (clk 1) (buildCacheKey query (Some u)) c") auto
  obtain m where "ms_UpstreamMgr s = Some m"
    using assms(1) by (auto simp: route_upstream_def split: option.splits)
  with g assms(1,2) show ?thesis by (simp add: handleRoute_def Let_def map_metrics_def)
qed

text \<open>
  A routed query whose key is in the cache is answered from there, whatever the network does.
\<close>

theorem hit_needs_no_network:
  assumes "ms_Router s = Some rt" and "rr_Action (Route rt query) = ''route''"
    and "routed_to s query = Some u" and "ms_Cache s = Some c"
    and "fst (DnsCache_Get (clk 1) (buildCacheKey query (Some u)) c) = Hit r"
  shows "fst (HandleQuery (w\<lparr>w_net := net\<rparr>) clk False query (Some s)) = Answered r"
  using assms by (simp add: HandleQuery_def Let_def routed_to_def handleRoute_hit)

section \<open>Metrics add up\<close>

definition metrics_ok :: "dns_metrics \<Rightarrow> bool" where
  "metrics_ok m \<longleftrightarrow>
     dm_TotalQueries m = dm_RoutedQueries m + dm_RejectedQueries m + dm_BypassedQueries m
     \<and> dm_CacheHits m + dm_CacheMisses m \<le> dm_RoutedQueries m
     \<and> length (dm_LatencyBuckets m) = 6
     \<and> sum_list (map snd (dm_LatencyBuckets m)) = dm_TotalResponses m"

lemma metrics_ok_upstream [simp]: "metrics_ok (update_upstream u f m) = metrics_ok m"
  by (simp add: metrics_ok_def update_upstream_def)

lemma metrics_ok_rule [simp]: "metrics_ok (RecordRuleHit i m) = metrics_ok m"
  by (simp add: metrics_ok_def RecordRuleHit_def)

lemma metrics_ok_error [simp]: "metrics_ok (RecordError u m) = metrics_ok m"
  by (simp add: RecordError_def Let_def) (simp add: metrics_ok_def)

lemma metrics_ok_prefetch [simp]: "metrics_ok (RecordPrefetch m) = metrics_ok m"
  by (simp add: metrics_ok_def RecordPrefetch_def)

lemma metrics_ok_decision:
  assumes "metrics_ok m" and "action \<in> {''route'', ''reject'', ''bypass''}"
  shows "metrics_ok (record_decision now query u action rule m)"
    and "action = ''route'' \<Longrightarrow> dm_CacheHits (record_decision now query u action rule m)
      + dm_CacheMisses (record_decision now query u action rule m)
      < dm_RoutedQueries (record_decision now query u action rule m)"
  using assms
  by (auto simp: record_decision_def RecordAction_def RecordQuery_def RecordRuleHit_def
      update_upstream_def metrics_ok_def Let_def)

lemma latency_bucket_less: "latency_bucket rtt < 6"
  by (simp add: latency_bucket_def Let_def)

lemma sum_bump_nth:
  "i < length bs \<Longrightarrow> sum_list (map snd (bs[i := (fst (bs ! i), snd (bs ! i) + 1)])) = sum_list (map snd bs) + (1 :: int)"
  by (induction bs arbitrary: i) (auto split: nat.split)

lemma metrics_ok_response: "metrics_ok m \<Longrightarrow> metrics_ok (RecordResponse r rtt m)"
  using latency_bucket_less [of rtt] sum_bump_nth [of "latency_bucket rtt" "dm_LatencyBuckets m"]
  by (simp add: RecordResponse_def recordLatency_def Let_def) (simp add: metrics_ok_def)

definition metrics_inv :: "module_state \<Rightarrow> bool" where
  "metrics_inv s \<longleftrightarrow> (\<forall>m. ms_Metrics s = Some m \<longrightarrow> metrics_ok m)"

lemma metrics_inv_map:
  "metrics_inv s \<Longrightarrow> (\<And>m. metrics_ok m \<Longrightarrow> metrics_ok (f m)) \<Longrightarrow> metrics_inv (map_metrics f s)"
  by (auto simp: metrics_inv_def map_metrics_def)

lemma metrics_inv_frame [simp]:
  "metrics_inv (map_stats g s) = metrics_inv s" "metrics_inv (map_cache h s) = metrics_inv s"
  "metrics_inv (s\<lparr>ms_Cache := c\<rparr>) = metrics_inv s" "metrics_inv (s\<lparr>ms_Pending := p\<rparr>) = metrics_inv s"
  by (simp_all add: metrics_inv_def map_stats_def map_cache_def)

lemma route_exchange_metrics:
  "metrics_inv s \<Longrightarrow> metrics_inv (snd (route_exchange w clk query i m u s))"
  by (auto simp: route_exchange_def Let_def split: sum.split option.split
      intro!: metrics_inv_map metrics_ok_response)

lemma metrics_inv_lookup:
  assumes "metrics_inv s" and "f = RecordCacheHit \<or> f = RecordCacheMiss"
  shows "metrics_inv (map_metrics f (map_stats g ((map_metrics
    (record_decision now query u ''route'' rule) s)\<lparr>ms_Cache := c\<rparr>)))"
proof -
  have "metrics_ok (f (record_decision now query u ''route'' rule m))" if "metrics_ok m" for m
    using metrics_ok_decision [OF that, of "''route''" now query u rule] assms(2)
    by (auto simp: metrics_ok_def RecordCacheHit_def RecordCacheMiss_def)
  with assms(1) show ?thesis by (auto simp: metrics_inv_def map_metrics_def map_stats_def)
qed

lemma metrics_inv_decision:
  "metrics_inv s \<Longrightarrow> action \<in> {''route'', ''reject'', ''bypass''}
   \<Longrightarrow> metrics_inv (map_metrics (record_decision now query u action rule) s)"
  by (rule metrics_inv_map) (simp_all add: metrics_ok_decision)

lemma handleRoute_metrics:
  assumes "metrics_inv s"
  shows "metrics_inv (snd (handleRoute w clk query result s))"
proof -
  let ?s1 = "map_metrics (record_decision (clk 0) query (rr_UpstreamID result) ''route''
    (rr_RuleID result)) s"
  have s1: "metrics_inv ?s1" using assms by (rule metrics_inv_decision) simp
  note l = metrics_inv_lookup [OF assms]
  show ?thesis
    using assms s1 l route_exchange_metrics
    by (auto simp: handleRoute_def Let_def split: option.split prod.split get_result.split)
qed

interpretation metrics: machine module_step metrics_inv
proof
  fix s ev
  assume inv: "metrics_inv s"
  show "metrics_inv (module_step s ev)"
  proof (cases ev)
    case (Ev_Query w clk cancelled query)
    have "metrics_inv (snd (handleBypass w clk query result s'))" if "metrics_inv s'" for s' result
      using that by (auto simp: handleBypass_def Let_def split: option.split sum.split
          intro!: metrics_inv_map metrics_ok_response metrics_ok_decision(1))
    moreover have "metrics_inv (snd (handleReject w clk query result s'))" if "metrics_inv s'" for s' result
      using that by (auto simp: handleReject_def intro!: metrics_inv_decision)
    ultimately show ?thesis using inv Ev_Query handleRoute_metrics
      by (auto simp: HandleQuery_def Let_def)
  next
    case (Ev_Prefetch w clk i)
    have "metrics_inv (prefetchAsync w clk j s')" if "metrics_inv s'" for j s'
      using that by (auto simp: prefetchAsync_def Let_def split: option.split sum.split intro!: metrics_inv_map)
    with inv Ev_Prefetch show ?thesis by (simp add: run_prefetch_def)
  qed
qed

lemma metrics_ok_new: "metrics_ok (NewDnsMetrics now)"
  by (simp add: metrics_ok_def NewDnsMetrics_def bucket_labels_def)

text \<open>
  From fresh metrics, after any sequence of queries and prefetches, every query counted was
  routed, rejected or bypassed, cache lookups are among the routed ones, and the latency histogram
  counts every response.
\<close>

theorem metrics_add_up:
  assumes "ms_Metrics s0 = Some (NewDnsMetrics t0)"
    and "ms_Metrics (foldl module_step s0 events) = Some m"
  shows "dm_TotalQueries m = dm_RoutedQueries m + dm_RejectedQueries m + dm_BypassedQueries m
    \<and> dm_CacheHits m + dm_CacheMisses m \<le> dm_RoutedQueries m
    \<and> sum_list (map snd (dm_LatencyBuckets m)) = dm_TotalResponses m"
proof -
  have "metrics_inv s0" using assms(1) by (simp add: metrics_inv_def metrics_ok_new)
  then have "metrics_inv (foldl module_step s0 events)" by (rule metrics.run_inv)
  with assms(2) show ?thesis by (simp add: metrics_inv_def metrics_ok_def)
qed


section \<open>A concrete module\<close>

definition sample_module :: "dns_rule list \<Rightarrow> module_state" where
  "sample_module rules = \<lparr>ms_Upstreams = [sample_cfg ''q'' []],
     ms_Router = Some \<lparr>rt_rules = rules, rt_matchers = map (\<lambda>r. []) rules,
       rt_upstreamMap = [''q'' \<mapsto> ''9.9.9.9:53''], rt_upstreamProxyTag = Map.empty,
       rt_defaultUpstream = ''q'', rt_geositeResolver = None\<rparr>,
     ms_UpstreamMgr = Some (NewUpstreamManager [sample_cfg ''q'' []]),
     ms_Cache = Some (NewDnsCache sample_config), ms_Metrics = Some (NewDnsMetrics 0),
     ms_Stats = new_stats 0, ms_Pending = []\<rparr>"

definition sample_world :: world where
  "sample_world = \<lparr>w_net = sample_net True, w_lib = ref_lib, w_token = [1]\<rparr>"

lemma sample_module_fresh: "fresh_module (sample_module rules)"
  by (auto simp: fresh_module_def sample_module_def)

lemma sample_module_sel [simp]:
  "ms_Upstreams (sample_module rules) = [sample_cfg ''q'' []]"
  "ms_UpstreamMgr (sample_module rules) = Some (NewUpstreamManager [sample_cfg ''q'' []])"
  "ms_Cache (sample_module rules) = Some (NewDnsCache sample_config)"
  "ms_Pending (sample_module rules) = []"
  "ms_Metrics (sample_module rules) = Some (NewDnsMetrics 0)"
  by (simp_all add: sample_module_def)

lemma sample_routed: "route_upstream (sample_module rules) ''q'' = Some (instance_of (sample_cfg ''q'' []))"
proof -
  have "get_instance (NewUpstreamManager [sample_cfg ''q'' []]) ''q'' = Some (instance_of (sample_cfg ''q'' []))"
    by (simp add: get_instance_def GetUpstream_def NewUpstreamManager_def add_instance_def instance_of_def
        sample_cfg_def or_else_def empty_manager_def)
  then show ?thesis by (simp add: route_upstream_def)
qed

lemma sample_exchange:
  "Exchange (sample_net True) ref_lib [1] m (Some (instance_of (sample_cfg ''q'' []))) sample_upq
   = Inr (Some sample_answer)"
proof -
  have "ui_ProxyTag (instance_of (sample_cfg ''q'' [])) = ''direct''"
    by (simp add: instance_of_def sample_cfg_def or_else_def)
  then show ?thesis by (simp add: Exchange_def sample_direct)
qed

lemma sample_route:
  "\<exists>rt. ms_Router (sample_module []) = Some rt \<and> Route rt sample_upq = \<lparr>rr_UpstreamID = ''q'',
      rr_UpstreamAddr = ''9.9.9.9:53'', rr_Action = ''route'', rr_RuleID = [], rr_Policy = ''single'',
      rr_ProxyTag = []\<rparr>"
  by (simp add: Route_def sample_module_def map_get_def)

lemma sample_routed_to: "routed_to (sample_module []) sample_upq = Some (instance_of (sample_cfg ''q'' []))"
  using sample_route sample_routed by (auto simp: routed_to_def)

lemma sample_miss: "fst (DnsCache_Get now k (NewDnsCache config)) = Miss"
  by (simp add: DnsCache_Get_def NewDnsCache_def)

abbreviation sample_upkey :: cache_key where
  "sample_upkey \<equiv> buildCacheKey sample_upq (Some (instance_of (sample_cfg ''q'' [])))"

lemma sample_first:
  "fst (HandleQuery sample_world (\<lambda>i. 0) False sample_upq (Some (sample_module []))) = Answered sample_answer"
  "ms_Cache (module_step (sample_module []) (Ev_Query sample_world (\<lambda>i. 0) False sample_upq))
   = Some (DnsCache_Set 0 sample_upkey (Some sample_answer) 60
       (snd (DnsCache_Get 0 sample_upkey (NewDnsCache sample_config))))"
  "ms_Router (module_step (sample_module []) (Ev_Query sample_world (\<lambda>i. 0) False sample_upq))
   = ms_Router (sample_module [])"
  "ms_UpstreamMgr (module_step (sample_module []) (Ev_Query sample_world (\<lambda>i. 0) False sample_upq))
   = ms_UpstreamMgr (sample_module [])"
proof -
  obtain rt where rt: "ms_Router (sample_module []) = Some rt" and
    r: "Route rt sample_upq = \<lparr>rr_UpstreamID = ''q'', rr_UpstreamAddr = ''9.9.9.9:53'',
      rr_Action = ''route'', rr_RuleID = [], rr_Policy = ''single'', rr_ProxyTag = []\<rparr>"
    using sample_route by blast
  obtain c' where c: "DnsCache_Get 0 sample_upkey (NewDnsCache sample_config) = (Miss, c')"
    using sample_miss by (metis prod.collapse)
  have a: "\<not> q_IsBootstrap sample_upq" "dr_TTL sample_answer = 60"
    by (simp_all add: sample_upq_def sample_answer_def)
  note defs = HandleQuery_def handleRoute_def map_metrics_def route_exchange_def sample_world_def Let_def
  show "fst (HandleQuery sample_world (\<lambda>i. 0) False sample_upq (Some (sample_module []))) = Answered sample_answer"
    using rt r c sample_routed [of "[]"] sample_exchange by (simp add: defs)
  show "ms_Cache (module_step (sample_module []) (Ev_Query sample_world (\<lambda>i. 0) False sample_upq))
   = Some (DnsCache_Set 0 sample_upkey (Some sample_answer) 60
       (snd (DnsCache_Get 0 sample_upkey (NewDnsCache sample_config))))"
    using rt r c sample_routed [of "[]"] sample_exchange a by (simp add: defs map_cache_def)
  show "ms_Router (module_step (sample_module []) (Ev_Query sample_world (\<lambda>i. 0) False sample_upq))
   = ms_Router (sample_module [])"
    using rt r c sample_routed [of "[]"] sample_exchange a by (simp add: defs map_cache_def)
  show "ms_UpstreamMgr (module_step (sample_module []) (Ev_Query sample_world (\<lambda>i. 0) False sample_upq))
   = ms_UpstreamMgr (sample_module [])"
    using rt r c sample_routed [of "[]"] sample_exchange a by (simp add: defs map_cache_def)
qed

abbreviation sample_after :: module_state where
  "sample_after \<equiv> module_step (sample_module []) (Ev_Query sample_world (\<lambda>i. 0) False sample_upq)"

lemma sample_hit:
  "fst (DnsCache_Get 5 k (DnsCache_Set 0 k (Some sample_answer) 60
     (snd (DnsCache_Get 0 k (NewDnsCache sample_config)))))
   = Hit (copyCachedResponse sample_answer 5 60)"
proof -
  have "\<not> skip_negative sample_config (Some sample_answer)"
    by (simp add: skip_negative_def sample_answer_def sample_msg_def sample_defs)
  moreover have "computeEffectiveTTL (Some sample_answer) 60 sample_config = 60"
    by (simp add: computeEffectiveTTL_def calculateEffectiveTTL_def sample_answer_def sample_msg_def sample_defs)
  ultimately show ?thesis
    by (simp add: NewDnsCache_def DnsCache_Set_def DnsCache_Get_def count_miss_def updateHitRate_def
        new_entry_def evict_def resize_def ttl_duration_def second_def Let_def)
      (simp add: sample_config_def)
qed

lemma sample_after_route:
  "\<exists>rt. ms_Router sample_after = Some rt \<and> rr_Action (Route rt sample_upq) = ''route''"
  using sample_route by (auto simp: sample_first(3) simp del: module_step.simps)

lemma sample_after_routed: "routed_to sample_after sample_upq = Some (instance_of (sample_cfg ''q'' []))"
proof -
  have "get_instance (NewUpstreamManager [sample_cfg ''q'' []]) ''q'' = Some (instance_of (sample_cfg ''q'' []))"
    by (simp add: get_instance_def GetUpstream_def NewUpstreamManager_def add_instance_def instance_of_def
        sample_cfg_def or_else_def empty_manager_def)
  with sample_route show ?thesis
    by (auto simp: routed_to_def route_upstream_def sample_first(3,4) simp del: module_step.simps)
qed


lemma sample_second:
  "fst (HandleQuery (sample_world\<lparr>w_net := net\<rparr>) (\<lambda>i. 5) False sample_upq (Some sample_after))
   = Answered (copyCachedResponse sample_answer 5 60)"
proof -
  obtain rt where "ms_Router sample_after = Some rt" "rr_Action (Route rt sample_upq) = ''route''"
    using sample_after_route by blast
  moreover have "ms_Cache sample_after = Some (DnsCache_Set 0 sample_upkey (Some sample_answer) 60
      (snd (DnsCache_Get 0 sample_upkey (NewDnsCache sample_config))))" by (rule sample_first(2))
  ultimately show ?thesis
    using sample_after_routed sample_hit [of sample_upkey]
    by (simp add: HandleQuery_def Let_def routed_to_def handleRoute_hit del: module_step.simps)
qed

theorem handler_answers_question_witness:
  "q_Name (dr_Query sample_answer) = q_Name sample_upq \<and> q_QType (dr_Query sample_answer) = q_QType sample_upq"
  using handler_answers_question [OF sample_module_fresh [of "[]"],
    where w = sample_world and clk = "\<lambda>i. 0" and cancelled = False and query = sample_upq and events = "[]"]
  by (simp add: sample_first(1))


theorem hit_needs_no_network_witness:
  "fst (HandleQuery (sample_world\<lparr>w_net := sample_net False\<rparr>) (\<lambda>i. 5) False sample_upq (Some sample_after))
   = Answered (copyCachedResponse sample_answer 5 60)"
proof -
  obtain rt where rt: "ms_Router sample_after = Some rt" "rr_Action (Route rt sample_upq) = ''route''"
    using sample_after_route by blast
  show ?thesis
    by (rule hit_needs_no_network [OF rt sample_after_routed sample_first(2)]) (rule sample_hit)
qed

definition sample_rule :: "string \<Rightarrow> dns_rule" where
  "sample_rule action = \<lparr>ru_ID = ''r1'', ru_Domain = [], ru_DomainSuffix = [], ru_DomainRegex = [], ru_IP = [],
     ru_QueryType = [], ru_ClientIP = [], ru_Upstream = [], ru_Action = action, ru_Policy = []\<rparr>"

theorem reject_is_local_witness:
  "\<exists>s'. (\<forall>net. HandleQuery (sample_world\<lparr>w_net := net\<rparr>) (\<lambda>i. 0) False sample_upq
          (Some (sample_module [sample_rule ''reject'']))
        = (Answered (buildRefused (w_lib sample_world) sample_upq), Some s'))
    \<and> ms_Cache s' = ms_Cache (sample_module [sample_rule ''reject''])
    \<and> ms_Pending s' = ms_Pending (sample_module [sample_rule ''reject''])
    \<and> st_RejectedQueries (ms_Stats s') = st_RejectedQueries (ms_Stats (sample_module [sample_rule ''reject''])) + 1"
  by (rule reject_is_local, simp add: sample_module_def)
    (simp add: sample_rule_def Route_def MatchAll_def map_get_def)

lemma sample_rejects:
  "\<exists>m. ms_Metrics (module_step (sample_module [sample_rule ''reject''])
      (Ev_Query sample_world (\<lambda>i. 0) False sample_upq)) = Some m \<and> dm_TotalQueries m = 1"
proof -
  have "\<exists>rt. ms_Router (sample_module [sample_rule ''reject'']) = Some rt
      \<and> rr_Action (Route rt sample_upq) = ''reject''"
    by (simp add: sample_module_def sample_rule_def Route_def MatchAll_def map_get_def)
  then show ?thesis
    by (auto simp: HandleQuery_def handleReject_def Let_def map_metrics_def record_decision_def RecordAction_def
        RecordQuery_def RecordRuleHit_def NewDnsMetrics_def update_upstream_def)
qed

theorem metrics_add_up_witness:
  "\<exists>m. ms_Metrics (foldl module_step (sample_module [sample_rule ''reject''])
        [Ev_Query sample_world (\<lambda>i. 0) False sample_upq]) = Some m
    \<and> dm_TotalQueries m = 1
    \<and> 1 = dm_RoutedQueries m + dm_RejectedQueries m + dm_BypassedQueries m"
proof -
  obtain m where m: "ms_Metrics (foldl module_step (sample_module [sample_rule ''reject''])
      [Ev_Query sample_world (\<lambda>i. 0) False sample_upq]) = Some m" "dm_TotalQueries m = 1"
    using sample_rejects by auto
  from metrics_add_up [OF sample_module_sel(5) m(1)] m show ?thesis by auto
qed

end
