(* ===== verification/Dns_Listener.thy ===== *)
theory Dns_Listener
  imports Dns_Handler
begin

text \<open>
  The listener, \<open>core/dns/listener.go\<close>: starting and stopping the UDP and TCP servers of every
  address, and the callback that turns a packet into a reply. The sockets of the machine and the
  servers of the message package are the parameter \<open>listen_env\<close>. Stopping waits for the goroutines
  of all servers; where one of them is still running it never returns, which is the value \<open>None\<close>.
\<close>

section \<open>Servers\<close>

record server =
  sv_Addr :: string
  sv_Net :: string
  sv_UDPSize :: nat
  sv_Timeout :: duration

record server_pair =
  sp_udp :: server
  sp_tcp :: server

text \<open>\<open>li_ctx\<close> is \<open>None\<close> before the first start and else whether the context is cancelled.\<close>

record listener =
  li_config :: "listener_config option"
  li_handler :: bool
  li_servers :: "server_pair list"
  li_ctx :: "bool option"
  li_running :: "server list"

text \<open>
  \<open>le_Listen\<close>: whether a socket can be opened, given the servers already running;
  \<open>le_Shutdown\<close>: the error of shutting a server down, which then keeps running.
\<close>

record listen_env =
  le_Listen :: "server list \<Rightarrow> string \<Rightarrow> string \<Rightarrow> string option"
  le_Shutdown :: "server \<Rightarrow> string option"

datatype listen_error =
    NilListenerConfig
  | NilHandler
  | InvalidListenerConfig config_error
  | ListenFailed string string string

definition NewDnsListener :: "listener_config option \<Rightarrow> bool \<Rightarrow> listener" where
  "NewDnsListener config handler =
     \<lparr>li_config = config, li_handler = handler, li_servers = [], li_ctx = None, li_running = []\<rparr>"

definition udp_server :: "listener_config \<Rightarrow> string \<Rightarrow> server" where
  "udp_server config addr = \<lparr>sv_Addr = addr, sv_Net = ''udp'', sv_UDPSize = 1452,
     sv_Timeout = lc_Timeout config * second\<rparr>"

definition tcp_server :: "listener_config \<Rightarrow> string \<Rightarrow> server" where
  "tcp_server config addr = \<lparr>sv_Addr = addr, sv_Net = ''tcp'', sv_UDPSize = 0,
     sv_Timeout = lc_Timeout config * second\<rparr>"

definition startPair ::
  "listen_env \<Rightarrow> listener_config \<Rightarrow> string \<Rightarrow> listener \<Rightarrow> (listen_error + server_pair) \<times> listener" where
  "startPair env config addr l =
     (case le_Listen env (li_running l) ''udp'' addr of
        Some e \<Rightarrow> (Inl (ListenFailed ''udp'' addr e), l)
      | None \<Rightarrow>
          (let udp = udp_server config addr; tcp = tcp_server config addr in
           case le_Listen env (udp # li_running l) ''tcp'' addr of
             Some e \<Rightarrow> (Inl (ListenFailed ''tcp'' addr e), l)
           | None \<Rightarrow> (Inr \<lparr>sp_udp = udp, sp_tcp = tcp\<rparr>,
                      l\<lparr>li_running := li_running l @ [udp, tcp]\<rparr>)))"

definition servers_of :: "server_pair list \<Rightarrow> server list" where
  "servers_of ps = concat (map (\<lambda>p. [sp_udp p, sp_tcp p]) ps)"

definition Listener_Stop :: "listen_env \<Rightarrow> listener \<Rightarrow> (string option \<times> listener) option" where
  "Listener_Stop env l =
     (let l1 = l\<lparr>li_ctx := map_option (\<lambda>_. True) (li_ctx l)\<rparr>;
          errs = List.map_filter (le_Shutdown env) (servers_of (li_servers l1));
          l2 = l1\<lparr>li_running := filter (\<lambda>s. \<not> (s \<in> set (servers_of (li_servers l1))
                    \<and> le_Shutdown env s = None)) (li_running l1)\<rparr>
      in if li_running l2 \<noteq> [] then None
         else Some (if errs = [] then None else Some (last errs), l2\<lparr>li_servers := []\<rparr>))"

fun start_loop ::
  "listen_env \<Rightarrow> listener_config \<Rightarrow> string list \<Rightarrow> listener \<Rightarrow> (listen_error option \<times> listener) option" where
  "start_loop env config [] l = Some (None, l)"
| "start_loop env config (addr # addrs) l =
     (case startPair env config addr l of
        (Inl e, l') \<Rightarrow> map_option (\<lambda>(_, l''). (Some e, l'')) (Listener_Stop env l')
      | (Inr pair, l') \<Rightarrow>
          start_loop env config addrs (l'\<lparr>li_servers := li_servers l' @ [pair]\<rparr>))"

definition Listener_Start :: "listen_env \<Rightarrow> listener \<Rightarrow> (listen_error option \<times> listener) option" where
  "Listener_Start env l =
     (case li_config l of
        None \<Rightarrow> Some (Some NilListenerConfig, l)
      | Some config \<Rightarrow>
          if \<not> li_handler l then Some (Some NilHandler, l)
          else case DnsListenerConfig_Validate config of
            Some e \<Rightarrow> Some (Some (InvalidListenerConfig e), l)
          | None \<Rightarrow> start_loop env config (lc_ListenAddr config # lc_ExtraListenAddrs config)
                      (l\<lparr>li_ctx := Some False\<rparr>))"

definition Listener_Healthy :: "listener \<Rightarrow> bool" where
  "Listener_Healthy l = (if li_servers l = [] then False else li_ctx l \<noteq> Some True)"

section \<open>Replies\<close>

definition dropSigs :: "rr list \<Rightarrow> rr list" where
  "dropSigs rrs = filter (\<lambda>r. rrtype r \<noteq> TypeRRSIG) rrs"

definition MinMsgSize :: u16 where "MinMsgSize = 512"

definition sanitizeForClient :: "dns_lib \<Rightarrow> dns_msg \<Rightarrow> dns_msg \<Rightarrow> dns_msg" where
  "sanitizeForClient lib m query =
     (let clientOpt = map_option ((!) (m_Extra query)) (lib_IsEdns0 lib query);
          m1 = m\<lparr>m_Extra := filter (\<lambda>r. rrtype r \<noteq> TypeOPT) (m_Extra m)\<rparr>;
          wantSigs = (case clientOpt of None \<Rightarrow> False | Some opt \<Rightarrow> lib_Do lib opt);
          m2 = (if wantSigs then m1
                else m1\<lparr>m_Answer := dropSigs (m_Answer m1), m_Ns := dropSigs (m_Ns m1),
                        m_Extra := dropSigs (m_Extra m1)\<rparr>)
      in case clientOpt of
           None \<Rightarrow> m2
         | Some opt \<Rightarrow>
             lib_SetEdns0 lib m2
               (if lib_UDPSize lib opt < MinMsgSize then MinMsgSize else lib_UDPSize lib opt)
               (lib_Do lib opt))"

section \<open>Packets\<close>

datatype client_addr = UDPAddr ip | TCPAddr ip | OtherAddr

fun client_ip :: "client_addr \<Rightarrow> ip" where
  "client_ip (UDPAddr a) = a"
| "client_ip (TCPAddr a) = a"
| "client_ip OtherAddr = []"

text \<open>What a handler returns: an error, a response or nil, or it panics.\<close>

datatype handled = Handler_Error handler_error | Handler_Response "dns_response option" | Handler_Panic

datatype reply = No_Reply | Reply dns_msg | Packet_Panic

definition query_of :: "client_addr \<Rightarrow> question \<Rightarrow> dns_query" where
  "query_of addr q = \<lparr>q_Name = qn_Name q, q_QType = qn_Qtype q, q_QClass = 0,
     q_ClientIP = client_ip addr, q_IsBootstrap = False\<rparr>"

definition servfail :: "dns_lib \<Rightarrow> dns_msg \<Rightarrow> dns_msg" where
  "servfail lib msg = (lib_SetReply lib new_msg msg)\<lparr>m_Rcode := RcodeServerFailure\<rparr>"

text \<open>The message for the client, built from what the handler answered.\<close>

definition reply_for :: "dns_lib \<Rightarrow> dns_msg \<Rightarrow> dns_response option \<Rightarrow> dns_msg" where
  "reply_for lib msg resp =
     (let m = lib_SetReply lib new_msg msg in
      case resp of
        None \<Rightarrow> sanitizeForClient lib m msg
      | Some r \<Rightarrow>
          (case dr_RawMsg r of
             None \<Rightarrow>
               sanitizeForClient lib (m\<lparr>m_Rcode := dr_Rcode r, m_Answer := dr_Answer r,
                 m_Ns := dr_Authority r, m_Extra := dr_Additional r\<rparr>) msg
           | Some raw \<Rightarrow>
               (case lib_Pack lib raw of
                  None \<Rightarrow> servfail lib msg
                | Some rawBytes \<Rightarrow>
                    (case lib_Unpack lib rawBytes of
                       None \<Rightarrow> servfail lib msg
                     | Some u \<Rightarrow>
                         sanitizeForClient lib ((lib_SetReply lib u msg)\<lparr>m_Rcode := m_Rcode u\<rparr>) msg))))"

definition handlePacket ::
  "dns_lib \<Rightarrow> byte list \<Rightarrow> time \<Rightarrow> (dns_query \<Rightarrow> 's \<Rightarrow> handled \<times> 's) \<Rightarrow> client_addr \<Rightarrow> dns_msg option
   \<Rightarrow> 's \<times> loop_log \<Rightarrow> reply \<times> ('s \<times> loop_log)" where
  "handlePacket lib token now handle addr msg st =
     (case msg of
        None \<Rightarrow> (No_Reply, st)
      | Some m \<Rightarrow>
          (case m_Question m of
             [] \<Rightarrow> (No_Reply, st)
           | q # _ \<Rightarrow>
               if carriesOwnToken lib token (Some m) then
                 (Reply (lib_SetRcode lib new_msg m RcodeServerFailure),
                  (fst st, snd (loopDetected now (snd st))))
               else
                 (case handle (query_of addr q) (fst st) of
                    (Handler_Error e, s') \<Rightarrow> (Reply (servfail lib m), (s', snd st))
                  | (Handler_Panic, s') \<Rightarrow> (Packet_Panic, (s', snd st))
                  | (Handler_Response resp, s') \<Rightarrow> (Reply (reply_for lib m resp), (s', snd st)))))"

text \<open>The handler of the module, as the listener calls it.\<close>

fun to_handled :: "handler_result \<Rightarrow> handled" where
  "to_handled (Answered r) = Handler_Response (Some r)"
| "to_handled (Failed e) = Handler_Error e"
| "to_handled Panicked = Handler_Panic"

definition module_handler ::
  "world \<Rightarrow> clock \<Rightarrow> bool \<Rightarrow> dns_query \<Rightarrow> module_state \<Rightarrow> handled \<times> module_state" where
  "module_handler w clk cancelled query s =
     (case HandleQuery w clk cancelled query (Some s) of (res, s') \<Rightarrow> (to_handled res, the s'))"

end
