(* ===== verification/Dns_Listener_Correct.thy ===== *)
theory Dns_Listener_Correct
  imports Dns_Listener Dns_Handler_Correct Dns_Message_Correct
begin

text \<open>
  Correctness of the listener: every packet with a question gets a reply with its id and question
  and an EDNS0 part that mirrors the client's, the module's own queries are refused when they come
  back, answers reach the client with their records, and starting is all or nothing as long as
  servers can be shut down. \<open>query_handler\<close> is the interface to a handler; the module's handler
  is the instance of it.
\<close>

section \<open>Replies\<close>

text \<open>
  The documented behaviour of \<open>SetReply\<close> and \<open>SetRcode\<close>: the reply has the id and the first question
  of the request, is marked as a response without error and keeps its records.
\<close>

definition reply_laws :: "dns_lib \<Rightarrow> bool" where
  "reply_laws lib \<longleftrightarrow>
     (\<forall>m r. m_Id (lib_SetReply lib m r) = m_Id r \<and> m_Response (lib_SetReply lib m r)
        \<and> m_Rcode (lib_SetReply lib m r) = RcodeSuccess
        \<and> (m_Question r \<noteq> [] \<longrightarrow> m_Question (lib_SetReply lib m r) = [hd (m_Question r)])
        \<and> m_Answer (lib_SetReply lib m r) = m_Answer m \<and> m_Ns (lib_SetReply lib m r) = m_Ns m
        \<and> m_Extra (lib_SetReply lib m r) = m_Extra m)
     \<and> (\<forall>m r c. lib_SetRcode lib m r c = (lib_SetReply lib m r)\<lparr>m_Rcode := c\<rparr>)"

lemma SetReply_laws:
  assumes "reply_laws lib"
  shows "m_Id (lib_SetReply lib m r) = m_Id r" "m_Response (lib_SetReply lib m r)"
    "m_Rcode (lib_SetReply lib m r) = RcodeSuccess"
    "m_Question r \<noteq> [] \<Longrightarrow> m_Question (lib_SetReply lib m r) = [hd (m_Question r)]"
    "m_Answer (lib_SetReply lib m r) = m_Answer m" "m_Ns (lib_SetReply lib m r) = m_Ns m"
    "m_Extra (lib_SetReply lib m r) = m_Extra m"
    "lib_SetRcode lib m r c = (lib_SetReply lib m r)\<lparr>m_Rcode := c\<rparr>"
  using assms unfolding reply_laws_def by blast+

lemma ref_lib_reply: "reply_laws ref_lib"
proof -
  have "m_Question r \<noteq> [] \<Longrightarrow> take (Suc 0) (m_Question r) = [hd (m_Question r)]" for r :: dns_msg
    by (cases "m_Question r") simp_all
  then show ?thesis by (simp add: reply_laws_def ref_lib_def)
qed

definition client_opt :: "dns_lib \<Rightarrow> dns_msg \<Rightarrow> rr option" where
  "client_opt lib query = map_option ((!) (m_Extra query)) (lib_IsEdns0 lib query)"

definition records :: "dns_msg \<Rightarrow> rr list" where
  "records m = m_Answer m @ m_Ns m @ m_Extra m"

text \<open>The EDNS0 part of a reply to a client with, or without, an OPT record of its own.\<close>

definition edns_for :: "dns_lib \<Rightarrow> rr option \<Rightarrow> dns_msg \<Rightarrow> bool" where
  "edns_for lib copt r \<longleftrightarrow>
     (case copt of
        None \<Rightarrow> filter is_opt (m_Extra r) = [] \<and> (\<forall>x\<in>set (records r). rrtype x \<noteq> TypeRRSIG)
      | Some opt \<Rightarrow>
          (\<forall>x\<in>set (filter is_opt (m_Extra r)).
             filter is_opt (m_Extra r) = [x] \<and> opt_options x = [] \<and> lib_Do lib x = lib_Do lib opt
             \<and> lib_UDPSize lib x = max MinMsgSize (lib_UDPSize lib opt))
          \<and> (lib_Do lib opt \<or> (\<forall>x\<in>set (records r). rrtype x \<noteq> TypeRRSIG)))"

lemma is_opt_rrtype: "is_opt r \<Longrightarrow> rrtype r = TypeOPT"
  by (cases r rule: is_opt.cases) simp_all

lemma filter_no_opt: "filter (\<lambda>x. rrtype x \<noteq> TypeOPT \<and> is_opt x) rs = []"
  by (auto simp: filter_empty_conv dest: is_opt_rrtype)

lemma dropSigs_clean: "x \<in> set (dropSigs rs) \<Longrightarrow> rrtype x \<noteq> TypeRRSIG"
  by (simp add: dropSigs_def)

lemma dropSigs_idem [simp]: "dropSigs (dropSigs rs) = dropSigs rs"
  by (simp add: dropSigs_def)

lemma dropSigs_append [simp]: "dropSigs (xs @ ys) = dropSigs xs @ dropSigs ys"
  by (simp add: dropSigs_def)

text \<open>What is left of a message for the client, before an OPT record of its own is added.\<close>

definition stripped :: "bool \<Rightarrow> dns_msg \<Rightarrow> dns_msg" where
  "stripped wantSigs m =
     (let keep = (if wantSigs then id else dropSigs)
      in m\<lparr>m_Answer := keep (m_Answer m), m_Ns := keep (m_Ns m),
           m_Extra := keep (filter (\<lambda>r. rrtype r \<noteq> TypeOPT) (m_Extra m))\<rparr>)"

lemma stripped_no_opt: "filter is_opt (m_Extra (stripped w m)) = []"
  by (auto simp: stripped_def Let_def dropSigs_def filter_empty_conv dest: is_opt_rrtype)

lemma stripped_clean: "x \<in> set (records (stripped False m)) \<Longrightarrow> rrtype x \<noteq> TypeRRSIG"
  by (auto simp: stripped_def Let_def records_def dest: dropSigs_clean)

lemma sanitize_None:
  "client_opt lib query = None \<Longrightarrow> sanitizeForClient lib m query = stripped False m"
  unfolding sanitizeForClient_def client_opt_def [symmetric] by (simp add: stripped_def)

lemma sanitize_Some:
  assumes "edns_laws lib" and "client_opt lib query = Some opt"
  obtains h where "h_Rrtype h = TypeOPT"
    "lib_UDPSize lib (RR h (RD_OPT [])) = max MinMsgSize (lib_UDPSize lib opt)"
    "lib_Do lib (RR h (RD_OPT [])) = lib_Do lib opt"
    "sanitizeForClient lib m query = (stripped (lib_Do lib opt) m)
       \<lparr>m_Extra := m_Extra (stripped (lib_Do lib opt) m) @ [RR h (RD_OPT [])]\<rparr>"
proof -
  have sz: "(if lib_UDPSize lib opt < MinMsgSize then MinMsgSize else lib_UDPSize lib opt)
      = max MinMsgSize (lib_UDPSize lib opt)" by (auto simp: max_def)
  have s: "sanitizeForClient lib m query = lib_SetEdns0 lib (stripped (lib_Do lib opt) m)
      (max MinMsgSize (lib_UDPSize lib opt)) (lib_Do lib opt)"
    unfolding sanitizeForClient_def client_opt_def [symmetric] assms(2) Let_def option.case sz
    by (cases "lib_Do lib opt") (simp_all add: stripped_def)
  show thesis by (rule SetEdns0_obtain [OF assms(1)]) (rule that, assumption+, simp add: s)
qed

lemma sanitize_edns:
  assumes "edns_laws lib"
  shows "edns_for lib (client_opt lib query) (sanitizeForClient lib m query)"
proof (cases "client_opt lib query")
  case None
  then show ?thesis by (simp add: edns_for_def sanitize_None stripped_no_opt stripped_clean)
next
  case (Some opt)
  obtain h where h: "h_Rrtype h = TypeOPT"
    "lib_UDPSize lib (RR h (RD_OPT [])) = max MinMsgSize (lib_UDPSize lib opt)"
    "lib_Do lib (RR h (RD_OPT [])) = lib_Do lib opt"
    "sanitizeForClient lib m query = (stripped (lib_Do lib opt) m)
       \<lparr>m_Extra := m_Extra (stripped (lib_Do lib opt) m) @ [RR h (RD_OPT [])]\<rparr>"
    using assms Some by (rule sanitize_Some)
  have "rrtype x \<noteq> TypeRRSIG" if "\<not> lib_Do lib opt" "x \<in> set (records (sanitizeForClient lib m query))" for x
  proof -
    have "x \<in> set (records (stripped False m)) \<or> x = RR h (RD_OPT [])"
      using that by (auto simp: h(4) records_def)
    with h(1) stripped_clean show ?thesis by (auto simp: qtype_defs)
  qed
  with h show ?thesis by (auto simp: edns_for_def Some stripped_no_opt)
qed

lemma stripped_frame:
  "stripped w m = m\<lparr>m_Answer := m_Answer (stripped w m), m_Ns := m_Ns (stripped w m),
     m_Extra := m_Extra (stripped w m)\<rparr>"
  "dropSigs (m_Answer (stripped w m)) = dropSigs (m_Answer m)"
  "dropSigs (m_Ns (stripped w m)) = dropSigs (m_Ns m)"
  "dropSigs (filter (\<lambda>r. rrtype r \<noteq> TypeOPT) (m_Extra (stripped w m)))
   = dropSigs (filter (\<lambda>r. rrtype r \<noteq> TypeOPT) (m_Extra m))"
  by (auto simp: stripped_def Let_def dropSigs_def intro!: filter_cong)

lemma sanitize_frame:
  assumes "edns_laws lib"
  shows "\<exists>a n x. sanitizeForClient lib m query = m\<lparr>m_Answer := a, m_Ns := n, m_Extra := x\<rparr>
    \<and> dropSigs a = dropSigs (m_Answer m) \<and> dropSigs n = dropSigs (m_Ns m)
    \<and> dropSigs (filter (\<lambda>r. rrtype r \<noteq> TypeOPT) x)
      = dropSigs (filter (\<lambda>r. rrtype r \<noteq> TypeOPT) (m_Extra m))"
proof (cases "client_opt lib query")
  case None
  then show ?thesis using stripped_frame [of False m] sanitize_None [of lib query m] by metis
next
  case (Some opt)
  let ?s = "stripped (lib_Do lib opt) m"
  obtain h where h: "h_Rrtype h = TypeOPT"
    "sanitizeForClient lib m query = ?s\<lparr>m_Extra := m_Extra ?s @ [RR h (RD_OPT [])]\<rparr>"
    using assms Some by (rule sanitize_Some)
  have "?s\<lparr>m_Extra := x\<rparr> = m\<lparr>m_Answer := m_Answer ?s, m_Ns := m_Ns ?s, m_Extra := x\<rparr>" for x
    by (simp add: stripped_def Let_def)
  moreover have "dropSigs (filter (\<lambda>r. rrtype r \<noteq> TypeOPT) (m_Extra ?s @ [RR h (RD_OPT [])]))
      = dropSigs (filter (\<lambda>r. rrtype r \<noteq> TypeOPT) (m_Extra m))"
    using h(1) by (simp add: stripped_frame(4))
  ultimately show ?thesis using h(2) stripped_frame(2,3) by metis
qed

section \<open>Packets\<close>

text \<open>Every message the listener writes is a reply to the packet it read.\<close>

definition replies_to :: "dns_lib \<Rightarrow> dns_msg \<Rightarrow> dns_msg \<Rightarrow> bool" where
  "replies_to lib m r \<longleftrightarrow>
     m_Id r = m_Id m \<and> m_Response r \<and> m_Question r = [hd (m_Question m)]
     \<and> edns_for lib (client_opt lib m) r"

lemma edns_for_bare: "records r = [] \<Longrightarrow> edns_for lib copt r"
  by (auto simp: edns_for_def records_def split: option.split)

lemma edns_for_rcode [simp]: "edns_for lib copt (r\<lparr>m_Rcode := c\<rparr>) = edns_for lib copt r"
  by (simp add: edns_for_def records_def split: option.split)

lemma replies_to_bare:
  assumes "reply_laws lib" and "m_Question m \<noteq> []"
  shows "replies_to lib m ((lib_SetReply lib new_msg m)\<lparr>m_Rcode := c\<rparr>)"
  using SetReply_laws [OF assms(1)] assms(2)
  by (simp add: replies_to_def edns_for_bare records_def new_msg_def)

lemma replies_to_sanitized:
  assumes "edns_laws lib" and "m_Id x = m_Id m" and "m_Response x" and "m_Question x = [hd (m_Question m)]"
  shows "replies_to lib m (sanitizeForClient lib x m)"
proof -
  obtain a n y where "sanitizeForClient lib x m = x\<lparr>m_Answer := a, m_Ns := n, m_Extra := y\<rparr>"
    using sanitize_frame [OF assms(1)] by blast
  with sanitize_edns [OF assms(1), of m x] assms(2-4) show ?thesis by (simp add: replies_to_def)
qed

lemma reply_for_replies:
  assumes "edns_laws lib" and "reply_laws lib" and "m_Question m \<noteq> []"
  shows "replies_to lib m (reply_for lib m resp)"
  using assms SetReply_laws [OF assms(2)] replies_to_bare [OF assms(2,3)]
  by (auto simp: reply_for_def servfail_def Let_def split: option.split intro!: replies_to_sanitized)

lemma carriesOwnToken_first:
  assumes "edns_laws lib" and "m_Extra m = [RR h (RD_OPT (EDNS0_LOCAL loopOptionCode token # os))]"
    and "h_Rrtype h = TypeOPT"
  shows "carriesOwnToken lib token (Some m)"
  using IsEdns0_single [OF assms(1,2)] assms(2,3) by (simp add: carriesOwnToken_def same_token_iff)


text \<open>
  (C23) A query that the module sent to an upstream and that comes back to its listener is refused
  with SERVFAIL; the handler is not asked, its state stays, and only the loop log is touched.
\<close>

theorem own_query_refused:
  assumes "query_laws lib" and "reply_laws lib"
  shows "\<exists>r. handlePacket lib token now handle addr (Some (build_query lib token query)) st
      = (Reply r, (fst st, snd (loopDetected now (snd st))))
    \<and> m_Rcode r = RcodeServerFailure \<and> records r = []"
proof -
  have e: "edns_laws lib" using assms(1) unfolding query_laws_def by blast
  obtain h os q where q: "h_Rrtype h = TypeOPT" "m_Question (build_query lib token query) = [q]"
    "m_Extra (build_query lib token query) = [RR h (RD_OPT (EDNS0_LOCAL loopOptionCode token # os))]"
    using query_one_opt [OF assms(1), of token query] by blast
  have "carriesOwnToken lib token (Some (build_query lib token query))"
    using e q(3,1) by (rule carriesOwnToken_first)
  with q(2) SetReply_laws [OF assms(2)] show ?thesis
    by (simp add: handlePacket_def records_def new_msg_def)
qed

text \<open>
  The reply to the client carries the code and, signatures and EDNS0 records aside, exactly
  the records of the answer in their order, once the answer survives the trip through its wire form.
\<close>

theorem reply_carries_answer:
  assumes "edns_laws lib" and "reply_laws lib" and "m_Question m = q # qs"
    and "\<not> carriesOwnToken lib token (Some m)"
    and "handle (query_of addr q) (fst st) = (Handler_Response (Some resp), s')"
    and "dr_RawMsg resp = Some raw" and "lib_Pack lib raw = Some b" and "lib_Unpack lib b = Some raw"
  shows "\<exists>r. handlePacket lib token now handle addr (Some m) st = (Reply r, (s', snd st))
    \<and> m_Rcode r = m_Rcode raw \<and> dropSigs (m_Answer r) = dropSigs (m_Answer raw)
    \<and> dropSigs (m_Ns r) = dropSigs (m_Ns raw)
    \<and> dropSigs (filter (\<lambda>x. rrtype x \<noteq> TypeOPT) (m_Extra r))
      = dropSigs (filter (\<lambda>x. rrtype x \<noteq> TypeOPT) (m_Extra raw))"
proof -
  let ?x = "(lib_SetReply lib raw m)\<lparr>m_Rcode := m_Rcode raw\<rparr>"
  obtain a n x where s: "sanitizeForClient lib ?x m = ?x\<lparr>m_Answer := a, m_Ns := n, m_Extra := x\<rparr>"
    "dropSigs a = dropSigs (m_Answer ?x)" "dropSigs n = dropSigs (m_Ns ?x)"
    "dropSigs (filter (\<lambda>r. rrtype r \<noteq> TypeOPT) x) = dropSigs (filter (\<lambda>r. rrtype r \<noteq> TypeOPT) (m_Extra ?x))"
    using sanitize_frame [OF assms(1), of ?x m] by blast
  have "handlePacket lib token now handle addr (Some m) st = (Reply (sanitizeForClient lib ?x m), (s', snd st))"
    using assms(3-) by (simp add: handlePacket_def reply_for_def)
  with s SetReply_laws(5-7) [OF assms(2), of raw m] show ?thesis by simp
qed

section \<open>The handler behind the listener\<close>

text \<open>What the listener relies on of a handler: it keeps its own invariant and does not panic.\<close>

locale query_handler =
  fixes handle :: "dns_query \<Rightarrow> 's \<Rightarrow> handled \<times> 's"
    and inv :: "'s \<Rightarrow> bool"
  assumes handle_inv: "inv s \<Longrightarrow> inv (snd (handle q s))"
    and handle_no_panic: "inv s \<Longrightarrow> fst (handle q s) \<noteq> Handler_Panic"
begin

lemma packet_inv:
  assumes "inv (fst st)"
  shows "inv (fst (snd (handlePacket lib token now handle addr msg st)))"
  using assms handle_inv [of "fst st"]
  by (auto simp: handlePacket_def split: option.split list.split prod.split handled.split dest: sym)
    (metis snd_conv)+

lemma packet_answered:
  assumes "inv (fst st)" and "m_Question m \<noteq> []"
  shows "\<exists>r. fst (handlePacket lib token now handle addr (Some m) st) = Reply r"
proof (cases "m_Question m")
  case (Cons q qs)
  show ?thesis
  proof (cases "fst (handle (query_of addr q) (fst st))")
    case Handler_Panic
    with handle_no_panic [OF assms(1)] show ?thesis by blast
  qed (use Cons in \<open>auto simp: handlePacket_def split: prod.split\<close>)
qed (use assms(2) in simp)

end

interpretation module_handler: query_handler "module_handler w clk cancelled" module_pure
  for w clk cancelled
proof
  fix s q
  assume pure: "module_pure s"
  then show "module_pure (snd (module_handler w clk cancelled q s))"
    using HandleQuery_pure [OF pure, of w clk cancelled q] by (auto simp: module_handler_def split: prod.split)
  have "fst (HandleQuery w clk cancelled q (Some s)) \<noteq> Panicked"
    using HandleQuery_good [OF pure, of q w clk cancelled] by (simp add: good_result_def)
  then show "fst (module_handler w clk cancelled q s) \<noteq> Handler_Panic"
    by (cases "fst (HandleQuery w clk cancelled q (Some s))")
      (auto simp: module_handler_def split: prod.split)
qed

text \<open>A running service: packets arrive, queued prefetches run.\<close>

datatype serve_event =
    Ev_Packet world clock bool client_addr "dns_msg option"
  | Ev_Background world clock nat

fun serve_step :: "module_state \<times> loop_log \<Rightarrow> serve_event \<Rightarrow> module_state \<times> loop_log" where
  "serve_step st (Ev_Packet w clk cancelled addr msg) =
     snd (handlePacket (w_lib w) (w_token w) (clk 0) (module_handler w clk cancelled) addr msg st)"
| "serve_step st (Ev_Background w clk i) = (run_prefetch w clk i (fst st), snd st)"

interpretation serve: machine serve_step "\<lambda>st. module_pure (fst (st :: module_state \<times> loop_log))"
proof
  fix st :: "module_state \<times> loop_log" and ev
  assume pure: "module_pure (fst st)"
  show "module_pure (fst (serve_step st ev))"
  proof (cases ev)
    case (Ev_Packet w clk cancelled addr msg)
    with pure show ?thesis by (simp add: module_handler.packet_inv)
  next
    case (Ev_Background w clk i)
    with module.step_inv [OF pure, of "Ev_Prefetch w clk i"] show ?thesis by simp
  qed
qed


section \<open>Starting and stopping\<close>

definition pair_of :: "listener_config \<Rightarrow> string \<Rightarrow> server_pair" where
  "pair_of config addr = \<lparr>sp_udp = udp_server config addr, sp_tcp = tcp_server config addr\<rparr>"

definition listener_ok :: "listener \<Rightarrow> bool" where
  "listener_ok l \<longleftrightarrow> li_running l = servers_of (li_servers l) \<and> li_ctx l = Some False"

lemma startPair_Inr:
  assumes "startPair env config addr l = (Inr p, l')"
  shows "p = pair_of config addr" "l' = l\<lparr>li_running := li_running l @ servers_of [p]\<rparr>"
  using assms by (auto simp: startPair_def pair_of_def servers_of_def Let_def split: option.splits)

lemma startPair_Inl: "startPair env config addr l = (Inl e, l') \<Longrightarrow> l' = l"
  by (auto simp: startPair_def Let_def split: option.splits)

lemma Stop_all:
  assumes "listener_ok l" and "\<And>s. le_Shutdown env s = None"
  shows "\<exists>l'. Listener_Stop env l = Some (None, l') \<and> li_running l' = [] \<and> li_servers l' = []
    \<and> li_ctx l' = Some True"
  using assms by (simp add: Listener_Stop_def listener_ok_def Let_def List.map_filter_def)

lemma start_loop_result:
  assumes "listener_ok l" and "\<And>s. le_Shutdown env s = None"
  shows "\<exists>e l'. start_loop env config addrs l = Some (e, l')
    \<and> (if e = None then listener_ok l' \<and> li_servers l' = li_servers l @ map (pair_of config) addrs
       else li_running l' = [] \<and> li_servers l' = [])"
  using assms(1)
proof (induction addrs arbitrary: l)
  case (Cons addr addrs)
  obtain r l' where p: "startPair env config addr l = (r, l')" by fastforce
  show ?case
  proof (cases r)
    case (Inl e)
    with p startPair_Inl Stop_all [OF Cons.prems assms(2)] show ?thesis by fastforce
  next
    case (Inr pair)
    note sp = startPair_Inr [OF p [unfolded Inr]]
    have "listener_ok (l'\<lparr>li_servers := li_servers l' @ [pair]\<rparr>)"
      using Cons.prems by (simp add: sp(2) listener_ok_def servers_of_def)
    from Cons.IH [OF this] obtain e l'' where
      "start_loop env config addrs (l'\<lparr>li_servers := li_servers l' @ [pair]\<rparr>) = Some (e, l'')"
      "if e = None then listener_ok l'' \<and> li_servers l'' = li_servers l @ pair # map (pair_of config) addrs
       else li_running l'' = [] \<and> li_servers l'' = []"
      by (auto simp: sp(2))
    with Inr p sp(1) show ?thesis by (intro exI [of _ e] exI [of _ l'']) simp
  qed
qed simp

text \<open>
  (C38) As long as servers can be shut down, starting a listener returns: either both servers of
  every address run and the listener is healthy, or no server is left running.
\<close>

theorem start_all_or_nothing:
  assumes "li_config l = Some config" and "li_handler l" and "DnsListenerConfig_Validate config = None"
    and "li_servers l = []" and "li_running l = []" and "\<And>s. le_Shutdown env s = None"
  shows "\<exists>e l'. Listener_Start env l = Some (e, l')
    \<and> (if e = None
       then Listener_Healthy l' \<and> li_running l' = servers_of
              (map (pair_of config) (lc_ListenAddr config # lc_ExtraListenAddrs config))
       else \<not> Listener_Healthy l' \<and> li_running l' = [])"
proof -
  have "listener_ok (l\<lparr>li_ctx := Some False\<rparr>)"
    using assms(4,5) by (simp add: listener_ok_def servers_of_def)
  from start_loop_result [OF this assms(6), where config = config
      and addrs = "lc_ListenAddr config # lc_ExtraListenAddrs config"]
  obtain e l' where "Listener_Start env l = Some (e, l')"
    "if e = None then listener_ok l' \<and> li_servers l' = map (pair_of config)
        (lc_ListenAddr config # lc_ExtraListenAddrs config)
     else li_running l' = [] \<and> li_servers l' = []"
    using assms(1-4) by (auto simp: Listener_Start_def)
  then show ?thesis
    by (intro exI [of _ e] exI [of _ l']) (auto simp: Listener_Healthy_def listener_ok_def split: if_splits)
qed

text \<open>
  (C40) Where a later address cannot be opened and a server started just before reports an error on
  shutdown, as one does that is not serving yet, starting never returns: it waits for that server.
\<close>

theorem failed_start_hangs:
  assumes "li_config l = Some config" and "li_handler l" and "DnsListenerConfig_Validate config = None"
    and "li_servers l = []" and "li_running l = []"
    and "lc_ExtraListenAddrs config = addr # addrs"
    and "\<And>run net. le_Listen env run net (lc_ListenAddr config) = None"
    and "\<And>run. le_Listen env run ''udp'' addr \<noteq> None"
    and "le_Shutdown env (udp_server config (lc_ListenAddr config)) \<noteq> None"
  shows "Listener_Start env l = None"
proof -
  let ?u = "udp_server config (lc_ListenAddr config)" and ?t = "tcp_server config (lc_ListenAddr config)"
  define l1 where "l1 = l\<lparr>li_ctx := Some False, li_running := [?u, ?t],
    li_servers := [\<lparr>sp_udp = ?u, sp_tcp = ?t\<rparr>]\<rparr>"
  have "startPair env config (lc_ListenAddr config) (l\<lparr>li_ctx := Some False\<rparr>)
      = (Inr \<lparr>sp_udp = ?u, sp_tcp = ?t\<rparr>, l\<lparr>li_ctx := Some False, li_running := [?u, ?t]\<rparr>)"
    using assms(5,7) by (simp add: startPair_def Let_def)
  then have "Listener_Start env l = start_loop env config (addr # addrs) l1"
    using assms(1-4,6) by (simp add: Listener_Start_def l1_def)
  moreover obtain e where "le_Listen env (li_running l1) ''udp'' addr = Some e" using assms(8) by blast
  then have "startPair env config addr l1 = (Inl (ListenFailed ''udp'' addr e), l1)"
    by (simp add: startPair_def)
  moreover have "Listener_Stop env l1 = None"
    using assms(9) by (auto simp: Listener_Stop_def l1_def Let_def)
  ultimately show ?thesis by simp
qed

section \<open>Concrete packets\<close>

definition sample_packet :: dns_msg where
  "sample_packet = new_msg\<lparr>m_Id := 77, m_RecursionDesired := True,
     m_Question := [\<lparr>qn_Name = ''a.'', qn_Qtype = TypeA, qn_Qclass = 1\<rparr>],
     m_Extra := [RR \<lparr>h_Name = ''.'', h_Rrtype = TypeOPT, h_Class = 100, h_Ttl = 0\<rparr> (RD_OPT [])]\<rparr>"

definition sample_raw :: dns_msg where
  "sample_raw = new_msg\<lparr>m_Response := True, m_Answer := [sample_rr 60], m_Extra := [new_opt 4096 []]\<rparr>"

text \<open>The package of the examples, with a wire form that carries one message.\<close>

definition wire_lib :: dns_lib where
  "wire_lib = ref_lib\<lparr>lib_Unpack := (\<lambda>b. Some sample_raw)\<rparr>"

lemma wire_lib_sel:
  "lib_IsEdns0 wire_lib = lib_IsEdns0 ref_lib" "lib_SetEdns0 wire_lib = lib_SetEdns0 ref_lib"
  "lib_Do wire_lib = lib_Do ref_lib" "lib_UDPSize wire_lib = lib_UDPSize ref_lib"
  "lib_SetReply wire_lib = lib_SetReply ref_lib" "lib_SetRcode wire_lib = lib_SetRcode ref_lib"
  by (simp_all add: wire_lib_def)

lemma wire_lib_laws: "edns_laws wire_lib" "reply_laws wire_lib"
  using ref_lib_edns ref_lib_reply unfolding edns_laws_def reply_laws_def wire_lib_sel .

definition sample_handle :: "dns_query \<Rightarrow> nat \<Rightarrow> handled \<times> nat" where
  "sample_handle query n = (Handler_Response (Some (sample_answer\<lparr>dr_RawMsg := Some sample_raw\<rparr>)), n + 1)"

lemma sample_not_own: "\<not> carriesOwnToken wire_lib [1] (Some sample_packet)"
  by (simp add: carriesOwnToken_def wire_lib_def ref_lib_def find_opt_def sample_packet_def)


theorem own_query_refused_witness:
  "\<exists>r. handlePacket ref_lib [1] 0 sample_handle (UDPAddr [10, 0, 0, 1])
      (Some (build_query ref_lib [1] sample_upq)) (3, \<lparr>ll_LastLog = 0, ll_Suppressed = 0\<rparr>)
      = (Reply r, (3, snd (loopDetected 0 \<lparr>ll_LastLog = 0, ll_Suppressed = 0\<rparr>)))
    \<and> m_Rcode r = RcodeServerFailure \<and> records r = []"
  using own_query_refused [OF ref_lib_query ref_lib_reply, of "[1]" 0 sample_handle "UDPAddr [10, 0, 0, 1]"
      sample_upq "(3, \<lparr>ll_LastLog = 0, ll_Suppressed = 0\<rparr>)"] by simp

theorem reply_carries_answer_witness:
  "\<exists>r. handlePacket wire_lib [1] 0 sample_handle (UDPAddr [10, 0, 0, 1]) (Some sample_packet)
        (0, \<lparr>ll_LastLog = 0, ll_Suppressed = 0\<rparr>) = (Reply r, (1, \<lparr>ll_LastLog = 0, ll_Suppressed = 0\<rparr>))
    \<and> dropSigs (m_Answer r) = dropSigs [sample_rr 60]"
proof -
  have "handlePacket wire_lib [1] 0 sample_handle (UDPAddr [10, 0, 0, 1]) (Some sample_packet)
      (0, \<lparr>ll_LastLog = 0, ll_Suppressed = 0\<rparr>) = (Reply r, (1, \<lparr>ll_LastLog = 0, ll_Suppressed = 0\<rparr>))
    \<Longrightarrow> dropSigs (m_Answer r) = dropSigs (m_Answer sample_raw) \<Longrightarrow> ?thesis" for r
    by (simp add: sample_raw_def)
  then show ?thesis
    using reply_carries_answer [OF wire_lib_laws _ sample_not_own,
        where handle = sample_handle and addr = "UDPAddr [10, 0, 0, 1]" and raw = sample_raw and b = "[]"
          and st = "(0, \<lparr>ll_LastLog = 0, ll_Suppressed = 0\<rparr>)" and now = 0 and s' = 1
          and resp = "sample_answer\<lparr>dr_RawMsg := Some sample_raw\<rparr>"
          and q = "\<lparr>qn_Name = ''a.'', qn_Qtype = TypeA, qn_Qclass = 1\<rparr>" and qs = "[]"]
    by (auto simp: sample_handle_def sample_packet_def wire_lib_def ref_lib_def)
qed


definition sample_listener :: listener where
  "sample_listener = NewDnsListener (Some \<lparr>lc_ListenAddr = ''127.0.0.1:53'',
     lc_ExtraListenAddrs = [''127.0.0.2:53''], lc_Timeout = 5\<rparr>) True"

theorem start_all_or_nothing_witness:
  "\<exists>e l'. Listener_Start \<lparr>le_Listen = (\<lambda>run net a. None), le_Shutdown = (\<lambda>s. None)\<rparr> sample_listener = Some (e, l')
    \<and> (if e = None then Listener_Healthy l' \<and> length (li_running l') = 4
       else \<not> Listener_Healthy l' \<and> li_running l' = [])"
proof -
  let ?c = "\<lparr>lc_ListenAddr = ''127.0.0.1:53'', lc_ExtraListenAddrs = [''127.0.0.2:53''], lc_Timeout = 5\<rparr>"
  have "DnsListenerConfig_Validate ?c = None" by (simp add: DnsListenerConfig_Validate_None)
  then obtain e l' where
    "Listener_Start \<lparr>le_Listen = (\<lambda>run net a. None), le_Shutdown = (\<lambda>s. None)\<rparr> sample_listener = Some (e, l')"
    "if e = None then Listener_Healthy l' \<and> li_running l' = servers_of
         (map (pair_of ?c) (lc_ListenAddr ?c # lc_ExtraListenAddrs ?c))
     else \<not> Listener_Healthy l' \<and> li_running l' = []"
    using start_all_or_nothing [of sample_listener ?c
        "\<lparr>le_Listen = (\<lambda>run net a. None), le_Shutdown = (\<lambda>s. None)\<rparr>"]
    by (auto simp: sample_listener_def NewDnsListener_def)
  then show ?thesis by (intro exI [of _ e] exI [of _ l']) (simp add: servers_of_def split: if_splits)
qed

theorem failed_start_hangs_witness:
  "Listener_Start \<lparr>le_Listen = (\<lambda>run net a. if a = ''127.0.0.2:53'' then Some ''in use'' else None),
     le_Shutdown = (\<lambda>s. Some ''server not started'')\<rparr> sample_listener = None"
  by (rule failed_start_hangs [where config = "\<lparr>lc_ListenAddr = ''127.0.0.1:53'',
        lc_ExtraListenAddrs = [''127.0.0.2:53''], lc_Timeout = 5\<rparr>"])
    (simp_all add: sample_listener_def NewDnsListener_def DnsListenerConfig_Validate_None)

end
