(* ===== verification/Go_Print.thy ===== *)
theory Go_Print
  imports Go_Net
begin

text \<open>
  The printed forms of numbers and addresses in the Go standard library (\<open>strconv.Itoa\<close>,
  \<open>netip.Addr.String\<close>, \<open>netip.AddrPort.String\<close>, \<open>net.IP.String\<close>), and that parsing reads a printed
  IPv4 address back.
\<close>

section \<open>Numbers\<close>

definition digit_char :: "nat \<Rightarrow> char" where
  "digit_char d = char_of (48 + d)"

fun Itoa :: "nat \<Rightarrow> string" where
  "Itoa n = (if n < 10 then [digit_char n] else Itoa (n div 10) @ [digit_char (n mod 10)])"

declare Itoa.simps [simp del]

lemma digit_digit_char: "d < 10 \<Longrightarrow> digit (digit_char d) = Some d"
  by (simp add: digit_def digit_char_def)

lemma dec_acc_append:
  "dec_acc a (xs @ ys) = (case dec_acc a xs of None \<Rightarrow> None | Some b \<Rightarrow> dec_acc b ys)"
  by (induction xs arbitrary: a) (auto split: option.split)

lemma Itoa_nonempty: "Itoa n \<noteq> []"
  by (subst Itoa.simps) simp

lemma dec_acc_Itoa: "dec_acc 0 (Itoa n) = Some n"
proof (induction n rule: Itoa.induct)
  case (1 n)
  show ?case
  proof (cases "n < 10")
    case True
    then show ?thesis by (subst Itoa.simps) (simp add: digit_digit_char)
  next
    case False
    from 1 [OF False] False show ?thesis
      by (subst Itoa.simps) (simp add: dec_acc_append digit_digit_char)
  qed
qed

lemma dec_nat_Itoa [simp]: "dec_nat (Itoa n) = Some n"
  by (simp add: dec_nat_def Itoa_nonempty dec_acc_Itoa)

lemma Itoa_digits: "c \<in> set (Itoa n) \<Longrightarrow> digit c \<noteq> None"
proof (induction n rule: Itoa.induct)
  case (1 n)
  then show ?case
    by (cases "n < 10") (auto simp: Itoa.simps [of n] digit_digit_char)
qed

lemma Itoa_no_leading_zero: "0 < n \<Longrightarrow> hd (Itoa n) \<noteq> CHR ''0''"
proof (induction n rule: Itoa.induct)
  case (1 n)
  show ?case
  proof (cases "n < 10")
    case True
    have "digit (CHR ''0'') = Some 0" by (simp add: digit_def)
    with digit_digit_char [OF True] 1(2) have "digit_char n \<noteq> CHR ''0''" by auto
    with True show ?thesis by (simp add: Itoa.simps [of n])
  next
    case False
    then have "0 < n div 10" by simp
    with 1(1) [OF False this] False show ?thesis by (simp add: Itoa.simps [of n] hd_append Itoa_nonempty)
  qed
qed

fun Hex :: "nat \<Rightarrow> string" where
  "Hex n = (if n < 16 then [''0123456789abcdef'' ! n] else Hex (n div 16) @ [''0123456789abcdef'' ! (n mod 16)])"

declare Hex.simps [simp del]

section \<open>Addresses\<close>

fun Join :: "string list \<Rightarrow> string \<Rightarrow> string" where
  "Join [] sep = []"
| "Join [w] sep = w"
| "Join (w # ws) sep = w @ sep @ Join ws sep"

definition v4_string :: "ip \<Rightarrow> string" where
  "v4_string b = Join (map (\<lambda>x. Itoa (unat x)) b) ''.''"

text \<open>The first longest run of at least two zero groups is left out.\<close>

fun v6_groups :: "ip \<Rightarrow> nat list" where
  "v6_groups (a # b # rest) = (256 * unat a + unat b) # v6_groups rest"
| "v6_groups _ = []"

definition zero_run :: "nat list \<Rightarrow> nat \<times> nat" where
  "zero_run gs =
     foldl (\<lambda>(zs, ze) i.
       let j = i + length (takeWhile (\<lambda>g. g = 0) (drop i gs))
       in if 2 \<le> j - i \<and> ze - zs < j - i then (i, j) else (zs, ze)) (0, 0) [0..<length gs]"

definition v6_string :: "ip \<Rightarrow> string" where
  "v6_string b =
     (let gs = v6_groups b; (zs, ze) = zero_run gs in
      if zs < ze then Join (map Hex (take zs gs)) '':'' @ ''::'' @ Join (map Hex (drop ze gs)) '':''
      else Join (map Hex gs) '':'')"

definition is_mapped :: "ip \<Rightarrow> bool" where
  "is_mapped b \<longleftrightarrow> length b = 16 \<and> take 12 b = v4InV6Prefix"

text \<open>\<open>netip.Addr.String\<close>, \<open>netip.AddrPort.String\<close> of a valid address, and \<open>net.IP.String\<close>.\<close>

definition Addr_String :: "ip \<Rightarrow> string \<Rightarrow> string" where
  "Addr_String b zone =
     (if length b = 4 then v4_string b
      else (if is_mapped b then ''::ffff:'' @ v4_string (drop 12 b) else v6_string b)
           @ (if zone = [] then [] else CHR ''%'' # zone))"

definition AddrPort_String :: "addr_port \<Rightarrow> string" where
  "AddrPort_String ap =
     (if length (ap_Addr ap) = 4 then v4_string (ap_Addr ap) @ '':'' @ Itoa (ap_Port ap)
      else ''['' @ Addr_String (ap_Addr ap) (ap_Zone ap) @ '']:'' @ Itoa (ap_Port ap))"

definition IP_String :: "ip \<Rightarrow> string" where
  "IP_String b =
     (if b = [] then ''<nil>''
      else if To4 b \<noteq> [] then v4_string (To4 b)
      else if length b = 16 then v6_string b
      else CHR ''?'' # concat (map (\<lambda>x. [''0123456789abcdef'' ! (unat x div 16),
                                          ''0123456789abcdef'' ! (unat x mod 16)]) b))"

lemma v4_field_Itoa: "v4_field (Itoa (unat (x :: byte))) = Some x"
proof (cases "unat x = 0")
  case True
  then have "x = 0" by (simp add: unat_eq_0)
  then show ?thesis by (simp add: v4_field_def Itoa.simps [of 0] digit_char_def dec_nat_def digit_def)
next
  case False
  then have "hd (Itoa (unat x)) \<noteq> CHR ''0''" by (intro Itoa_no_leading_zero) simp
  moreover have "unat x \<le> 255" using unsigned_less [of x, where 'a = nat] by simp
  ultimately show ?thesis by (simp add: v4_field_def)
qed

lemma digit_not_sep: "digit c \<noteq> None \<Longrightarrow> c \<notin> {CHR ''.'', CHR '':'', CHR ''%'', CHR ''['', CHR '']'', CHR ''/''}"
  by (auto simp: digit_def)

lemma Itoa_no_sep:
  "CHR ''.'' \<notin> set (Itoa n)" "CHR '':'' \<notin> set (Itoa n)" "CHR ''%'' \<notin> set (Itoa n)"
  "CHR ''['' \<notin> set (Itoa n)" "CHR '']'' \<notin> set (Itoa n)" "CHR ''/'' \<notin> set (Itoa n)"
  using Itoa_digits [of _ n] digit_not_sep by blast+

lemma split_on_absent: "c \<notin> set w \<Longrightarrow> split_on c w = [w]"
  by (induction w) auto

lemma split_on_Cons: "c \<notin> set w \<Longrightarrow> split_on c (w @ c # ys) = w # split_on c ys"
  by (induction w) auto

lemma parseIPv4_v4_string:
  assumes "length b = 4"
  shows "parseIPv4 (v4_string b) = Some b"
proof -
  obtain x y z w where b: "b = [x, y, z, w]" using assms by (auto simp: numeral_eq_Suc length_Suc_conv)
  show ?thesis
    by (simp add: b v4_string_def parseIPv4_def split_on_Cons split_on_absent Itoa_no_sep v4_field_Itoa)
qed

lemma find_append_absent: "(\<And>x. x \<in> set xs \<Longrightarrow> \<not> P x) \<Longrightarrow> find P (xs @ ys) = find P ys"
  by (induction xs) auto

lemma ParseAddr_v4_string:
  assumes "length b = 4"
  shows "ParseAddr (v4_string b) = Some (b, [])"
proof -
  obtain x y z w where b: "b = [x, y, z, w]" using assms by (auto simp: numeral_eq_Suc length_Suc_conv)
  have "find (\<lambda>c. c = CHR ''.'' \<or> c = CHR '':'' \<or> c = CHR ''%'') (v4_string b) = Some (CHR ''.'')"
    by (simp add: b v4_string_def, subst find_append_absent) (auto simp: Itoa_no_sep)
  with parseIPv4_v4_string [OF assms] show ?thesis by (simp add: ParseAddr_def)
qed

lemma v4_string_plain:
  assumes "length b = 4"
  shows "plain_host (v4_string b)" "CHR '':'' \<notin> set (v4_string b)" "v4_string b \<noteq> []"
proof -
  obtain x y z w where b: "b = [x, y, z, w]" using assms by (auto simp: numeral_eq_Suc length_Suc_conv)
  show "plain_host (v4_string b)" "CHR '':'' \<notin> set (v4_string b)" "v4_string b \<noteq> []"
    by (simp_all add: b v4_string_def plain_host_def Itoa_no_sep)
qed

lemma ParseIP_v4_string: "length b = 4 \<Longrightarrow> ParseIP (v4_string b) = v4InV6Prefix @ b"
  by (simp add: ParseIP_def ParseAddr_v4_string To16_def)

lemma ParseAddrPort_String:
  assumes "length (ap_Addr ap) = 4" and "ap_Zone ap = []" and "ap_Port ap < 65536"
  shows "ParseAddrPort (AddrPort_String ap) = Some ap"
proof -
  have s: "split_last (CHR '':'') (v4_string (ap_Addr ap) @ CHR '':'' # Itoa (ap_Port ap))
      = Some (v4_string (ap_Addr ap), Itoa (ap_Port ap))"
    by (rule split_last_snoc) (rule Itoa_no_sep)
  have "hd (v4_string (ap_Addr ap)) \<noteq> CHR ''[''"
    using v4_string_plain [OF assms(1)] by (cases "v4_string (ap_Addr ap)") (auto simp: plain_host_def)
  with s assms show ?thesis
    by (simp add: AddrPort_String_def ParseAddrPort_def v4_string_plain Itoa_nonempty ParseAddr_v4_string)
qed

end
