(* ===== verification/Dns_Module.thy ===== *)
theory Dns_Module
  imports Dns_Listener Go_Print
begin

text \<open>
  The lifecycle of the DNS module: \<open>core/dns/module.go\<close> with the system's name servers
  (\<open>dns_unix.go\<close>, \<open>dns.go\<close>) and the interface its sockets leave through (\<open>socket_egress.go\<close>). The
  outside is the parameter \<open>module_env\<close>: network, sockets, regular expressions, the host name of a
  URL, the lines of \<open>/etc/resolv.conf\<close> (none when it cannot be read) and the time.
\<close>

section \<open>The system's name servers\<close>

definition countAnyByte :: "string \<Rightarrow> string \<Rightarrow> nat" where
  "countAnyByte s t = length (filter (\<lambda>c. c \<in> set t) s)"

text \<open>
  The loop of \<open>splitAtBytes\<close> over index \<open>i\<close>, with the array \<open>a\<close>; writing past its end would panic,
  which is \<open>None\<close>.
\<close>

fun split_bytes_loop ::
  "string \<Rightarrow> string \<Rightarrow> nat \<Rightarrow> nat \<Rightarrow> nat \<Rightarrow> string list \<Rightarrow> string \<Rightarrow> (nat \<times> nat \<times> string list) option" where
  "split_bytes_loop s t i beg n a [] = Some (beg, n, a)"
| "split_bytes_loop s t i beg n a (c # cs) =
     (if c \<in> set t then
        (if beg < i then
           (if n < length a
            then split_bytes_loop s t (Suc i) (Suc i) (Suc n) (a[n := drop beg (take i s)]) cs
            else None)
         else split_bytes_loop s t (Suc i) (Suc i) n a cs)
      else split_bytes_loop s t (Suc i) beg n a cs)"

definition splitAtBytes :: "string \<Rightarrow> string \<Rightarrow> string list option" where
  "splitAtBytes s t =
     (case split_bytes_loop s t 0 0 0 (replicate (1 + countAnyByte s t) []) s of
        None \<Rightarrow> None
      | Some (beg, n, a) \<Rightarrow>
          if beg < length s then
            (if n < length a then Some (take (Suc n) (a[n := drop beg s])) else None)
          else Some (take n a))"

definition field_seps :: string where
  "field_seps = [CHR '' '', CHR 0x0D, CHR 0x09, CHR 0x0A]"

definition getFields :: "string \<Rightarrow> string list option" where
  "getFields s = splitAtBytes s field_seps"

definition defaultDNS :: "addr_port list" where
  "defaultDNS = [\<lparr>ap_Addr = [127, 0, 0, 1], ap_Zone = [], ap_Port = 53\<rparr>,
     \<lparr>ap_Addr = replicate 15 0 @ [1], ap_Zone = [], ap_Port = 53\<rparr>]"

definition nameserver_line :: "string \<Rightarrow> addr_port list" where
  "nameserver_line line =
     (case getFields line of
        Some (f0 # f1 # _) \<Rightarrow>
          if f0 = ''nameserver'' then
            (case ParseAddr f1 of
               Some (b, z) \<Rightarrow> [\<lparr>ap_Addr = b, ap_Zone = z, ap_Port = 53\<rparr>] | None \<Rightarrow> [])
          else []
      | _ \<Rightarrow> [])"

definition GetSystemDNS :: "string list option \<Rightarrow> addr_port list" where
  "GetSystemDNS resolv =
     (case resolv of None \<Rightarrow> defaultDNS | Some lines \<Rightarrow> concat (map nameserver_line lines))"

section \<open>Egress interface\<close>

definition egressInterfaceIndex :: "(string \<Rightarrow> int option) \<Rightarrow> string option \<Rightarrow> int \<times> bool" where
  "egressInterfaceIndex byName p =
     (case p of
        None \<Rightarrow> (0, False)
      | Some name \<Rightarrow>
          if name = [] then (0, False)
          else case byName name of None \<Rightarrow> (0, False) | Some i \<Rightarrow> (i, True))"

text \<open>\<open>Unmap().Is6()\<close>.\<close>

definition is6 :: "ip \<Rightarrow> bool" where
  "is6 b \<longleftrightarrow> length b = 16 \<and> \<not> is_mapped b"

definition isIPv6Address :: "string \<Rightarrow> string \<Rightarrow> bool" where
  "isIPv6Address network address =
     (case ParseAddrPort address of
        Some ap \<Rightarrow> is6 (ap_Addr ap)
      | None \<Rightarrow>
          (case (case SplitHostPort address of None \<Rightarrow> None | Some (host, _) \<Rightarrow> ParseAddr host) of
             Some (b, _) \<Rightarrow> is6 b
           | None \<Rightarrow> suffix ''6'' network))"

section \<open>Bootstrap\<close>

definition wellKnownPublicDns :: "string list" where
  "wellKnownPublicDns =
     [''223.5.5.5:53'', ''223.6.6.6:53'', ''[2400:3200::1]:53'', ''[2400:3200:baba::1]:53'',
      ''119.29.29.29:53'', ''8.8.8.8:53'', ''8.8.4.4:53'', ''[2001:4860:4860::8888]:53'',
      ''[2001:4860:4860::8844]:53'', ''1.1.1.1:53'', ''1.0.0.1:53'', ''[2606:4700:4700::1111]:53'',
      ''[2606:4700:4700::1001]:53'']"

definition isOwnAddress :: "addr_port \<Rightarrow> bool" where
  "isOwnAddress ap =
     (if \<not> IP_IsLoopback (ap_Addr ap) \<and> \<not> IP_IsPrivate (ap_Addr ap) then False
      else list_ex (\<lambda>addr. ParseAddrPort addr = Some ap)
             [''127.0.0.1:53'', ''127.2.0.17:53'', ''127.0.0.1:5353''])"

definition add_server :: "addr_port list \<times> string set \<Rightarrow> string \<Rightarrow> addr_port list \<times> string set" where
  "add_server st s =
     (case st of (servers, seen) \<Rightarrow>
        if s \<in> seen then st
        else case ParseAddrPort s of
          Some ap \<Rightarrow> (servers @ [ap], insert s seen)
        | None \<Rightarrow> st)"

definition add_system :: "addr_port list \<times> string set \<Rightarrow> addr_port \<Rightarrow> addr_port list \<times> string set" where
  "add_system st ap =
     (case st of (servers, seen) \<Rightarrow>
        let s = AddrPort_String ap in
        if isOwnAddress ap \<or> s \<in> seen then st else (servers @ [ap], insert s seen))"

definition collectBootstrapDns :: "string list \<Rightarrow> string list option \<Rightarrow> addr_port list" where
  "collectBootstrapDns bootstrapDns resolv =
     fst (foldl add_server
            (foldl add_system (foldl add_server ([], {}) bootstrapDns) (GetSystemDNS resolv))
            wellKnownPublicDns)"

definition first_A :: "rr list \<Rightarrow> string option" where
  "first_A answer =
     (case a_records answer of [] \<Rightarrow> None | (_, a) # _ \<Rightarrow> Some (IP_String a))"

definition bootstrap_query :: "dns_lib \<Rightarrow> string \<Rightarrow> dns_msg" where
  "bootstrap_query lib domain =
     (lib_SetQuestion lib new_msg (lib_Fqdn lib domain) TypeA)\<lparr>m_RecursionDesired := True\<rparr>"

text \<open>
  The servers in turn; \<open>known\<close> says whether the domain is in the result already, which ends the
  loop at the first answer with records.
\<close>

fun bootstrap_loop ::
  "net_env \<Rightarrow> dns_lib \<Rightarrow> bool \<Rightarrow> string \<Rightarrow> nat \<Rightarrow> addr_port list \<Rightarrow> string option" where
  "bootstrap_loop net lib known domain i [] = None"
| "bootstrap_loop net lib known domain i (srv # rest) =
     (case fst (net_Exchange net ''udp'' None (AddrPort_String srv) (bootstrap_query lib domain) i) of
        Inl _ \<Rightarrow> bootstrap_loop net lib known domain (Suc i) rest
      | Inr None \<Rightarrow> bootstrap_loop net lib known domain (Suc i) rest
      | Inr (Some resp) \<Rightarrow>
          if m_Answer resp = [] then bootstrap_loop net lib known domain (Suc i) rest
          else case first_A (m_Answer resp) of
            Some ip \<Rightarrow> Some ip
          | None \<Rightarrow> if known then None else bootstrap_loop net lib known domain (Suc i) rest)"

definition bootstrap_domain ::
  "net_env \<Rightarrow> dns_lib \<Rightarrow> addr_port list \<Rightarrow> (string \<rightharpoonup> string) \<Rightarrow> string \<Rightarrow> (string \<rightharpoonup> string)" where
  "bootstrap_domain net lib servers resolved domain =
     (if domain = [] then resolved
      else if ParseIP domain \<noteq> [] then resolved(domain \<mapsto> domain)
      else case bootstrap_loop net lib (resolved domain \<noteq> None) domain 0 servers of
        Some ip \<Rightarrow> resolved(domain \<mapsto> ip)
      | None \<Rightarrow> resolved)"

definition resolveBootstrap ::
  "net_env \<Rightarrow> dns_lib \<Rightarrow> addr_port list \<Rightarrow> string list \<Rightarrow> (string \<rightharpoonup> string)" where
  "resolveBootstrap net lib servers domains =
     (if domains = [] \<or> servers = [] then Map.empty
      else foldl (bootstrap_domain net lib servers) Map.empty domains)"

section \<open>Upstream addresses\<close>

definition bootstrap_upstream ::
  "(string \<Rightarrow> string option) \<Rightarrow> (string \<rightharpoonup> string) \<Rightarrow> upstream_config \<Rightarrow> upstream_config" where
  "bootstrap_upstream urlHost resolved u =
     (if uc_Bootstrap u then u
      else if uc_Protocol u = ''https'' then
        (case urlHost (uc_Addr u) of Some h \<Rightarrow> u\<lparr>uc_ServerName := h\<rparr> | None \<Rightarrow> u)
      else case SplitHostPort (uc_Addr u) of
        None \<Rightarrow>
          (case resolved (uc_Addr u) of Some ip \<Rightarrow> u\<lparr>uc_Addr := ip @ '':53''\<rparr> | None \<Rightarrow> u)
      | Some (host, port) \<Rightarrow>
          if ParseIP host = [] then
            (let u1 = u\<lparr>uc_ServerName := host\<rparr> in
             case resolved host of
               Some ip \<Rightarrow> u1\<lparr>uc_Addr := JoinHostPort ip port\<rparr> | None \<Rightarrow> u1)
          else u)"

definition default_port :: "upstream_config \<Rightarrow> upstream_config" where
  "default_port u =
     (if uc_Protocol u = ''https'' then u
      else if SplitHostPort (uc_Addr u) = None then
        u\<lparr>uc_Addr := JoinHostPort (uc_Addr u)
           (if uc_Protocol u = ''tcp-tls'' \<or> uc_Protocol u = ''tls'' then ''853'' else ''53'')\<rparr>
      else u)"

definition upstream_name :: "upstream_config \<Rightarrow> string" where
  "upstream_name u = (if uc_ID u = [] then uc_Addr u else uc_ID u)"

definition selectDefaultUpstream :: "module_config \<Rightarrow> string" where
  "selectDefaultUpstream config =
     (if mc_DefaultUpstream config \<noteq> [] then mc_DefaultUpstream config
      else
        (let d = foldl (\<lambda>d u. if \<not> uc_Bootstrap u then upstream_name u else d) [] (mc_Upstreams config)
         in if d = [] \<and> mc_Upstreams config \<noteq> [] then upstream_name (last (mc_Upstreams config)) else d))"

section \<open>Lifecycle\<close>

record module_env =
  me_net :: net_env
  me_lib :: dns_lib
  me_listen :: listen_env
  me_compile :: regex_compiler
  me_urlHost :: "string \<Rightarrow> string option"
  me_resolv :: "string list option"
  me_now :: time

text \<open>
  \<open>mo_core\<close> holds what the handler uses; \<open>mo_egress\<close> is the global egress interface, which the module
  sets.
\<close>

record dns_module =
  mo_config :: module_config
  mo_core :: module_state
  mo_listener :: "listener option"
  mo_dispatcher :: bool
  mo_ctx :: "bool option"
  mo_healthy :: bool
  mo_egress :: string

datatype module_error =
    AlreadyStarted
  | InvalidModuleConfig config_error
  | RouterFailed router_error
  | ListenerFailed listen_error

definition NewDnsModule :: "time \<Rightarrow> module_config option \<Rightarrow> dns_module" where
  "NewDnsModule now config0 =
     (let config = (case config0 of None \<Rightarrow> DefaultDnsModuleConfig | Some c \<Rightarrow> c) in
      \<lparr>mo_config = config,
       mo_core = \<lparr>ms_Upstreams = mc_Upstreams config, ms_Router = None, ms_UpstreamMgr = None,
         ms_Cache = None, ms_Metrics = Some (NewDnsMetrics now), ms_Stats = new_stats now,
         ms_Pending = []\<rparr>,
       mo_listener = None, mo_dispatcher = False, mo_ctx = None, mo_healthy = False,
       mo_egress = mc_EgressInterface config\<rparr>)"

text \<open>The upstreams after bootstrap and with default ports, and what bootstrap resolved.\<close>

definition prepare_upstreams ::
  "module_env \<Rightarrow> module_config \<Rightarrow> upstream_config list \<times> (string \<rightharpoonup> string)" where
  "prepare_upstreams env config =
     (if mc_Bootstrap config \<noteq> [] then
        (let resolved = resolveBootstrap (me_net env) (me_lib env)
               (collectBootstrapDns (mc_BootstrapDns config) (me_resolv env)) (mc_Bootstrap config)
         in (map default_port (map (bootstrap_upstream (me_urlHost env) resolved) (mc_Upstreams config)),
             resolved))
      else (map default_port (mc_Upstreams config), Map.empty))"

definition make_manager ::
  "bool \<Rightarrow> (string \<times> string) list \<Rightarrow> upstream_config list \<Rightarrow> (string \<rightharpoonup> string) \<Rightarrow> upstream_manager" where
  "make_manager dispatcher proxyMap ups resolved =
     (let m1 = SetBootstrapIPs resolved (NewUpstreamManager ups);
          m2 = (if dispatcher then SetDispatcher True m1 else m1)
      in if proxyMap \<noteq> []
         then SetProxyAddrResolver (Some (\<lambda>tag. case map_of proxyMap tag of Some a \<Rightarrow> a | None \<Rightarrow> [])) m2
         else m2)"

definition Module_Start :: "module_env \<Rightarrow> dns_module \<Rightarrow> (module_error option \<times> dns_module) option" where
  "Module_Start env m =
     (if mo_healthy m then Some (Some AlreadyStarted, m)
      else case DnsModuleConfig_Validate (mo_config m) of
        Some e \<Rightarrow> Some (Some (InvalidModuleConfig e), m)
      | None \<Rightarrow>
          (let (ups, resolved) = prepare_upstreams env (mo_config m);
               config = (mo_config m)\<lparr>mc_Upstreams := ups\<rparr>;
               core = (mo_core m)\<lparr>ms_Upstreams := ups, ms_Stats := new_stats (me_now env),
                 ms_Metrics := map_option (Metrics_Reset (me_now env)) (ms_Metrics (mo_core m)),
                 ms_UpstreamMgr := Some (make_manager (mo_dispatcher m) (mc_ProxyMap config) ups resolved),
                 ms_Cache := (if cc_Enabled (mc_Cache config) then Some (NewDnsCache (mc_Cache config)) else None)\<rparr>;
               m1 = m\<lparr>mo_config := config, mo_core := core, mo_ctx := Some False\<rparr>
           in case NewRouter (me_compile env) (map rule_of_config (mc_Rules config)) ups
                     (selectDefaultUpstream config) of
                Inl e \<Rightarrow> Some (Some (RouterFailed e), m1\<lparr>mo_ctx := Some True\<rparr>)
              | Inr r \<Rightarrow>
                  (let m2 = m1\<lparr>mo_core := core\<lparr>ms_Router := Some r\<rparr>\<rparr> in
                   case Listener_Start (me_listen env) (NewDnsListener (Some (mc_Listener config)) True) of
                     None \<Rightarrow> None
                   | Some (Some e, l) \<Rightarrow>
                       Some (Some (ListenerFailed e), m2\<lparr>mo_listener := Some l, mo_ctx := Some True\<rparr>)
                   | Some (None, l) \<Rightarrow>
                       Some (None, m2\<lparr>mo_listener := Some l, mo_healthy := True\<rparr>))))"

definition Module_Stop :: "module_env \<Rightarrow> dns_module \<Rightarrow> dns_module option" where
  "Module_Stop env m0 =
     (let m = m0\<lparr>mo_egress := []\<rparr> in
      if \<not> mo_healthy m then Some m
      else
        (case mo_listener m of
           None \<Rightarrow> Some (m\<lparr>mo_ctx := Some True, mo_healthy := False\<rparr>)
         | Some l \<Rightarrow>
             (case Listener_Stop (me_listen env) l of
                None \<Rightarrow> None
              | Some (_, l') \<Rightarrow>
                  Some (m\<lparr>mo_listener := Some l', mo_ctx := Some True, mo_healthy := False\<rparr>))))"

definition Module_Healthy :: "dns_module \<Rightarrow> bool" where
  "Module_Healthy m \<longleftrightarrow>
     mo_healthy m \<and> (case mo_listener m of None \<Rightarrow> False | Some l \<Rightarrow> Listener_Healthy l)"

definition Module_SetDispatcher :: "bool \<Rightarrow> dns_module \<Rightarrow> dns_module" where
  "Module_SetDispatcher d m = m\<lparr>mo_dispatcher := d\<rparr>"

end
