(* ===== verification/Dns_Module_Correct.thy ===== *)
theory Dns_Module_Correct
  imports Dns_Module Dns_Listener_Correct Dns_Message_Correct
begin

text \<open>
  Correctness of the module's lifecycle: the fields of a line of \<open>/etc/resolv.conf\<close>, the servers
  used for bootstrap and what they resolve, the addresses of the upstreams, and the invariant that
  holds over any history of starts, stops, queries and prefetches. The interpretation \<open>life\<close> of the
  guarded machine admits the starts and stops of environments in which servers can be shut down.
\<close>

section \<open>Fields of a line\<close>

text \<open>The specification: cut at every separator and keep the pieces that are not empty.\<close>

fun split_any :: "string \<Rightarrow> string \<Rightarrow> string list" where
  "split_any t [] = [[]]"
| "split_any t (x # xs) =
     (if x \<in> set t then [] # split_any t xs
      else (case split_any t xs of [] \<Rightarrow> [[x]] | w # ws \<Rightarrow> (x # w) # ws))"

definition fields :: "string \<Rightarrow> string \<Rightarrow> string list" where
  "fields t s = filter (\<lambda>w. w \<noteq> []) (split_any t s)"

definition glue :: "string \<Rightarrow> string list \<Rightarrow> string list" where
  "glue cur ws = (case ws of [] \<Rightarrow> [cur] | w # ws' \<Rightarrow> (cur @ w) # ws')"

lemma split_any_nonempty: "split_any t s \<noteq> []"
  by (cases s) (auto split: list.split)

lemma glue_step: "x \<notin> set t \<Longrightarrow> glue cur (split_any t (x # xs)) = glue (cur @ [x]) (split_any t xs)"
  using split_any_nonempty [of t xs] by (auto simp: glue_def split: list.split)

lemma glue_nil: "glue [] (split_any t s) = split_any t s"
  using split_any_nonempty [of t s] by (auto simp: glue_def split: list.split)

text \<open>What the loop and the code after it make of the rest \<open>cs\<close> of the line.\<close>

definition finish :: "string \<Rightarrow> (nat \<times> nat \<times> string list) option \<Rightarrow> string list option" where
  "finish s r =
     (case r of
        None \<Rightarrow> None
      | Some (beg, n, a) \<Rightarrow>
          if beg < length s then
            (if n < length a then Some (take (Suc n) (a[n := drop beg s])) else None)
          else Some (take n a))"

lemma take_Suc_update: "n < length a \<Longrightarrow> take (Suc n) (a[n := x]) = take n a @ [x]"
  by (simp add: take_Suc_conv_app_nth)

lemma split_bytes_loop_fields:
  assumes "s = pre @ cs" and "i = length pre" and "beg \<le> i" and "n + countAnyByte cs t < length a"
  shows "finish s (split_bytes_loop s t i beg n a cs)
    = Some (take n a @ filter (\<lambda>w. w \<noteq> []) (glue (drop beg pre) (split_any t cs)))"
  using assms
proof (induction cs arbitrary: pre i beg n a)
  case Nil
  then show ?case
    by (cases "beg < length s") (auto simp: finish_def glue_def countAnyByte_def take_Suc_conv_app_nth)
next
  case (Cons c cs)
  have s: "s = (pre @ [c]) @ cs" using Cons.prems(1) by simp
  show ?case
  proof (cases "c \<in> set t")
    case False
    have "n + countAnyByte cs t < length a" using Cons.prems(4) False by (simp add: countAnyByte_def)
    from Cons.IH [OF s _ _ this, of "Suc i" beg] Cons.prems(2,3) False show ?thesis
      by (simp add: glue_step del: split_any.simps)
  next
    case True
    have m: "n + Suc (countAnyByte cs t) < length a" using Cons.prems(4) True by (simp add: countAnyByte_def)
    show ?thesis
    proof (cases "beg < i")
      case False
      with Cons.prems(2,3) m True Cons.IH [OF s, of "Suc i" "Suc i" n a] show ?thesis
        by (simp add: glue_nil) (simp add: glue_def)
    next
      case b: True
      have w: "drop beg (take (length pre) s) = drop beg pre" using Cons.prems(1) by simp
      have "drop beg pre \<noteq> []" using b Cons.prems(2) by simp
      moreover have "take (Suc n) (a[n := drop beg pre]) = take n a @ [drop beg pre]"
        using m by (intro take_Suc_update) simp
      ultimately show ?thesis
        using Cons.prems(2) m True b Cons.IH [OF s, of "Suc i" "Suc i" "Suc n" "a[n := drop beg pre]"]
        by (simp add: w glue_nil) (simp add: glue_def)
    qed
  qed
qed

text \<open>
  Cutting a line into fields never writes past the array it allocates, and gives exactly the
  non-empty pieces between separators.
\<close>

theorem split_at_bytes_fields: "splitAtBytes s t = Some (fields t s)"
proof -
  have "splitAtBytes s t = finish s (split_bytes_loop s t 0 0 0 (replicate (1 + countAnyByte s t) []) s)"
    by (simp add: splitAtBytes_def finish_def)
  also have "\<dots> = Some (fields t s)"
    using split_bytes_loop_fields [of s "[]" s 0 0 0 t "replicate (1 + countAnyByte s t) []"]
    by (simp add: fields_def glue_nil)
  finally show ?thesis .
qed

section \<open>Bootstrap servers\<close>

definition collected :: "string list \<Rightarrow> addr_port list \<times> string set \<Rightarrow> bool" where
  "collected configured st \<longleftrightarrow>
     (\<forall>s\<in>snd st. \<exists>ap\<in>set (fst st). ParseAddrPort s = Some ap \<or> AddrPort_String ap = s)
     \<and> (\<forall>ap\<in>set (fst st). isOwnAddress ap \<longrightarrow> (\<exists>s\<in>set configured. ParseAddrPort s = Some ap))"

lemma collected_system: "collected c st \<Longrightarrow> collected c (add_system st ap)"
  by (auto simp: collected_def add_system_def Let_def split: prod.split)

lemma collected_add:
  assumes "collected c st" and "s \<in> set c \<or> (\<forall>ap. ParseAddrPort s = Some ap \<longrightarrow> \<not> isOwnAddress ap)"
  shows "collected c (add_server st s)"
  using assms by (auto simp: collected_def add_server_def split: prod.split option.split)

lemma collected_foldl:
  "collected c st \<Longrightarrow> (\<And>s st. s \<in> set l \<Longrightarrow> collected c st \<Longrightarrow> collected c (f st s)) \<Longrightarrow> collected c (foldl f st l)"
  by (induction l arbitrary: st) auto

lemma add_server_mono: "set (fst st) \<subseteq> set (fst (add_server st s))" "snd st \<subseteq> snd (add_server st s)"
  by (auto simp: add_server_def split: prod.split option.split)

lemma foldl_add_server_mono: "s \<in> snd st \<Longrightarrow> s \<in> snd (foldl add_server st l)"
proof (induction l arbitrary: st)
  case (Cons x l)
  have "s \<in> snd (add_server st x)" using Cons.prems add_server_mono(2) by (rule rev_subsetD)
  from Cons.IH [OF this] show ?case by simp
qed simp

lemma foldl_add_server_seen:
  assumes "s \<in> set l" and "ParseAddrPort s \<noteq> None"
  shows "s \<in> snd (foldl add_server st l)"
proof -
  obtain a b where l: "l = a @ s # b" using assms(1) by (auto dest: split_list)
  have "s \<in> snd (add_server x s)" for x
    using assms(2) by (cases x) (auto simp: add_server_def split: option.split)
  from foldl_add_server_mono [OF this] show ?thesis by (simp add: l)
qed


abbreviation dns_server :: "ip \<Rightarrow> addr_port" where
  "dns_server b \<equiv> \<lparr>ap_Addr = b, ap_Zone = [], ap_Port = 53\<rparr>"

lemma replicate_zeros:
  "replicate 10 (0::byte) = [0, 0, 0, 0, 0, 0, 0, 0, 0, 0]" "replicate 8 (0::byte) = [0, 0, 0, 0, 0, 0, 0, 0]"
  by (simp_all add: numeral_eq_Suc)

lemma public_dns_parse:
  "ParseAddrPort ''223.5.5.5:53'' = Some (dns_server [223, 5, 5, 5])"
  "ParseAddrPort ''223.6.6.6:53'' = Some (dns_server [223, 6, 6, 6])"
  "ParseAddrPort ''[2400:3200::1]:53'' = Some (dns_server [36, 0, 50, 0, 0, 0, 0, 0, 0, 0, 0, 0, 0, 0, 0, 1])"
  "ParseAddrPort ''[2400:3200:baba::1]:53'' = Some (dns_server [36, 0, 50, 0, 186, 186, 0, 0, 0, 0, 0, 0, 0, 0, 0, 1])"
  "ParseAddrPort ''119.29.29.29:53'' = Some (dns_server [119, 29, 29, 29])"
  "ParseAddrPort ''8.8.8.8:53'' = Some (dns_server [8, 8, 8, 8])"
  "ParseAddrPort ''8.8.4.4:53'' = Some (dns_server [8, 8, 4, 4])"
  "ParseAddrPort ''[2001:4860:4860::8888]:53'' = Some (dns_server [32, 1, 72, 96, 72, 96, 0, 0, 0, 0, 0, 0, 0, 0, 136, 136])"
  "ParseAddrPort ''[2001:4860:4860::8844]:53'' = Some (dns_server [32, 1, 72, 96, 72, 96, 0, 0, 0, 0, 0, 0, 0, 0, 136, 68])"
  "ParseAddrPort ''1.1.1.1:53'' = Some (dns_server [1, 1, 1, 1])"
  "ParseAddrPort ''1.0.0.1:53'' = Some (dns_server [1, 0, 0, 1])"
  "ParseAddrPort ''[2606:4700:4700::1111]:53'' = Some (dns_server [38, 6, 71, 0, 71, 0, 0, 0, 0, 0, 0, 0, 0, 0, 17, 17])"
  "ParseAddrPort ''[2606:4700:4700::1001]:53'' = Some (dns_server [38, 6, 71, 0, 71, 0, 0, 0, 0, 0, 0, 0, 0, 0, 16, 1])"
  by (simp_all add: ParseAddrPort_def split_last_def parse_simps v6_loop_num replicate_zeros)

lemma isOwnAddress_iff:
  "isOwnAddress ap \<longleftrightarrow> ap \<in> {dns_server [127, 0, 0, 1], dns_server [127, 2, 0, 17],
     \<lparr>ap_Addr = [127, 0, 0, 1], ap_Zone = [], ap_Port = 5353\<rparr>}"
proof -
  have p: "ParseAddrPort ''127.0.0.1:53'' = Some (dns_server [127, 0, 0, 1])"
    "ParseAddrPort ''127.2.0.17:53'' = Some (dns_server [127, 2, 0, 17])"
    "ParseAddrPort ''127.0.0.1:5353'' = Some \<lparr>ap_Addr = [127, 0, 0, 1], ap_Zone = [], ap_Port = 5353\<rparr>"
    by (simp_all add: ParseAddrPort_def split_last_def parse_simps)
  have "IP_IsLoopback (127 # [x, y, z])" for x y z
    by (simp add: IP_IsLoopback_def To4_def)
  then show ?thesis by (auto simp: isOwnAddress_def p)
qed

lemma public_dns_known:
  assumes "s \<in> set wellKnownPublicDns"
  shows "\<exists>ap. ParseAddrPort s = Some ap \<and> \<not> isOwnAddress ap"
  using assms unfolding wellKnownPublicDns_def list.set insert_iff empty_iff
  by (elim disjE) (auto simp: public_dns_parse isOwnAddress_iff)

text \<open>
  Bootstrap always has the public servers among its candidates, whatever is configured and
  whatever \<open>/etc/resolv.conf\<close> holds, and asks an address of the module itself only if it is
  configured explicitly.
\<close>

theorem bootstrap_servers:
  "(\<forall>s\<in>set wellKnownPublicDns. \<exists>ap\<in>set (collectBootstrapDns configured resolv).
      ParseAddrPort s = Some ap \<or> AddrPort_String ap = s)
   \<and> (\<forall>ap\<in>set (collectBootstrapDns configured resolv). isOwnAddress ap
        \<longrightarrow> (\<exists>s\<in>set configured. ParseAddrPort s = Some ap))"
proof -
  let ?st1 = "foldl add_system (foldl add_server ([], {}) configured) (GetSystemDNS resolv)"
  let ?st = "foldl add_server ?st1 wellKnownPublicDns"
  have "collected configured (foldl add_server ([], {}) configured)"
    by (rule collected_foldl) (auto simp: collected_def [of _ "([], {})"] intro: collected_add)
  then have "collected configured ?st1" by (rule collected_foldl) (rule collected_system)
  then have c: "collected configured ?st"
    by (rule collected_foldl) (use public_dns_known in \<open>fastforce intro: collected_add\<close>)
  have "s \<in> snd ?st" if "s \<in> set wellKnownPublicDns" for s
    using that public_dns_known by (intro foldl_add_server_seen) auto
  with c show ?thesis unfolding collected_def collectBootstrapDns_def by blast
qed

section \<open>Resolving the upstreams' names\<close>

text \<open>A server answers for a domain with an address record.\<close>

definition gives_A :: "net_env \<Rightarrow> dns_lib \<Rightarrow> string \<Rightarrow> addr_port \<Rightarrow> nat \<Rightarrow> string \<Rightarrow> bool" where
  "gives_A net lib domain srv i ip \<longleftrightarrow>
     (\<exists>resp. fst (net_Exchange net ''udp'' None (AddrPort_String srv) (bootstrap_query lib domain) i)
        = Inr (Some resp) \<and> first_A (m_Answer resp) = Some ip)"

lemma first_A_nil [simp]: "first_A [] = None"
  by (simp add: first_A_def a_records_def)

lemma bootstrap_loop_Some:
  "bootstrap_loop net lib known domain i servers = Some ip
   \<Longrightarrow> \<exists>j<length servers. gives_A net lib domain (servers ! j) (i + j) ip"
proof (induction servers arbitrary: i)
  case (Cons srv rest)
  have rest: ?case if "bootstrap_loop net lib known domain (Suc i) rest = Some ip"
    using Cons.IH [OF that] by (metis Suc_less_eq add_Suc_shift length_Cons nth_Cons_Suc)
  show ?case
  proof (cases "gives_A net lib domain srv i ip")
    case True
    then show ?thesis by (intro exI [of _ 0]) simp
  next
    case False
    with Cons.prems have "bootstrap_loop net lib known domain (Suc i) rest = Some ip"
      by (auto simp: gives_A_def split: sum.splits option.splits if_splits)
    then show ?thesis by (rule rest)
  qed
qed simp

lemma bootstrap_loop_finds:
  assumes "j < length servers" and "gives_A net lib domain (servers ! j) (i + j) ip"
  shows "bootstrap_loop net lib False domain i servers \<noteq> None"
  using assms
proof (induction servers arbitrary: i j)
  case (Cons srv rest)
  show ?case
  proof (cases j)
    case 0
    with Cons.prems(2) show ?thesis by (auto simp: gives_A_def)
  next
    case (Suc k)
    with Cons.prems have "bootstrap_loop net lib False domain (Suc i) rest \<noteq> None"
      by (intro Cons.IH [of k]) simp_all
    then show ?thesis by (auto split: sum.split option.split)
  qed
qed simp

lemma bootstrap_domain_keeps:
  "resolved d \<noteq> None \<Longrightarrow> bootstrap_domain net lib servers resolved d' d \<noteq> None"
  by (auto simp: bootstrap_domain_def split: option.split)

lemma foldl_bootstrap_keeps:
  "resolved d \<noteq> None \<Longrightarrow> foldl (bootstrap_domain net lib servers) resolved ds d \<noteq> None"
proof (induction ds arbitrary: resolved)
  case (Cons x ds)
  show ?case using Cons.IH [of "bootstrap_domain net lib servers resolved x"]
      bootstrap_domain_keeps [of resolved d net lib servers x] Cons.prems by simp
qed simp

lemma foldl_bootstrap_origin:
  assumes "foldl (bootstrap_domain net lib servers) resolved ds d = Some ip"
  shows "resolved d = Some ip
    \<or> d \<in> set ds \<and> (ParseIP d \<noteq> [] \<and> ip = d \<or> (\<exists>j<length servers. gives_A net lib d (servers ! j) j ip))"
  using assms
proof (induction ds arbitrary: resolved)
  case (Cons x ds)
  have "foldl (bootstrap_domain net lib servers) (bootstrap_domain net lib servers resolved x) ds d = Some ip"
    using Cons.prems by simp
  from Cons.IH [OF this] have "bootstrap_domain net lib servers resolved x d = Some ip
    \<or> d \<in> set ds \<and> (ParseIP d \<noteq> [] \<and> ip = d \<or> (\<exists>j<length servers. gives_A net lib d (servers ! j) j ip))" .
  moreover have "resolved d = Some ip \<or> d = x
      \<and> (ParseIP d \<noteq> [] \<and> ip = d \<or> (\<exists>j<length servers. gives_A net lib d (servers ! j) j ip))"
    if "bootstrap_domain net lib servers resolved x d = Some ip"
    using that bootstrap_loop_Some [of net lib _ x 0 servers ip]
    by (auto simp: bootstrap_domain_def split: if_splits option.splits)
  ultimately show ?case by auto
qed simp

text \<open>
  Bootstrap resolves every domain for which some candidate server answers with an address
  record, however the other servers fail, and to an address one of the servers gave.
\<close>

theorem bootstrap_resolves:
  assumes "d \<in> set domains" and "d \<noteq> []" and "j < length servers"
    and "gives_A net lib d (servers ! j) j ip"
  shows "\<exists>ip'. resolveBootstrap net lib servers domains d = Some ip'
    \<and> (ParseIP d \<noteq> [] \<and> ip' = d \<or> (\<exists>k<length servers. gives_A net lib d (servers ! k) k ip'))"
proof -
  obtain a b where ds: "domains = a @ d # b" using assms(1) by (auto dest: split_list)
  have "bootstrap_domain net lib servers r d d \<noteq> None" for r
  proof (cases "r d")
    case None
    with assms(2) bootstrap_loop_finds [OF assms(3), of net lib d 0 ip] assms(4) show ?thesis
      by (auto simp: bootstrap_domain_def)
  next
    case (Some x)
    then show ?thesis by (simp add: bootstrap_domain_keeps)
  qed
  then have "foldl (bootstrap_domain net lib servers) Map.empty domains d \<noteq> None"
    unfolding ds foldl_append foldl_Cons by (rule foldl_bootstrap_keeps)
  then obtain ip' where ip': "foldl (bootstrap_domain net lib servers) Map.empty domains d = Some ip'" by auto
  moreover have "servers \<noteq> []" "domains \<noteq> []" using assms(1,3) by auto
  ultimately show ?thesis using foldl_bootstrap_origin [OF ip'] by (auto simp: resolveBootstrap_def)
qed

section \<open>Addresses of the upstreams\<close>

lemma SplitHostPort_two_colons:
  assumes "hd h \<noteq> CHR ''[''" and "h \<noteq> []" and "CHR '':'' \<in> set h" and "CHR '':'' \<notin> set p"
  shows "SplitHostPort (h @ CHR '':'' # p) = None"
  using assms split_last_snoc [OF assms(4), of h] by (simp add: SplitHostPort_def)

lemma SplitHostPort_no_colon: "CHR '':'' \<notin> set h \<Longrightarrow> SplitHostPort h = None"
  using split_last_None [of "CHR '':''" h] by (simp add: SplitHostPort_def)

text \<open>An upstream as the module starts with it.\<close>

definition started_upstream ::
  "(string \<Rightarrow> string option) \<Rightarrow> (string \<rightharpoonup> string) \<Rightarrow> upstream_config \<Rightarrow> upstream_config" where
  "started_upstream urlHost resolved u = default_port (bootstrap_upstream urlHost resolved u)"

text \<open>
  An upstream named by host and port whose host bootstrap resolved is dialled at the resolved
  address and its own port, with the host kept for TLS: no lookup of its name is left.
\<close>

theorem bootstrapped_upstream_by_ip:
  assumes "\<not> uc_Bootstrap u" and "uc_Protocol u \<noteq> ''https''"
    and "SplitHostPort (uc_Addr u) = Some (host, port)" and "ParseIP host = []" and "plain_port port"
    and "resolved host = Some (IP_String a)" and "length a = 4"
  shows "\<exists>addr. started_upstream urlHost resolved u = u\<lparr>uc_ServerName := host, uc_Addr := addr\<rparr>
    \<and> SplitHostPort addr = Some (v4_string a, port) \<and> ParseIP (v4_string a) = v4InV6Prefix @ a"
proof -
  have s: "IP_String a = v4_string a" using assms(7) by (auto simp: IP_String_def To4_def)
  have j: "SplitHostPort (JoinHostPort (v4_string a) port) = Some (v4_string a, port)"
    using v4_string_plain(1) [OF assms(7)] assms(5) by (rule Split_Join_HostPort)
  have "bootstrap_upstream urlHost resolved u
      = u\<lparr>uc_ServerName := host, uc_Addr := JoinHostPort (v4_string a) port\<rparr>"
    using assms by (simp add: bootstrap_upstream_def s)
  with j assms(2,7) show ?thesis
    by (intro exI [of _ "JoinHostPort (v4_string a) port"])
      (simp add: started_upstream_def default_port_def ParseIP_v4_string)
qed

text \<open>
  A TLS upstream configured without a port whose name bootstrap resolves is dialled at port 53,
  not 853, and without a name to verify.
\<close>

theorem bootstrapped_tls_port:
  assumes "\<not> uc_Bootstrap u" and "uc_Protocol u = ''tls'' \<or> uc_Protocol u = ''tcp-tls''"
    and "CHR '':'' \<notin> set (uc_Addr u)" and "resolved (uc_Addr u) = Some (IP_String a)" and "length a = 4"
  shows "started_upstream urlHost resolved u = u\<lparr>uc_Addr := v4_string a @ '':53''\<rparr>"
proof -
  have s: "IP_String a = v4_string a" using assms(5) by (auto simp: IP_String_def To4_def)
  have "SplitHostPort (JoinHostPort (v4_string a) ''53'') = Some (v4_string a, ''53'')"
    by (rule Split_Join_HostPort) (simp_all add: v4_string_plain [OF assms(5)] plain_port_def)
  then have "SplitHostPort (v4_string a @ '':53'') = Some (v4_string a, ''53'')"
    by (simp add: JoinHostPort_def v4_string_plain [OF assms(5)])
  with assms show ?thesis
    by (auto simp: started_upstream_def bootstrap_upstream_def SplitHostPort_no_colon s default_port_def)
qed

text \<open>
  A bare IPv6 literal among the bootstrap domains turns an upstream of that address into the
  address extended by \<open>:53\<close>, a different host.
\<close>

theorem bootstrapped_ipv6_literal:
  assumes "\<not> uc_Bootstrap u" and "uc_Protocol u = ''udp''" and "SplitHostPort (uc_Addr u) = None"
    and "CHR '':'' \<in> set (uc_Addr u)" and "plain_host (uc_Addr u)"
    and "resolved (uc_Addr u) = Some (uc_Addr u)"
  shows "SplitHostPort (uc_Addr (started_upstream urlHost resolved u)) = Some (uc_Addr u @ '':53'', ''53'')"
proof -
  have n: "uc_Addr u \<noteq> []" "hd (uc_Addr u) \<noteq> CHR ''[''"
    using assms(4,5) by (cases "uc_Addr u"; auto simp: plain_host_def)+
  have "SplitHostPort (uc_Addr u @ '':53'') = None"
    using SplitHostPort_two_colons [OF n(2,1) assms(4), of "''53''"] by simp
  moreover have "SplitHostPort (JoinHostPort (uc_Addr u @ '':53'') ''53'') = Some (uc_Addr u @ '':53'', ''53'')"
    by (rule Split_Join_HostPort) (use assms(5) in \<open>simp_all add: plain_host_def plain_port_def\<close>)
  ultimately show ?thesis
    using assms(1-3,6) by (simp add: started_upstream_def bootstrap_upstream_def default_port_def)
qed

section \<open>Starting and stopping the module\<close>

definition servers_for :: "listener_config \<Rightarrow> server list" where
  "servers_for config = servers_of (map (pair_of config) (lc_ListenAddr config # lc_ExtraListenAddrs config))"

definition listener_up :: "module_config \<Rightarrow> listener \<Rightarrow> bool" where
  "listener_up config l \<longleftrightarrow> listener_ok l
     \<and> li_servers l = map (pair_of (mc_Listener config))
         (lc_ListenAddr (mc_Listener config) # lc_ExtraListenAddrs (mc_Listener config))"

text \<open>Servers run exactly while the module is healthy, and exactly those of its configuration.\<close>

definition module_wf :: "dns_module \<Rightarrow> bool" where
  "module_wf m \<longleftrightarrow>
     (if mo_healthy m then \<exists>l. mo_listener m = Some l \<and> listener_up (mo_config m) l
      else \<forall>l. mo_listener m = Some l \<longrightarrow> li_running l = [])
     \<and> module_pure (mo_core m)"

definition can_shut_down :: "module_env \<Rightarrow> bool" where
  "can_shut_down env \<longleftrightarrow> (\<forall>s. le_Shutdown (me_listen env) s = None)"

lemma Listener_Start_result:
  assumes "DnsListenerConfig_Validate config = None" and "\<And>s. le_Shutdown env s = None"
  shows "\<exists>e l. Listener_Start env (NewDnsListener (Some config) True) = Some (e, l)
    \<and> (if e = None then listener_ok l \<and> li_servers l = map (pair_of config)
          (lc_ListenAddr config # lc_ExtraListenAddrs config)
       else li_running l = [])"
proof -
  have "listener_ok ((NewDnsListener (Some config) True)\<lparr>li_ctx := Some False\<rparr>)"
    by (simp add: listener_ok_def NewDnsListener_def servers_of_def)
  from start_loop_result [OF this assms(2), where config = config
      and addrs = "lc_ListenAddr config # lc_ExtraListenAddrs config"] assms(1)
  show ?thesis
    unfolding Listener_Start_def by (force simp: NewDnsListener_def split: if_splits)
qed

lemma Module_Start_wf:
  assumes "module_wf m" and "can_shut_down env"
  shows "\<exists>e m'. Module_Start env m = Some (e, m') \<and> module_wf m' \<and> (e = None \<longrightarrow> mo_healthy m')"
proof (cases "mo_healthy m \<or> DnsModuleConfig_Validate (mo_config m) \<noteq> None")
  case True
  with assms(1) show ?thesis by (auto simp: Module_Start_def)
next
  case False
  then have h: "\<not> mo_healthy m" and v: "DnsModuleConfig_Validate (mo_config m) = None" by auto
  have vl: "DnsListenerConfig_Validate (mc_Listener (mo_config m)) = None"
    using v by (simp add: DnsModuleConfig_Validate_None)
  obtain ups resolved where p: "prepare_upstreams env (mo_config m) = (ups, resolved)" by fastforce
  obtain e l where l: "Listener_Start (me_listen env)
      (NewDnsListener (Some (mc_Listener (mo_config m))) True) = Some (e, l)"
    "if e = None then listener_ok l \<and> li_servers l = map (pair_of (mc_Listener (mo_config m)))
        (lc_ListenAddr (mc_Listener (mo_config m)) # lc_ExtraListenAddrs (mc_Listener (mo_config m)))
     else li_running l = []"
    using Listener_Start_result [OF vl, of "me_listen env"] assms(2) unfolding can_shut_down_def by blast
  define core where "core = (mo_core m)\<lparr>ms_Upstreams := ups, ms_Stats := new_stats (me_now env),
     ms_Metrics := map_option (Metrics_Reset (me_now env)) (ms_Metrics (mo_core m)),
     ms_UpstreamMgr := Some (make_manager (mo_dispatcher m) (mc_ProxyMap (mo_config m)) ups resolved),
     ms_Cache := (if cc_Enabled (mc_Cache (mo_config m)) then Some (NewDnsCache (mc_Cache (mo_config m))) else None)\<rparr>"
  let ?c = "(mo_config m)\<lparr>mc_Upstreams := ups\<rparr>"
  have "module_pure (mo_core m)" using assms(1) by (simp add: module_wf_def)
  then have pure: "module_pure core" "module_pure (core\<lparr>ms_Router := r\<rparr>)" for r
    by (simp_all add: core_def module_pure_def cache_pure_new)
  have start: "Module_Start env m =
     (case NewRouter (me_compile env) (map rule_of_config (mc_Rules (mo_config m))) ups (selectDefaultUpstream ?c) of
        Inl x \<Rightarrow> Some (Some (RouterFailed x), m\<lparr>mo_config := ?c, mo_core := core, mo_ctx := Some True\<rparr>)
      | Inr r \<Rightarrow> (case e of
          Some x \<Rightarrow> Some (Some (ListenerFailed x), m\<lparr>mo_config := ?c, mo_core := core\<lparr>ms_Router := Some r\<rparr>,
            mo_listener := Some l, mo_ctx := Some True\<rparr>)
        | None \<Rightarrow> Some (None, m\<lparr>mo_config := ?c, mo_core := core\<lparr>ms_Router := Some r\<rparr>,
            mo_ctx := Some False, mo_listener := Some l, mo_healthy := True\<rparr>)))"
    using h v l(1) by (simp add: Module_Start_def p Let_def core_def split: sum.split option.split)
  show ?thesis
  proof (cases "NewRouter (me_compile env) (map rule_of_config (mc_Rules (mo_config m))) ups
      (selectDefaultUpstream ?c)")
    case (Inl x)
    with start h assms(1) pure show ?thesis by (simp add: module_wf_def)
  next
    case (Inr r)
    show ?thesis using start Inr h l(2) pure
      by (cases e) (simp_all add: module_wf_def listener_up_def)
  qed
qed

lemma Module_Stop_wf:
  assumes "module_wf m" and "can_shut_down env"
  shows "\<exists>m'. Module_Stop env m = Some m' \<and> module_wf m' \<and> \<not> mo_healthy m'"
proof (cases "mo_healthy m")
  case True
  then obtain l where l: "mo_listener m = Some l" "listener_ok l"
    using assms(1) by (auto simp: module_wf_def listener_up_def)
  obtain l' where "Listener_Stop (me_listen env) l = Some (None, l')" "li_running l' = []"
    using Stop_all [OF l(2), of "me_listen env"] assms(2) by (auto simp: can_shut_down_def)
  with True l(1) assms(1) show ?thesis by (simp add: Module_Stop_def module_wf_def)
next
  case False
  with assms(1) show ?thesis by (simp add: Module_Stop_def module_wf_def)
qed

text \<open>The life of a module: it is started and stopped, queries arrive, prefetches run.\<close>

datatype life_event =
    Life_Start module_env
  | Life_Stop module_env
  | Life_Dispatcher bool
  | Life_Query world clock bool dns_query
  | Life_Prefetch world clock nat

fun life_step :: "dns_module \<Rightarrow> life_event \<Rightarrow> dns_module" where
  "life_step m (Life_Start env) = (case Module_Start env m of Some (_, m') \<Rightarrow> m' | None \<Rightarrow> m)"
| "life_step m (Life_Stop env) = (case Module_Stop env m of Some m' \<Rightarrow> m' | None \<Rightarrow> m)"
| "life_step m (Life_Dispatcher d) = Module_SetDispatcher d m"
| "life_step m (Life_Query w clk cancelled query) =
     m\<lparr>mo_core := module_step (mo_core m) (Ev_Query w clk cancelled query)\<rparr>"
| "life_step m (Life_Prefetch w clk i) =
     m\<lparr>mo_core := module_step (mo_core m) (Ev_Prefetch w clk i)\<rparr>"

fun life_ok :: "life_event \<Rightarrow> bool" where
  "life_ok (Life_Start env) = can_shut_down env"
| "life_ok (Life_Stop env) = can_shut_down env"
| "life_ok _ = True"

lemma module_wf_core:
  "module_wf m \<Longrightarrow> module_pure s \<Longrightarrow> module_wf (m\<lparr>mo_core := s\<rparr>)"
  by (simp add: module_wf_def)

interpretation life: guarded_machine life_step module_wf life_ok
proof
  fix m ev
  assume wf: "module_wf m" and ok: "life_ok ev"
  then have pure: "module_pure (mo_core m)" by (simp add: module_wf_def)
  show "module_wf (life_step m ev)"
  proof (cases ev)
    case (Life_Start env)
    with Module_Start_wf [OF wf, of env] ok show ?thesis by auto
  next
    case (Life_Stop env)
    with Module_Stop_wf [OF wf, of env] ok show ?thesis by auto
  next
    case (Life_Dispatcher d)
    with wf show ?thesis by (simp add: Module_SetDispatcher_def module_wf_def)
  next
    case (Life_Query w clk cancelled query)
    with wf module.step_inv [OF pure] show ?thesis by (simp add: module_wf_core del: module_step.simps)
  next
    case (Life_Prefetch w clk i)
    with wf module.step_inv [OF pure] show ?thesis by (simp add: module_wf_core del: module_step.simps)
  qed
qed

lemma NewDnsModule_wf: "module_wf (NewDnsModule now config)"
  by (simp add: module_wf_def NewDnsModule_def module_pure_def Let_def split: option.split)



text \<open>
  A module that is stopped and started again no longer binds its sockets to the configured
  egress interface.
\<close>

theorem restart_unbinds_egress:
  assumes "Module_Start env1 (NewDnsModule now (Some config)) = Some (e1, m1)"
    and "Module_Stop env2 m1 = Some m2" and "Module_Start env3 m2 = Some (e3, m3)"
  shows "mo_egress m1 = mc_EgressInterface config \<and> mo_egress m3 = []"
proof -
  have start: "Module_Start env m = Some (e, m') \<Longrightarrow> mo_egress m' = mo_egress m" for env m e m'
    by (auto simp: Module_Start_def Let_def split: if_splits option.splits prod.splits sum.splits)
  have "mo_egress m2 = []"
    using assms(2) by (auto simp: Module_Stop_def Let_def split: if_splits option.splits prod.splits)
  with start [OF assms(1)] start [OF assms(3)] show ?thesis by (simp add: NewDnsModule_def)
qed

section \<open>A concrete module\<close>

definition sample_env :: module_env where
  "sample_env = \<lparr>me_net = (sample_net True)\<lparr>net_Exchange := (\<lambda>p s a m i.
       (Inr (Some (sample_msg\<lparr>m_Answer := [sample_rr 60]\<rparr>)), 1))\<rparr>,
     me_lib = ref_lib, me_listen = \<lparr>le_Listen = (\<lambda>run net a. None), le_Shutdown = (\<lambda>s. None)\<rparr>,
     me_compile = (\<lambda>r. None), me_urlHost = (\<lambda>u. None), me_resolv = None, me_now = 0\<rparr>"

definition tls_upstream :: "string \<Rightarrow> string \<Rightarrow> upstream_config" where
  "tls_upstream protocol addr = \<lparr>uc_ID = ''u'', uc_Addr = addr, uc_Protocol = protocol, uc_ProxyTag = [],
     uc_Bootstrap = False, uc_ServerName = []\<rparr>"

lemma sample_can_shut_down: "can_shut_down sample_env"
  by (simp add: can_shut_down_def sample_env_def)

theorem bootstrap_servers_witness:
  "\<exists>ap\<in>set (collectBootstrapDns [] None). ap = dns_server [8, 8, 8, 8] \<or> AddrPort_String ap = ''8.8.8.8:53''"
proof -
  have "''8.8.8.8:53'' \<in> set wellKnownPublicDns" by (simp add: wellKnownPublicDns_def)
  with bootstrap_servers [of "[]" None] public_dns_parse(6) show ?thesis by fastforce
qed

theorem bootstrap_resolves_witness:
  "\<exists>ip. resolveBootstrap (me_net sample_env) ref_lib [dns_server [8, 8, 8, 8]] [''dns.google''] ''dns.google'' = Some ip
    \<and> (ParseIP ''dns.google'' \<noteq> [] \<and> ip = ''dns.google''
       \<or> (\<exists>k<length [dns_server [8, 8, 8, 8]]. gives_A (me_net sample_env) ref_lib ''dns.google''
            ([dns_server [8, 8, 8, 8]] ! k) k ip))"
  by (rule bootstrap_resolves [where j = 0 and ip = "IP_String [192, 0, 2, 1]"])
    (simp_all add: gives_A_def sample_env_def first_A_def a_records_def sample_rr_def List.map_filter_def)

theorem bootstrapped_upstream_by_ip_witness:
  "\<exists>addr. started_upstream (\<lambda>u. None) [''dns.google'' \<mapsto> IP_String [8, 8, 8, 8]] (tls_upstream ''udp'' ''dns.google:53'')
      = (tls_upstream ''udp'' ''dns.google:53'')\<lparr>uc_ServerName := ''dns.google'', uc_Addr := addr\<rparr>
    \<and> SplitHostPort addr = Some (v4_string [8, 8, 8, 8], ''53'')
    \<and> ParseIP (v4_string [8, 8, 8, 8]) = v4InV6Prefix @ [8, 8, 8, 8]"
  by (rule bootstrapped_upstream_by_ip)
    (simp_all add: tls_upstream_def SplitHostPort_def split_last_def plain_port_def parse_simps)

theorem bootstrapped_tls_port_witness:
  "uc_Addr (started_upstream (\<lambda>u. None) [''dns.google'' \<mapsto> IP_String [8, 8, 8, 8]] (tls_upstream ''tls'' ''dns.google''))
   = v4_string [8, 8, 8, 8] @ '':53''"
  by (subst bootstrapped_tls_port [where a = "[8, 8, 8, 8]"]) (simp_all add: tls_upstream_def)

theorem bootstrapped_ipv6_literal_witness:
  "SplitHostPort (uc_Addr (started_upstream (\<lambda>u. None) [''2001:db8::1'' \<mapsto> ''2001:db8::1''] (tls_upstream ''udp'' ''2001:db8::1'')))
   = Some (''2001:db8::1:53'', ''53'')"
  using bootstrapped_ipv6_literal [of "tls_upstream ''udp'' ''2001:db8::1''" "[''2001:db8::1'' \<mapsto> ''2001:db8::1'']"]
  by (simp add: tls_upstream_def SplitHostPort_def split_last_def plain_host_def)



theorem restart_unbinds_egress_witness:
  "\<exists>e1 m1 m2 e3 m3. Module_Start sample_env (NewDnsModule 0 (Some (DefaultDnsModuleConfig\<lparr>mc_EgressInterface := ''eth0''\<rparr>)))
        = Some (e1, m1)
    \<and> Module_Stop sample_env m1 = Some m2 \<and> Module_Start sample_env m2 = Some (e3, m3)
    \<and> mo_egress m1 = ''eth0'' \<and> mo_egress m3 = []"
proof -
  let ?c = "DefaultDnsModuleConfig\<lparr>mc_EgressInterface := ''eth0''\<rparr>"
  obtain e1 m1 where 1: "Module_Start sample_env (NewDnsModule 0 (Some ?c)) = Some (e1, m1)" "module_wf m1"
    using Module_Start_wf [OF NewDnsModule_wf sample_can_shut_down] by blast
  obtain m2 where 2: "Module_Stop sample_env m1 = Some m2" "module_wf m2"
    using Module_Stop_wf [OF 1(2) sample_can_shut_down] by blast
  obtain e3 m3 where 3: "Module_Start sample_env m2 = Some (e3, m3)"
    using Module_Start_wf [OF 2(2) sample_can_shut_down] by blast
  from restart_unbinds_egress [OF 1(1) 2(1) 3] 1(1) 2(1) 3 show ?thesis by auto
qed

end
