(* ===== verification/Dns_Shutdown.thy ===== *)
theory Dns_Shutdown
  imports Dns_Module_Correct
begin

text \<open>
  Stopping the module while queries are in flight: the interleaving of \<open>DnsModule.Stop\<close> with
  handlers. \<open>Stop\<close> takes the write lock of the module, shuts the listener down and only then releases
  the lock; a handler takes the read lock twice, for the router and for the upstream manager, before
  it does anything else. Whether shutting a server down waits for its handlers is a property of the
  message package; the step relation has it as the parameter \<open>waits\<close>.
\<close>

section \<open>Interleaved steps\<close>

datatype handler_pc = Arrived | Got_Router | Got_Manager

datatype stop_pc = Not_Stopping | Shutting_Down | Stop_Returned

record shutdown_state =
  sd_Stop :: stop_pc
  sd_InFlight :: "handler_pc list"

text \<open>The write lock is held exactly while \<open>Stop\<close> shuts the listener down.\<close>

definition write_locked :: "shutdown_state \<Rightarrow> bool" where
  "write_locked s \<longleftrightarrow> sd_Stop s = Shutting_Down"

inductive shutdown_step :: "bool \<Rightarrow> shutdown_state \<Rightarrow> shutdown_state \<Rightarrow> bool" for waits where
  packet: "sd_Stop s = Not_Stopping
     \<Longrightarrow> shutdown_step waits s (s\<lparr>sd_InFlight := sd_InFlight s @ [Arrived]\<rparr>)"
| get_router: "\<not> write_locked s \<Longrightarrow> i < length (sd_InFlight s) \<Longrightarrow> sd_InFlight s ! i = Arrived
     \<Longrightarrow> shutdown_step waits s (s\<lparr>sd_InFlight := (sd_InFlight s)[i := Got_Router]\<rparr>)"
| get_manager: "\<not> write_locked s \<Longrightarrow> i < length (sd_InFlight s) \<Longrightarrow> sd_InFlight s ! i = Got_Router
     \<Longrightarrow> shutdown_step waits s (s\<lparr>sd_InFlight := (sd_InFlight s)[i := Got_Manager]\<rparr>)"
| answer: "i < length (sd_InFlight s) \<Longrightarrow> sd_InFlight s ! i = Got_Manager
     \<Longrightarrow> shutdown_step waits s
           (s\<lparr>sd_InFlight := take i (sd_InFlight s) @ drop (Suc i) (sd_InFlight s)\<rparr>)"
| lock: "sd_Stop s = Not_Stopping \<Longrightarrow> shutdown_step waits s (s\<lparr>sd_Stop := Shutting_Down\<rparr>)"
| return: "sd_Stop s = Shutting_Down \<Longrightarrow> (waits \<Longrightarrow> sd_InFlight s = [])
     \<Longrightarrow> shutdown_step waits s (s\<lparr>sd_Stop := Stop_Returned\<rparr>)"

inductive_simps shutdown_step_iff: "shutdown_step waits s s'"

abbreviation shutdown_run :: "bool \<Rightarrow> shutdown_state \<Rightarrow> shutdown_state \<Rightarrow> bool" where
  "shutdown_run waits \<equiv> (shutdown_step waits)\<^sup>*\<^sup>*"

section \<open>A query that has not taken its references blocks \<open>Stop\<close> for good\<close>

definition blocked :: "shutdown_state \<Rightarrow> bool" where
  "blocked s \<longleftrightarrow> sd_Stop s = Shutting_Down \<and> (\<exists>pc\<in>set (sd_InFlight s). pc \<noteq> Got_Manager)"

lemma remove_keeps:
  assumes "x \<in> set xs" and "i < length xs" and "xs ! i \<noteq> x"
  shows "x \<in> set (take i xs @ drop (Suc i) xs)"
proof -
  have "set xs = set (take i xs) \<union> {xs ! i} \<union> set (drop (Suc i) xs)"
    using arg_cong [OF id_take_nth_drop [OF assms(2)], of set] by auto
  with assms(1,3) show ?thesis by auto
qed

lemma blocked_step:
  assumes "shutdown_step True s s'" and "blocked s"
  shows "blocked s'"
  using assms
proof cases
  case (answer i)
  from assms(2) obtain pc where "pc \<in> set (sd_InFlight s)" "pc \<noteq> Got_Manager" by (auto simp: blocked_def)
  with remove_keeps [of pc "sd_InFlight s" i] answer assms(2) show ?thesis
    by (auto simp: blocked_def simp del: set_append)
qed (auto simp: blocked_def write_locked_def)


section \<open>Otherwise it returns\<close>

definition draining :: "shutdown_state \<Rightarrow> bool" where
  "draining s \<longleftrightarrow> sd_Stop s = Shutting_Down \<and> set (sd_InFlight s) \<subseteq> {Got_Manager}"

text \<open>What is left to do: every query in flight answers, then \<open>Stop\<close> returns.\<close>

definition left :: "shutdown_state \<Rightarrow> nat" where
  "left s = length (sd_InFlight s) + (if sd_Stop s = Stop_Returned then 0 else 1)"

lemma draining_step:
  assumes "draining s" and "shutdown_step waits s s'"
  shows "(draining s' \<or> sd_Stop s' = Stop_Returned) \<and> left s' < left s"
  using assms(2)
proof cases
  case (answer i)
  with assms(1) show ?thesis
    by (auto simp: draining_def left_def dest: in_set_takeD in_set_dropD)
next
  case return
  with assms(1) show ?thesis by (simp add: draining_def left_def)
qed (use assms(1) in \<open>auto simp: draining_def write_locked_def dest: nth_mem\<close>)

lemma draining_progress:
  assumes "draining s"
  shows "\<exists>s'. shutdown_step waits s s'"
proof (cases "sd_InFlight s")
  case Nil
  with assms shutdown_step.return [of s waits] show ?thesis by (auto simp: draining_def)
next
  case (Cons pc pcs)
  with assms shutdown_step.answer [of 0 s waits] show ?thesis by (auto simp: draining_def)
qed




end
