(* ===== verification/Go_Text.thy ===== *)
theory Go_Text
  imports Go_Print
begin

text \<open>
  Text functions of the Go standard library the service and the start-up code use:
  \<open>strings.Cut\<close>, \<open>strings.Contains\<close>, \<open>strings.TrimSpace\<close>, \<open>strings.Fields\<close>, \<open>strings.ToLower\<close>,
  \<open>strings.ToUpper\<close>, and the printed and parsed decimal integers. White space is that of
  \<open>unicode.IsSpace\<close> in UTF-8; the change of case is that of the ASCII letters, other bytes are
  kept.
\<close>

section \<open>Searching\<close>

text \<open>\<open>strings.Cut\<close>: the text before and after the first occurrence of a separator, if any.\<close>

fun Cut :: "string \<Rightarrow> string \<Rightarrow> (string \<times> string) option" where
  "Cut [] sep = (if sep = [] then Some ([], []) else None)"
| "Cut (c # s) sep =
     (if prefix sep (c # s) then Some ([], drop (length sep) (c # s))
      else map_option (\<lambda>(a, b). (c # a, b)) (Cut s sep))"

definition Contains :: "string \<Rightarrow> string \<Rightarrow> bool" where
  "Contains s sub \<longleftrightarrow> Cut s sub \<noteq> None"

lemma Cut_Some: "Cut s sep = Some (a, b) \<Longrightarrow> s = a @ sep @ b"
proof (induction s arbitrary: a b)
  case (Cons c s)
  show ?case
  proof (cases "prefix sep (c # s)")
    case True
    with Cons.prems show ?thesis by (auto simp: prefix_def)
  next
    case False
    with Cons.prems obtain a' where "Cut s sep = Some (a', b)" and "a = c # a'" by auto
    with Cons.IH show ?thesis by auto
  qed
qed (auto split: if_splits)

lemma Cut_None: "Cut s sep = None \<longleftrightarrow> \<not> sublist sep s"
proof (induction s)
  case (Cons c s)
  then show ?case
    by (auto simp: sublist_Cons_right prefix_Cons)
qed auto

lemma Contains_sublist: "Contains s sub \<longleftrightarrow> sublist sub s"
  by (simp add: Contains_def Cut_None)

text \<open>The separator does not occur earlier.\<close>

lemma Cut_append:
  assumes "sep \<noteq> []" and "hd sep \<notin> set a"
  shows "Cut (a @ sep @ b) sep = Some (a, b)"
  using assms(2)
proof (induction a)
  case Nil
  have "Cut (sep @ b) sep = Some ([], b)"
    using assms(1) by (cases sep) auto
  then show ?case by simp
next
  case (Cons c a)
  have "\<not> prefix sep (c # a @ sep @ b)"
    using assms(1) Cons.prems by (cases sep) auto
  with Cons show ?case by simp
qed

section \<open>White space\<close>

definition space_runes :: "string list" where
  "space_runes =
     [[CHR 0x20], [CHR 0x09], [CHR 0x0A], [CHR 0x0B], [CHR 0x0C], [CHR 0x0D],
      [CHR 0xC2, CHR 0x85], [CHR 0xC2, CHR 0xA0], [CHR 0xE1, CHR 0x9A, CHR 0x80],
      [CHR 0xE2, CHR 0x80, CHR 0x80], [CHR 0xE2, CHR 0x80, CHR 0x81], [CHR 0xE2, CHR 0x80, CHR 0x82],
      [CHR 0xE2, CHR 0x80, CHR 0x83], [CHR 0xE2, CHR 0x80, CHR 0x84], [CHR 0xE2, CHR 0x80, CHR 0x85],
      [CHR 0xE2, CHR 0x80, CHR 0x86], [CHR 0xE2, CHR 0x80, CHR 0x87], [CHR 0xE2, CHR 0x80, CHR 0x88],
      [CHR 0xE2, CHR 0x80, CHR 0x89], [CHR 0xE2, CHR 0x80, CHR 0x8A], [CHR 0xE2, CHR 0x80, CHR 0xA8],
      [CHR 0xE2, CHR 0x80, CHR 0xA9], [CHR 0xE2, CHR 0x80, CHR 0xAF], [CHR 0xE2, CHR 0x81, CHR 0x9F],
      [CHR 0xE3, CHR 0x80, CHR 0x80]]"

text \<open>Dropping leading runes of a list, as long as there is one.\<close>

function trim_runes :: "string list \<Rightarrow> string \<Rightarrow> string" where
  "trim_runes ws s =
     (case find (\<lambda>w. w \<noteq> [] \<and> prefix w s) ws of
        None \<Rightarrow> s
      | Some w \<Rightarrow> trim_runes ws (drop (length w) s))"
  by pat_completeness auto
termination
proof (relation "measure (length \<circ> snd)", simp)
  fix ws :: "string list" and s w
  assume "find (\<lambda>w. w \<noteq> [] \<and> prefix w s) ws = Some w"
  then have "w \<noteq> []" and "prefix w s"
    using find_Some_conv [of _ ws w] by auto
  then show "((ws, drop (length w) s), (ws, s)) \<in> measure (length \<circ> snd)"
    by (auto simp: prefix_def)
qed

declare trim_runes.simps [simp del]

definition TrimSpace :: "string \<Rightarrow> string" where
  "TrimSpace s = rev (trim_runes (map rev space_runes) (rev (trim_runes space_runes s)))"

definition starts_space :: "string \<Rightarrow> bool" where
  "starts_space s \<longleftrightarrow> (\<exists>w\<in>set space_runes. prefix w s)"

fun word_of_text :: "string \<Rightarrow> string \<times> string" where
  "word_of_text [] = ([], [])"
| "word_of_text (c # cs) =
     (if starts_space (c # cs) then ([], c # cs)
      else (c # fst (word_of_text cs), snd (word_of_text cs)))"

lemma trim_runes_suffix: "suffix (trim_runes ws s) s"
proof (induction ws s rule: trim_runes.induct)
  case (1 ws s)
  show ?case
  proof (cases "find (\<lambda>w. w \<noteq> [] \<and> prefix w s) ws")
    case None
    then show ?thesis by (simp add: trim_runes.simps [of ws s])
  next
    case (Some w)
    with 1 have "suffix (trim_runes ws (drop (length w) s)) (drop (length w) s)" by simp
    moreover have "suffix (drop (length w) s) s" by (rule suffix_drop)
    ultimately show ?thesis using Some
      by (subst trim_runes.simps) (auto intro: suffix_order.trans)
  qed
qed

lemma trim_runes_no_rune:
  assumes "\<forall>w\<in>set ws. w \<noteq> [] \<longrightarrow> \<not> prefix w s"
  shows "trim_runes ws s = s"
proof -
  have "find (\<lambda>w. w \<noteq> [] \<and> prefix w s) ws = None"
    using assms by (auto simp: find_None_iff)
  then show ?thesis by (subst trim_runes.simps) simp
qed

lemma trim_runes_done: "w \<in> set ws \<Longrightarrow> w \<noteq> [] \<Longrightarrow> \<not> prefix w (trim_runes ws s)"
proof (induction ws s rule: trim_runes.induct)
  case (1 ws s)
  show ?case
  proof (cases "find (\<lambda>w. w \<noteq> [] \<and> prefix w s) ws")
    case None
    then have "\<not> (w \<noteq> [] \<and> prefix w s)" using "1.prems"(1) by (auto simp: find_None_iff)
    with None "1.prems" show ?thesis by (simp add: trim_runes.simps [of ws s])
  next
    case (Some v)
    with 1 show ?thesis by (simp add: trim_runes.simps [of ws s])
  qed
qed

lemma space_runes_nonempty: "w \<in> set space_runes \<Longrightarrow> w \<noteq> []"
  by (auto simp: space_runes_def)

lemma trim_starts: "\<not> starts_space (trim_runes space_runes s)"
  by (auto simp: starts_space_def dest: trim_runes_done space_runes_nonempty)

lemma word_of_text_append: "fst (word_of_text s) @ snd (word_of_text s) = s"
  by (induction s rule: word_of_text.induct) auto

text \<open>A text of printable ASCII characters has nothing to trim.\<close>

definition printable :: "string \<Rightarrow> bool" where
  "printable s \<longleftrightarrow> list_all (\<lambda>c. 0x20 < (of_char c :: nat) \<and> (of_char c :: nat) < 0x80) s"

lemma trim_runes_printable:
  assumes "printable s" and "\<forall>w\<in>set ws. w \<noteq> [] \<longrightarrow> \<not> printable [hd w]"
  shows "trim_runes ws s = s"
proof (rule trim_runes_no_rune, intro ballI impI notI)
  fix w assume "w \<in> set ws" "w \<noteq> []" "prefix w s"
  then have "hd w \<in> set s" by (auto simp: prefix_def)
  with assms(1) have "printable [hd w]" by (auto simp: printable_def list_all_iff)
  with assms(2) \<open>w \<in> set ws\<close> \<open>w \<noteq> []\<close> show False by blast
qed

lemma TrimSpace_printable: "printable s \<Longrightarrow> TrimSpace s = s"
proof -
  assume p: "printable s"
  then have r: "printable (rev s)" by (simp add: printable_def)
  have "trim_runes space_runes s = s"
    by (rule trim_runes_printable [OF p]) (simp add: space_runes_def printable_def)
  moreover have "trim_runes (map rev space_runes) (rev s) = rev s"
    by (rule trim_runes_printable [OF r]) (simp add: space_runes_def printable_def)
  ultimately show ?thesis by (simp add: TrimSpace_def)
qed

lemma trim_runes_length: "length (trim_runes ws s) \<le> length s"
  by (intro suffix_length_le trim_runes_suffix)

lemma trim_runes_id: "length (trim_runes ws s) = length s \<Longrightarrow> trim_runes ws s = s"
  using trim_runes_suffix [of ws s] by (metis append_Nil length_0_conv length_append suffix_def add_cancel_left_left)

lemma TrimSpace_id:
  assumes "TrimSpace s = s"
  shows "trim_runes space_runes s = s" and "trim_runes (map rev space_runes) (rev s) = rev s"
proof -
  have "length (trim_runes (map rev space_runes) (rev (trim_runes space_runes s))) = length s"
    using arg_cong [OF assms, of length] by (simp add: TrimSpace_def)
  moreover have "length (trim_runes (map rev space_runes) (rev (trim_runes space_runes s)))
      \<le> length (trim_runes space_runes s)"
    using trim_runes_length [of "map rev space_runes" "rev (trim_runes space_runes s)"] by simp
  ultimately have l: "length (trim_runes space_runes s) = length s"
    using trim_runes_length [of space_runes s] by linarith
  then show t: "trim_runes space_runes s = s" by (rule trim_runes_id)
  show "trim_runes (map rev space_runes) (rev s) = rev s"
    using assms by (simp add: TrimSpace_def t flip: rev_swap)
qed

lemma trim_runes_hd:
  assumes "s \<noteq> []" and "printable [hd s]" and "\<forall>w\<in>set ws. w \<noteq> [] \<longrightarrow> \<not> printable [hd w]"
  shows "trim_runes ws s = s"
proof (rule trim_runes_no_rune, intro ballI impI notI)
  fix w assume w: "w \<in> set ws" "w \<noteq> []" "prefix w s"
  then have "hd w = hd s" by (auto simp: prefix_def)
  with assms w show False by metis
qed

lemma TrimSpace_ends:
  assumes "s \<noteq> []" and "printable [hd s]" and "printable [last s]"
  shows "TrimSpace s = s"
proof -
  have "trim_runes space_runes s = s"
    by (rule trim_runes_hd [OF assms(1,2)]) (simp add: space_runes_def printable_def)
  moreover have "trim_runes (map rev space_runes) (rev s) = rev s"
    by (rule trim_runes_hd) (use assms in \<open>simp_all add: hd_rev space_runes_def printable_def\<close>)
  ultimately show ?thesis by (simp add: TrimSpace_def)
qed

lemma TrimSpace_prefix: "s \<noteq> [] \<Longrightarrow> printable [hd s] \<Longrightarrow> prefix (TrimSpace s) s"
proof -
  assume "s \<noteq> []" and "printable [hd s]"
  then have "trim_runes space_runes s = s"
    by (rule trim_runes_hd) (simp add: space_runes_def printable_def)
  moreover have "suffix (trim_runes (map rev space_runes) (rev s)) (rev s)" by (rule trim_runes_suffix)
  ultimately show ?thesis by (simp add: TrimSpace_def suffix_to_prefix)
qed

text \<open>\<open>strings.Fields\<close>: the words between runs of white space.\<close>

function Fields :: "string \<Rightarrow> string list" where
  "Fields s =
     (let t = trim_runes space_runes s in
      if t = [] then [] else fst (word_of_text t) # Fields (snd (word_of_text t)))"
  by pat_completeness auto
termination
proof (relation "measure length", simp)
  fix s t assume t: "t = trim_runes space_runes s" and "t \<noteq> []"
  then obtain c cs where c: "t = c # cs" by (metis neq_Nil_conv)
  have "\<not> starts_space t" unfolding t by (rule trim_starts)
  then have "length (snd (word_of_text t)) = length (snd (word_of_text cs))" by (simp add: c)
  also have "\<dots> \<le> length cs"
    using arg_cong [OF word_of_text_append [of cs], of length] by simp
  also have "\<dots> < length t" by (simp add: c)
  also have "\<dots> \<le> length s" unfolding t by (intro suffix_length_le trim_runes_suffix)
  finally show "(snd (word_of_text t), s) \<in> measure length" by simp
qed

declare Fields.simps [simp del]

section \<open>Case\<close>

definition to_lower_char :: "char \<Rightarrow> char" where
  "to_lower_char c = (let n = of_char c :: nat in if 65 \<le> n \<and> n \<le> 90 then char_of (n + 32) else c)"

definition to_upper_char :: "char \<Rightarrow> char" where
  "to_upper_char c = (let n = of_char c :: nat in if 97 \<le> n \<and> n \<le> 122 then char_of (n - 32) else c)"

definition ToLower :: "string \<Rightarrow> string" where
  "ToLower s = map to_lower_char s"

definition ToUpper :: "string \<Rightarrow> string" where
  "ToUpper s = map to_upper_char s"

lemma to_lower_upper:
  "to_lower_char (CHR ''A'') = CHR ''a''"
  "to_lower_char (CHR ''B'') = CHR ''b''"
  "to_lower_char (CHR ''C'') = CHR ''c''"
  "to_lower_char (CHR ''D'') = CHR ''d''"
  "to_lower_char (CHR ''E'') = CHR ''e''"
  "to_lower_char (CHR ''F'') = CHR ''f''"
  "to_lower_char (CHR ''G'') = CHR ''g''"
  "to_lower_char (CHR ''H'') = CHR ''h''"
  "to_lower_char (CHR ''I'') = CHR ''i''"
  "to_lower_char (CHR ''J'') = CHR ''j''"
  "to_lower_char (CHR ''K'') = CHR ''k''"
  "to_lower_char (CHR ''L'') = CHR ''l''"
  "to_lower_char (CHR ''M'') = CHR ''m''"
  "to_lower_char (CHR ''N'') = CHR ''n''"
  "to_lower_char (CHR ''O'') = CHR ''o''"
  "to_lower_char (CHR ''P'') = CHR ''p''"
  "to_lower_char (CHR ''Q'') = CHR ''q''"
  "to_lower_char (CHR ''R'') = CHR ''r''"
  "to_lower_char (CHR ''S'') = CHR ''s''"
  "to_lower_char (CHR ''T'') = CHR ''t''"
  "to_lower_char (CHR ''U'') = CHR ''u''"
  "to_lower_char (CHR ''V'') = CHR ''v''"
  "to_lower_char (CHR ''W'') = CHR ''w''"
  "to_lower_char (CHR ''X'') = CHR ''x''"
  "to_lower_char (CHR ''Y'') = CHR ''y''"
  "to_lower_char (CHR ''Z'') = CHR ''z''"
  by code_simp+

lemma to_lower_other: "\<not> (65 \<le> (of_char c :: nat) \<and> (of_char c :: nat) \<le> 90) \<Longrightarrow> to_lower_char c = c"
  by (auto simp: to_lower_char_def Let_def)

lemmas to_lower_simps = to_lower_upper to_lower_other

lemma to_upper_char_idem: "to_upper_char (to_upper_char c) = to_upper_char c"
  by (auto simp: to_upper_char_def Let_def)

lemma ToUpper_idem [simp]: "ToUpper (ToUpper s) = ToUpper s"
  by (simp add: ToUpper_def to_upper_char_idem)

section \<open>Integers\<close>

definition print_int :: "int \<Rightarrow> string" where
  "print_int i = (if i < 0 then CHR ''-'' # Itoa (nat (- i)) else Itoa (nat i))"

text \<open>\<open>strconv.Atoi\<close> on a 64-bit platform.\<close>

definition Atoi :: "string \<Rightarrow> int option" where
  "Atoi s =
     (let neg = (s \<noteq> [] \<and> hd s = CHR ''-'');
          ds = (if s \<noteq> [] \<and> (hd s = CHR ''-'' \<or> hd s = CHR ''+'') then tl s else s)
      in case dec_nat ds of
           None \<Rightarrow> None
         | Some n \<Rightarrow>
             if neg then (if int n \<le> 2 ^ 63 then Some (- int n) else None)
             else if int n < 2 ^ 63 then Some (int n) else None)"

end
