(* ===== verification/Go_Json.thy ===== *)
theory Go_Json
  imports Go_Text
begin

text \<open>
  JSON values and the way \<open>encoding/json\<close> stores them in Go variables. Texts are left out: a file or
  message is given by the value it holds. A number is kept as its literal, because a value that
  has been decoded into \<open>interface{}\<close> and encoded again has passed through a 64-bit float: integers
  up to \<open>2^53\<close> come out unchanged, and what any other literal reads as is the parameter \<open>refloat\<close>.
  Storing a value of the wrong kind is an error, here \<open>None\<close>; \<open>null\<close> leaves a variable as it is and
  empties a slice or map; members of unknown name are skipped; names are compared without regard to
  case.
\<close>

section \<open>Values\<close>

datatype json =
    JNull
  | JBool bool
  | JNum string
  | JStr string
  | JArr "json list"
  | JObj "(string \<times> json) list"

type_synonym members = "(string \<times> json) list"
type_synonym number_reader = "string \<Rightarrow> int option"

definition json_int :: "int \<Rightarrow> json" where
  "json_int i = JNum (print_int i)"

text \<open>A slice of strings: the nil slice is encoded as \<open>null\<close>.\<close>

definition json_strings :: "string list \<Rightarrow> json" where
  "json_strings xs = JArr (map JStr xs)"

definition json_nil_strings :: "string list \<Rightarrow> json" where
  "json_nil_strings xs = (if xs = [] then JNull else json_strings xs)"

section \<open>Storing a value\<close>

definition int_literal :: "string \<Rightarrow> int option" where
  "int_literal lit =
     (case lit of
        [] \<Rightarrow> None
      | c # ds \<Rightarrow>
          if c = CHR ''-'' then map_option (\<lambda>n. - int n) (dec_nat ds)
          else map_option int (dec_nat lit))"

definition num_int :: "number_reader \<Rightarrow> string \<Rightarrow> int option" where
  "num_int refloat lit =
     (case int_literal lit of
        Some n \<Rightarrow> if \<bar>n\<bar> \<le> 2 ^ 53 then Some n else refloat lit
      | None \<Rightarrow> refloat lit)"

fun dec_str :: "string \<Rightarrow> json \<Rightarrow> string option" where
  "dec_str old JNull = Some old"
| "dec_str old (JStr s) = Some s"
| "dec_str old _ = None"

fun dec_bool :: "bool \<Rightarrow> json \<Rightarrow> bool option" where
  "dec_bool old JNull = Some old"
| "dec_bool old (JBool b) = Some b"
| "dec_bool old _ = None"

fun dec_int :: "number_reader \<Rightarrow> int \<Rightarrow> json \<Rightarrow> int option" where
  "dec_int refloat old JNull = Some old"
| "dec_int refloat old (JNum lit) = num_int refloat lit"
| "dec_int refloat old _ = None"

text \<open>An integer read straight into an \<open>int\<close> of 64 bits.\<close>

fun dec_int64 :: "int \<Rightarrow> json \<Rightarrow> int option" where
  "dec_int64 old JNull = Some old"
| "dec_int64 old (JNum lit) =
     (case int_literal lit of
        Some n \<Rightarrow> if - (2 ^ 63) \<le> n \<and> n < 2 ^ 63 then Some n else None
      | None \<Rightarrow> None)"
| "dec_int64 old _ = None"

fun dec_list :: "(json \<Rightarrow> 'a option) \<Rightarrow> json \<Rightarrow> 'a list option" where
  "dec_list f JNull = Some []"
| "dec_list f (JArr js) = those (map f js)"
| "dec_list f _ = None"

fun fold_opt :: "('a \<Rightarrow> 'c \<Rightarrow> 'c option) \<Rightarrow> 'a list \<Rightarrow> 'c \<Rightarrow> 'c option" where
  "fold_opt f [] c = Some c"
| "fold_opt f (x # xs) c = (case f x c of None \<Rightarrow> None | Some d \<Rightarrow> fold_opt f xs d)"

text \<open>A struct: each member in turn is stored in the field of its name.\<close>

fun dec_struct :: "(string \<Rightarrow> json \<Rightarrow> 'c \<Rightarrow> 'c option) \<Rightarrow> 'c \<Rightarrow> json \<Rightarrow> 'c option" where
  "dec_struct field old JNull = Some old"
| "dec_struct field old (JObj ms) = fold_opt (\<lambda>(k, v). field k v) ms old"
| "dec_struct field old _ = None"

fun dec_string_map :: "json \<Rightarrow> (string \<times> string) list option" where
  "dec_string_map JNull = Some []"
| "dec_string_map (JObj ms) = those (map (\<lambda>(k, v). map_option (Pair k) (dec_str [] v)) ms)"
| "dec_string_map _ = None"

definition is_field :: "string \<Rightarrow> string \<Rightarrow> bool" where
  "is_field k name \<longleftrightarrow> ToLower k = name"

section \<open>Reading back what was written\<close>

lemma digit_not_minus: "digit c \<noteq> None \<Longrightarrow> c \<noteq> CHR ''-''"
  by (auto simp: digit_def)

lemma int_literal_Itoa: "int_literal (Itoa n) = Some (int n)"
proof -
  obtain c ds where c: "Itoa n = c # ds"
    using Itoa_nonempty by (cases "Itoa n") auto
  have "c \<noteq> CHR ''-''"
    using Itoa_digits [of c n] c by (intro digit_not_minus) simp
  with c show ?thesis
    using dec_nat_Itoa [of n] by (simp add: int_literal_def)
qed

lemma int_literal_print_int [simp]: "int_literal (print_int i) = Some i"
  by (auto simp: print_int_def int_literal_Itoa) (simp add: int_literal_def)

lemma dec_json_int [simp]: "\<bar>i\<bar> \<le> 2 ^ 53 \<Longrightarrow> dec_int refloat old (json_int i) = Some i"
  by (simp add: json_int_def num_int_def)

lemma dec_int64_json_int [simp]:
  "- (2 ^ 63) \<le> i \<Longrightarrow> i < 2 ^ 63 \<Longrightarrow> dec_int64 old (json_int i) = Some i"
  by (simp add: json_int_def)

lemma those_map_Some: "(\<And>x. x \<in> set xs \<Longrightarrow> f x = Some (g x)) \<Longrightarrow> those (map f xs) = Some (map g xs)"
  by (induction xs) auto

lemma those_Some_iff: "those xs = Some ys \<longleftrightarrow> xs = map Some ys"
  by (induction xs arbitrary: ys) (auto split: option.splits)

lemma those_None_iff: "those xs = None \<longleftrightarrow> None \<in> set xs"
  by (induction xs) (auto split: option.splits)

lemma dec_json_strings [simp]: "dec_list (dec_str old) (json_strings xs) = Some xs"
  by (simp add: json_strings_def comp_def those_map_Some [where g = id, simplified])

lemma dec_json_nil_strings [simp]: "dec_list (dec_str old) (json_nil_strings xs) = Some xs"
  by (simp add: json_nil_strings_def)

end
