(* ===== verification/Svc_Dns.thy ===== *)
theory Svc_Dns
  imports Go_Json
begin

text \<open>
  How the service configures the DNS module: the rules the user keeps and their migration
  (\<open>service/db/configure/dnsrules.go\<close>, \<open>migrate_dns.go\<close>, \<open>setting.go\<close>), the listen addresses, the
  servers read from the system, and the generated configuration
  (\<open>service/kernel/v2ray/template_dns.go\<close>, \<open>dnslisten.go\<close>, \<open>tun_core.go\<close>). The machine is the
  parameter \<open>svc_env\<close>: operating system, files, sockets, stored rules, and the host name of a URL.
\<close>

section \<open>Settings and rules\<close>

record svc_rule =
  sr_Server :: string
  sr_Domains :: string
  sr_Outbound :: string
  sr_ID :: int
  sr_Domain :: string
  sr_IP :: string
  sr_QueryType :: string
  sr_ClientIP :: string
  sr_Upstream :: string
  sr_Action :: string
  sr_Policy :: string
  sr_RuleID :: string

text \<open>The settings the DNS configuration reads.\<close>

record svc_setting =
  se_Transparent :: string
  se_TransparentType :: string
  se_IpForward :: bool
  se_PortSharing :: bool
  se_DnsListenAddr :: string
  se_DnsCacheEnabled :: bool
  se_DnsCacheSize :: int
  se_DnsCacheMinTTL :: int
  se_DnsCacheMaxTTL :: int
  se_DnsPrefetch :: bool
  se_DnsNegativeCache :: bool

definition NewSetting :: "bool \<Rightarrow> svc_setting" where
  "NewSetting ipForwardOn =
     \<lparr>se_Transparent = ''close'', se_TransparentType = ''redirect'', se_IpForward = ipForwardOn,
      se_PortSharing = False, se_DnsListenAddr = ''0.0.0.0:52353'', se_DnsCacheEnabled = True,
      se_DnsCacheSize = 4096, se_DnsCacheMinTTL = 60, se_DnsCacheMaxTTL = 86400,
      se_DnsPrefetch = True, se_DnsNegativeCache = True\<rparr>"

definition MigrateSetting :: "svc_setting \<Rightarrow> svc_setting" where
  "MigrateSetting s =
     s\<lparr>se_DnsListenAddr := (if se_DnsListenAddr s = [] then ''0.0.0.0:52353'' else se_DnsListenAddr s),
       se_DnsCacheSize := (if se_DnsCacheSize s = 0 then 4096 else se_DnsCacheSize s),
       se_DnsCacheMinTTL := (if se_DnsCacheMinTTL s = 0 then 60 else se_DnsCacheMinTTL s),
       se_DnsCacheMaxTTL := (if se_DnsCacheMaxTTL s = 0 then 86400 else se_DnsCacheMaxTTL s)\<rparr>"

definition DnsModulePort :: "svc_setting \<Rightarrow> string" where
  "DnsModulePort s =
     (case split_last (CHR '':'') (se_DnsListenAddr s) of
        Some (_, port) \<Rightarrow> if port \<noteq> [] \<and> Atoi port \<noteq> None then port else ''52353''
      | None \<Rightarrow> ''52353'')"

definition legacy_rule :: "string \<Rightarrow> string \<Rightarrow> string \<Rightarrow> svc_rule" where
  "legacy_rule server domains outbound =
     \<lparr>sr_Server = server, sr_Domains = domains, sr_Outbound = outbound, sr_ID = 0, sr_Domain = [],
      sr_IP = [], sr_QueryType = [], sr_ClientIP = [], sr_Upstream = [], sr_Action = [],
      sr_Policy = [], sr_RuleID = []\<rparr>"

definition DefaultDnsRules :: "svc_rule list" where
  "DefaultDnsRules =
     [legacy_rule ''localhost'' ''geosite:private'' ''direct'',
      legacy_rule ''223.5.5.5'' ''geosite:cn'' ''direct'',
      legacy_rule ''1.0.0.1'' [] ''proxy'']"

definition GetDnsRulesNotNil :: "svc_rule list option \<Rightarrow> svc_rule list" where
  "GetDnsRulesNotNil stored =
     (case stored of Some rules \<Rightarrow> if rules \<noteq> [] then rules else DefaultDnsRules
      | None \<Rightarrow> DefaultDnsRules)"

text \<open>The assignments of the loop body in order, each with its condition.\<close>

definition migrate_steps :: "((svc_rule \<Rightarrow> bool) \<times> (svc_rule \<Rightarrow> svc_rule)) list" where
  "migrate_steps =
     [(\<lambda>r. sr_Upstream r = [] \<and> sr_Server r \<noteq> [], \<lambda>r. r\<lparr>sr_Upstream := sr_Server r\<rparr>),
      (\<lambda>r. sr_Server r = [] \<and> sr_Upstream r \<noteq> [], \<lambda>r. r\<lparr>sr_Server := sr_Upstream r\<rparr>),
      (\<lambda>r. sr_Domain r = [] \<and> sr_Domains r \<noteq> [], \<lambda>r. r\<lparr>sr_Domain := sr_Domains r\<rparr>),
      (\<lambda>r. sr_Domains r = [] \<and> sr_Domain r \<noteq> [], \<lambda>r. r\<lparr>sr_Domains := sr_Domain r\<rparr>),
      (\<lambda>r. sr_Action r = [], \<lambda>r. r\<lparr>sr_Action := ''route''\<rparr>),
      (\<lambda>r. sr_Policy r = [], \<lambda>r. r\<lparr>sr_Policy := ''single''\<rparr>),
      (\<lambda>r. sr_Outbound r = [], \<lambda>r. r\<lparr>sr_Outbound := ''direct''\<rparr>),
      (\<lambda>r. sr_QueryType r = [], \<lambda>r. r\<lparr>sr_QueryType := ''*''\<rparr>),
      (\<lambda>r. sr_RuleID r = [], \<lambda>r. r\<lparr>sr_RuleID := ''rule-'' @ print_int (sr_ID r)\<rparr>)]"

definition migrate_rule :: "svc_rule \<Rightarrow> svc_rule" where
  "migrate_rule r = foldl (\<lambda>r (missing, fill). if missing r then fill r else r) r migrate_steps"

definition MigrateDnsRules :: "svc_rule list \<Rightarrow> svc_rule list" where
  "MigrateDnsRules rules = map migrate_rule rules"

fun dedup :: "string set \<Rightarrow> string list \<Rightarrow> string list" where
  "dedup seen [] = []"
| "dedup seen (v # vs) = (if v \<in> seen then dedup seen vs else v # dedup (insert v seen) vs)"

definition Deduplicate :: "string list \<Rightarrow> string list" where
  "Deduplicate vs = dedup {} vs"

section \<open>The machine\<close>

record svc_env =
  ve_goos :: string
  ve_lite :: bool
  ve_ipv6 :: bool
  ve_canBind :: "string \<Rightarrow> bool"
  ve_couldListen :: bool
  ve_resolv :: "string option"
  ve_backup :: "string option"
  ve_egress :: string
  ve_socks :: "int option"
  ve_rules :: "svc_rule list option"
  ve_urlHost :: "string \<Rightarrow> string option"

definition IsTransparentOn :: "svc_env \<Rightarrow> svc_setting \<Rightarrow> bool" where
  "IsTransparentOn env s =
     (if se_Transparent s = ''close'' then False
      else if ve_lite env \<and> (se_TransparentType s = ''tproxy'' \<or> se_TransparentType s = ''redirect'')
        then False
      else True)"

definition TunEgressInterfaceIfTun :: "svc_env \<Rightarrow> svc_setting \<Rightarrow> string" where
  "TunEgressInterfaceIfTun env s =
     (if se_TransparentType s \<noteq> ''tun'' \<or> \<not> IsTransparentOn env s then [] else ve_egress env)"

subsection \<open>Is port 53 free?\<close>

text \<open>A UDP socket on port 53, with the parent of the process that owns it, if known.\<close>

record udp_socket =
  us_PPID :: "string option"
  us_LocalIP :: ip

text \<open>The loop over the sockets: whether to listen, and whether some process holds the port.\<close>

fun occupied_loop :: "string \<Rightarrow> bool \<Rightarrow> udp_socket list \<Rightarrow> bool \<times> bool" where
  "occupied_loop pid err [] = (True, err)"
| "occupied_loop pid err (s # ss) =
     (case us_PPID s of
        None \<Rightarrow> occupied_loop pid err ss
      | Some ppid \<Rightarrow>
          if ppid = pid then occupied_loop pid err ss
          else if IP_Equal (us_LocalIP s) (ParseIP ''127.2.0.17'') then (False, True)
          else if IP_IsUnspecified (us_LocalIP s) then (False, True)
          else occupied_loop pid True ss)"

record listen_cache =
  lk_could :: bool
  lk_err :: bool
  lk_lastUpdate :: time

text \<open>\<open>probe\<close> gives the sockets, or nothing when they or their processes cannot be listed.\<close>

definition CouldLocalDnsListen ::
  "string \<Rightarrow> time \<Rightarrow> udp_socket list option \<Rightarrow> listen_cache \<Rightarrow> (bool \<times> bool) \<times> listen_cache" where
  "CouldLocalDnsListen pid now probe k =
     (if now - lk_lastUpdate k < 3 * second then ((lk_could k, lk_err k), k)
      else
        (let res = (case probe of None \<Rightarrow> (False, True) | Some ss \<Rightarrow> occupied_loop pid False ss)
         in (res, \<lparr>lk_could = fst res, lk_err = snd res, lk_lastUpdate = now\<rparr>)))"

section \<open>Listen addresses\<close>

definition stock_addr :: string where
  "stock_addr = ''0.0.0.0:52353''"

definition dnsModuleListenAddr :: "svc_setting \<Rightarrow> string" where
  "dnsModuleListenAddr s =
     (if se_DnsListenAddr s \<noteq> [] \<and> se_DnsListenAddr s \<noteq> stock_addr then se_DnsListenAddr s
      else if se_PortSharing s \<or> se_IpForward s then stock_addr
      else ''127.0.0.1:52353'')"

definition listen_ip :: "svc_setting \<Rightarrow> ip" where
  "listen_ip s =
     ParseIP (case SplitHostPort (dnsModuleListenAddr s) of Some (host, _) \<Rightarrow> host | None \<Rightarrow> [])"

definition dnsModuleExtraListenAddrs :: "svc_env \<Rightarrow> svc_setting \<Rightarrow> string list" where
  "dnsModuleExtraListenAddrs env s =
     (let x = listen_ip s; port = DnsModulePort s;
          addrs = (if x \<noteq> [] \<and> \<not> IP_IsUnspecified x \<and> To4 x \<noteq> [] \<and> ve_ipv6 env
                   then [JoinHostPort ''::1'' port] else [])
      in if ve_goos env = ''darwin'' then
           (if se_TransparentType s = ''tun'' \<and> IsTransparentOn env s then
              (if ve_canBind env ''127.0.0.1:53'' then addrs @ [''127.0.0.1:53''] else addrs)
            else addrs)
         else if ve_goos env \<noteq> ''linux'' then addrs
         else
           (let addrs2 = addrs @
                  (if x \<noteq> [] \<and> \<not> IP_IsUnspecified x then
                     (if \<not> IP_IsLoopback x then [JoinHostPort ''127.0.0.1'' port] else [])
                     @ [JoinHostPort ''127.2.0.17'' port]
                   else [])
            in if \<not> ve_couldListen env then addrs2 else addrs2 @ [''127.2.0.17:53'']))"

text \<open>Where the TUN inbound relays DNS queries (\<open>tun_core.go\<close>).\<close>

definition tunDnsTarget :: "svc_setting \<Rightarrow> string" where
  "tunDnsTarget s =
     (case SplitHostPort (dnsModuleListenAddr s) of
        None \<Rightarrow> ''127.0.0.1:52353''
      | Some (host, port) \<Rightarrow>
          JoinHostPort (if ParseIP host = [] \<or> IP_IsUnspecified (ParseIP host) then ''127.0.0.1'' else host)
            port)"

section \<open>Upstreams\<close>

datatype upstream_error = EmptyUpstream | NoAddress | NotAUrl | QuicUnsupported | UnknownScheme

definition CheckDnsUpstream :: "(string \<Rightarrow> string option) \<Rightarrow> string \<Rightarrow> upstream_error option" where
  "CheckDnsUpstream urlHost upstream =
     (case Cut upstream ''://'' of
        None \<Rightarrow> if TrimSpace upstream = [] then Some EmptyUpstream else None
      | Some (scheme, rest) \<Rightarrow>
          (let sch = ToLower scheme in
           if sch = ''udp'' \<or> sch = ''tcp'' \<or> sch = ''tls'' then
             (if rest = [] then Some NoAddress else None)
           else if sch = ''https'' then
             (case urlHost upstream of
                None \<Rightarrow> Some NotAUrl | Some h \<Rightarrow> if h = [] then Some NotAUrl else None)
           else if sch = ''quic'' then Some QuicUnsupported
           else Some UnknownScheme))"

definition rule_upstream :: "svc_rule \<Rightarrow> string" where
  "rule_upstream r = (if sr_Upstream r = [] then sr_Server r else sr_Upstream r)"

definition direct_server :: "svc_rule \<Rightarrow> string list" where
  "direct_server r =
     (if sr_Outbound r \<noteq> [] \<and> sr_Outbound r \<noteq> ''direct'' then []
      else
        (case (case Cut (rule_upstream r) ''://'' of
                 None \<Rightarrow> Some (rule_upstream r)
               | Some (scheme, rest) \<Rightarrow>
                   if scheme \<noteq> ''udp'' \<and> scheme \<noteq> ''tcp'' then None else Some rest) of
           None \<Rightarrow> []
         | Some addr \<Rightarrow>
             (let (host, port) = (case SplitHostPort addr of Some hp \<Rightarrow> hp | None \<Rightarrow> (addr, ''53'')) in
              if ParseIP host = [] \<or> IP_IsLoopback (ParseIP host) \<or> IP_IsUnspecified (ParseIP host)
              then [] else [JoinHostPort host port])))"

definition directDnsServers :: "svc_env \<Rightarrow> string list" where
  "directDnsServers env =
     Deduplicate (concat (map direct_server (MigrateDnsRules (GetDnsRulesNotNil (ve_rules env)))))"

definition HijackFlag :: string where
  "HijackFlag = ''# v2rayA DNS hijack''"

definition system_server :: "string \<Rightarrow> string list" where
  "system_server line0 =
     (let line = TrimSpace line0 in
      if prefix ''nameserver'' line then
        (case Fields line of
           _ # ip # _ \<Rightarrow> if ParseIP ip \<noteq> [] then [JoinHostPort ip ''53''] else []
         | _ \<Rightarrow> [])
      else [])"

definition getSystemDnsServers :: "svc_env \<Rightarrow> string list" where
  "getSystemDnsServers env =
     (case ve_resolv env of
        None \<Rightarrow> []
      | Some content \<Rightarrow>
          (case (if prefix HijackFlag content then ve_backup env else Some content) of
             None \<Rightarrow> []
           | Some text \<Rightarrow> concat (map system_server (split_on (CHR 0x0A) text))))"

text \<open>
  Protocol and address of an upstream text, and the host that needs to be resolved before the module
  can use it, if any.
\<close>

definition with_port :: "string \<Rightarrow> string \<Rightarrow> string" where
  "with_port proto addr =
     (if SplitHostPort addr = None
      then JoinHostPort addr (if proto = ''tcp-tls'' \<or> proto = ''tls'' then ''853'' else ''53'')
      else addr)"

definition upstream_target :: "string \<Rightarrow> string \<times> string" where
  "upstream_target text =
     (if Contains text ''://'' then
        (if prefix ''https://'' text then (''https'', text)
         else if prefix ''tcp://'' text then (''tcp'', with_port ''tcp'' (TrimPrefix text ''tcp://''))
         else if prefix ''tls://'' text
           then (''tcp-tls'', with_port ''tcp-tls'' (TrimPrefix text ''tls://''))
         else if prefix ''quic://'' text then (''quic'', with_port ''quic'' (TrimPrefix text ''quic://''))
         else (''udp'', with_port ''udp'' text))
      else (''udp'', with_port ''udp'' text))"

definition boot_host :: "(string \<Rightarrow> string option) \<Rightarrow> string \<Rightarrow> string \<Rightarrow> string \<Rightarrow> string" where
  "boot_host urlHost text proto addr =
     (if proto = ''https'' then (case urlHost text of Some h \<Rightarrow> h | None \<Rightarrow> addr)
      else case SplitHostPort addr of Some (host, _) \<Rightarrow> host | None \<Rightarrow> addr)"

section \<open>The generated configuration\<close>

text \<open>
  The maps of the source with a fixed set of keys are records here; \<open>gr_query_type\<close> is \<open>None\<close> where
  the key is not set.
\<close>

record gen_upstream =
  gu_id :: string
  gu_addr :: string
  gu_protocol :: string
  gu_proxy_tag :: string

record gen_rule =
  gr_id :: string
  gr_upstream :: string
  gr_action :: string
  gr_policy :: string
  gr_domain :: "string list"
  gr_domain_suffix :: "string list"
  gr_ip :: "string list"
  gr_client_ip :: "string list"
  gr_query_type :: "string list option"

record gen_state =
  gn_proxyMap :: "(string \<times> string) list"
  gn_bootstrap :: "string list"
  gn_upstreams :: "gen_upstream list"
  gn_seen :: "(string \<times> string) \<rightharpoonup> nat"
  gn_rules :: "gen_rule list"
  gn_default :: string

definition gen_start :: gen_state where
  "gen_start = \<lparr>gn_proxyMap = [], gn_bootstrap = [], gn_upstreams = [], gn_seen = Map.empty,
     gn_rules = [], gn_default = []\<rparr>"

definition upstream_id :: "nat \<Rightarrow> string" where
  "upstream_id i = ''upstream-'' @ Itoa i"

definition split_trim :: "char \<Rightarrow> string \<Rightarrow> string list" where
  "split_trim c text = filter (\<lambda>x. x \<noteq> []) (map TrimSpace (split_on c text))"

definition domain_entries :: "svc_rule \<Rightarrow> string list" where
  "domain_entries r =
     (let text = (if sr_Domain r = [] then sr_Domains r else sr_Domain r) in
      if text = [] then [] else split_trim (CHR 0x0A) (TrimSpace text))"

definition entry_domains :: "svc_rule \<Rightarrow> string list" where
  "entry_domains r = filter (\<lambda>d. \<not> prefix ''domain:'' d) (domain_entries r)"

definition entry_suffixes :: "svc_rule \<Rightarrow> string list" where
  "entry_suffixes r =
     map (\<lambda>d. TrimPrefix d ''domain:'') (filter (prefix ''domain:'') (domain_entries r))"

definition comma_list :: "string \<Rightarrow> string list" where
  "comma_list text = (if text = [] then [] else split_trim (CHR '','') text)"

definition rule_qtypes :: "svc_rule \<Rightarrow> string list option" where
  "rule_qtypes r =
     (if sr_QueryType r \<noteq> [] \<and> sr_QueryType r \<noteq> ''*''
      then Some (map ToUpper (split_trim (CHR '','') (sr_QueryType r))) else None)"

definition has_condition :: "svc_rule \<Rightarrow> bool" where
  "has_condition r \<longleftrightarrow> entry_domains r \<noteq> [] \<or> entry_suffixes r \<noteq> [] \<or> comma_list (sr_ClientIP r) \<noteq> []
     \<or> comma_list (sr_IP r) \<noteq> []"

definition or_text :: "string \<Rightarrow> string \<Rightarrow> string" where
  "or_text text d = (if text = [] then d else text)"

text \<open>The upstream of a rule: an instance with the same address and tag is used again.\<close>

definition add_upstream :: "string \<Rightarrow> string \<Rightarrow> string \<Rightarrow> gen_state \<Rightarrow> string \<times> gen_state" where
  "add_upstream addr proto tag st =
     (case gn_seen st (addr, tag) of
        Some idx \<Rightarrow> (upstream_id idx, st)
      | None \<Rightarrow>
          (let n = length (gn_upstreams st) in
           (upstream_id n,
            st\<lparr>gn_seen := (gn_seen st)((addr, tag) \<mapsto> n),
               gn_upstreams := gn_upstreams st @
                 [\<lparr>gu_id = upstream_id n, gu_addr = addr, gu_protocol = proto, gu_proxy_tag = tag\<rparr>]\<rparr>)))"

definition add_proxy :: "int \<Rightarrow> string \<Rightarrow> (string \<times> string) list \<Rightarrow> (string \<times> string) list" where
  "add_proxy socksPort tag pm =
     (if tag \<noteq> ''direct'' \<and> tag \<noteq> ''block'' \<and> map_of pm tag = None
      then pm @ [(tag, ''127.0.0.1:'' @ print_int socksPort)] else pm)"

definition gen_rule_of :: "string \<Rightarrow> svc_rule \<Rightarrow> gen_state \<Rightarrow> gen_rule" where
  "gen_rule_of uid r st =
     \<lparr>gr_id = or_text (sr_RuleID r) (''rule-'' @ Itoa (length (gn_rules st))), gr_upstream = uid,
      gr_action = or_text (sr_Action r) ''route'', gr_policy = or_text (sr_Policy r) ''single'',
      gr_domain = entry_domains r, gr_domain_suffix = entry_suffixes r, gr_ip = comma_list (sr_IP r),
      gr_client_ip = comma_list (sr_ClientIP r), gr_query_type = rule_qtypes r\<rparr>"

definition gen_step :: "(string \<Rightarrow> string option) \<Rightarrow> int \<Rightarrow> gen_state \<Rightarrow> svc_rule \<Rightarrow> gen_state" where
  "gen_step urlHost socksPort st r =
     (let text0 = rule_upstream r in
      if text0 = [] then st
      else
        (let text = (if text0 = ''localhost'' then ''127.0.0.1'' else text0);
             (proto, addr) = upstream_target text;
             host = boot_host urlHost text proto addr;
             tag = or_text (sr_Outbound r) ''direct'';
             st1 = st\<lparr>gn_bootstrap := (if host \<noteq> [] \<and> ParseIP host = []
                        then gn_bootstrap st @ [host] else gn_bootstrap st),
                      gn_proxyMap := add_proxy socksPort tag (gn_proxyMap st)\<rparr>;
             (uid, st2) = add_upstream addr proto tag st1
         in if has_condition r then st2\<lparr>gn_rules := gn_rules st2 @ [gen_rule_of uid r st2]\<rparr>
            else st2\<lparr>gn_default := uid\<rparr>))"

text \<open>The rule that resolves the names of the proxy nodes directly.\<close>

definition node_domains :: "string list \<Rightarrow> string list" where
  "node_domains hosts = Deduplicate (filter (\<lambda>h. h \<noteq> [] \<and> ParseIP h = []) hosts)"

definition node_upstream_addr :: "string list \<Rightarrow> string" where
  "node_upstream_addr servers =
     (case find (\<lambda>s. case SplitHostPort s of
               Some (host, _) \<Rightarrow> ParseIP host \<noteq> [] \<and> \<not> IP_IsLoopback (ParseIP host)
             | None \<Rightarrow> False) servers of
        Some s \<Rightarrow> s | None \<Rightarrow> ''223.5.5.5:53'')"

definition add_node_rule :: "string list \<Rightarrow> string list \<Rightarrow> gen_state \<Rightarrow> gen_state" where
  "add_node_rule hosts servers st =
     (if node_domains hosts = [] then st
      else st\<lparr>gn_upstreams := \<lparr>gu_id = ''upstream-node'', gu_addr = node_upstream_addr servers,
                gu_protocol = ''udp'', gu_proxy_tag = ''direct''\<rparr> # gn_upstreams st,
              gn_rules := \<lparr>gr_id = ''rule-node'', gr_upstream = ''upstream-node'', gr_action = ''route'',
                gr_policy = ''single'', gr_domain = [], gr_domain_suffix = node_domains hosts, gr_ip = [],
                gr_client_ip = [], gr_query_type = None\<rparr> # gn_rules st\<rparr>)"

definition bootstrap_dns :: "svc_env \<Rightarrow> string list" where
  "bootstrap_dns env = Deduplicate (getSystemDnsServers env @ directDnsServers env)"

definition socks_port :: "svc_env \<Rightarrow> int" where
  "socks_port env = (case ve_socks env of Some p \<Rightarrow> if p > 0 then p else 20170 | None \<Rightarrow> 20170)"

definition gen_all :: "svc_env \<Rightarrow> string list \<Rightarrow> gen_state" where
  "gen_all env hosts =
     add_node_rule hosts (directDnsServers env @ bootstrap_dns env)
       (foldl (gen_step (ve_urlHost env) (socks_port env)) gen_start
          (MigrateDnsRules (GetDnsRulesNotNil (ve_rules env))))"

definition upstream_json :: "gen_upstream \<Rightarrow> json" where
  "upstream_json u =
     JObj [(''id'', JStr (gu_id u)), (''addr'', JStr (gu_addr u)), (''protocol'', JStr (gu_protocol u)),
       (''proxy_tag'', JStr (gu_proxy_tag u)), (''bootstrap'', JBool False)]"

definition rule_json :: "gen_rule \<Rightarrow> json" where
  "rule_json r =
     JObj ([(''id'', JStr (gr_id r)), (''upstream'', JStr (gr_upstream r)), (''action'', JStr (gr_action r)),
       (''policy'', JStr (gr_policy r)), (''domain'', json_nil_strings (gr_domain r)),
       (''domain_suffix'', json_nil_strings (gr_domain_suffix r)), (''ip'', json_nil_strings (gr_ip r)),
       (''client_ip'', json_nil_strings (gr_client_ip r))]
       @ (case gr_query_type r of None \<Rightarrow> [] | Some qs \<Rightarrow> [(''query_type'', json_nil_strings qs)]))"

definition or_positive :: "int \<Rightarrow> int \<Rightarrow> int" where
  "or_positive n d = (if n \<le> 0 then d else n)"

definition cache_json :: "svc_setting \<Rightarrow> json" where
  "cache_json s =
     JObj [(''enabled'', JBool (se_DnsCacheEnabled s)),
       (''size'', json_int (or_positive (se_DnsCacheSize s) 4096)),
       (''min_ttl'', json_int (or_positive (se_DnsCacheMinTTL s) 60)),
       (''max_ttl'', json_int (or_positive (se_DnsCacheMaxTTL s) 86400)),
       (''prefetch'', JBool (se_DnsPrefetch s)), (''neg_cache'', JBool (se_DnsNegativeCache s))]"

definition generateDnsModuleConfig :: "svc_env \<Rightarrow> svc_setting \<Rightarrow> string list \<Rightarrow> json" where
  "generateDnsModuleConfig env s hosts =
     (let st = gen_all env hosts in
      JObj [(''listener'', JObj [(''listen_addr'', JStr (dnsModuleListenAddr s)),
              (''extra_listen_addrs'', json_strings (dnsModuleExtraListenAddrs env s)),
              (''timeout'', json_int 5)]),
        (''cache'', cache_json s),
        (''proxy_map'', JObj (map (\<lambda>(k, v). (k, JStr v)) (gn_proxyMap st))),
        (''bootstrap'', json_strings (Deduplicate (gn_bootstrap st))),
        (''bootstrap_dns'', json_strings (bootstrap_dns env)),
        (''egress_interface'', JStr (TunEgressInterfaceIfTun env s)),
        (''upstreams'', JArr (map upstream_json (gn_upstreams st))),
        (''rules'', JArr (map rule_json (gn_rules st))),
        (''default_upstream'', JStr (gn_default st))])"

end
