(* ===== verification/Core_Start.thy ===== *)
theory Core_Start
  imports Dns_Module Go_Json
begin

text \<open>
  The start of the DNS module inside the core program, \<open>core/main/dns_module.go\<close>: the
  configuration files are merged, the value under \<open>dns_module\<close> is stored in a \<open>DnsModuleConfig\<close>
  (\<open>core/dns/types.go\<close>), defaults are filled in, the module is started with the dispatcher of the
  core, and its rules are compiled again with the geosite resolver. The table of query type names of
  the message package is the parameter \<open>qtypes\<close>.
\<close>

section \<open>Decoding the configuration\<close>

type_synonym qtype_table = "string \<Rightarrow> u16 option"

record json_env =
  je_refloat :: number_reader
  je_qtypes :: qtype_table

definition UnmarshalJSON :: "json_env \<Rightarrow> json \<Rightarrow> query_type option" where
  "UnmarshalJSON je j =
     (case j of
        JNull \<Rightarrow> je_qtypes je (ToUpper [])
      | JStr name \<Rightarrow> je_qtypes je (ToUpper name)
      | JNum lit \<Rightarrow>
          (case num_int (je_refloat je) lit of
             Some n \<Rightarrow>
               if hd lit = CHR ''-'' \<or> n < 0 \<or> 65535 < n then None else Some (word_of_int n)
           | None \<Rightarrow> None)
      | _ \<Rightarrow> None)"

definition listener_field :: "json_env \<Rightarrow> string \<Rightarrow> json \<Rightarrow> listener_config \<Rightarrow> listener_config option" where
  "listener_field je k v c =
     (if is_field k ''listen_addr''
        then map_option (\<lambda>x. c\<lparr>lc_ListenAddr := x\<rparr>) (dec_str (lc_ListenAddr c) v)
      else if is_field k ''extra_listen_addrs''
        then map_option (\<lambda>x. c\<lparr>lc_ExtraListenAddrs := x\<rparr>) (dec_list (dec_str []) v)
      else if is_field k ''timeout''
        then map_option (\<lambda>x. c\<lparr>lc_Timeout := x\<rparr>) (dec_int (je_refloat je) (lc_Timeout c) v)
      else Some c)"

definition cache_field :: "json_env \<Rightarrow> string \<Rightarrow> json \<Rightarrow> cache_config \<Rightarrow> cache_config option" where
  "cache_field je k v c =
     (if is_field k ''enabled''
        then map_option (\<lambda>x. c\<lparr>cc_Enabled := x\<rparr>) (dec_bool (cc_Enabled c) v)
      else if is_field k ''size''
        then map_option (\<lambda>x. c\<lparr>cc_Size := x\<rparr>) (dec_int (je_refloat je) (cc_Size c) v)
      else if is_field k ''min_ttl''
        then map_option (\<lambda>x. c\<lparr>cc_MinTTL := x\<rparr>) (dec_int (je_refloat je) (cc_MinTTL c) v)
      else if is_field k ''max_ttl''
        then map_option (\<lambda>x. c\<lparr>cc_MaxTTL := x\<rparr>) (dec_int (je_refloat je) (cc_MaxTTL c) v)
      else if is_field k ''prefetch''
        then map_option (\<lambda>x. c\<lparr>cc_Prefetch := x\<rparr>) (dec_bool (cc_Prefetch c) v)
      else if is_field k ''prefetch_threshold''
        then map_option (\<lambda>x. c\<lparr>cc_PrefetchThreshold := x\<rparr>)
               (dec_int (je_refloat je) (cc_PrefetchThreshold c) v)
      else if is_field k ''neg_cache''
        then map_option (\<lambda>x. c\<lparr>cc_NegativeCache := x\<rparr>) (dec_bool (cc_NegativeCache c) v)
      else Some c)"

definition upstream_field :: "string \<Rightarrow> json \<Rightarrow> upstream_config \<Rightarrow> upstream_config option" where
  "upstream_field k v c =
     (if is_field k ''id'' then map_option (\<lambda>x. c\<lparr>uc_ID := x\<rparr>) (dec_str (uc_ID c) v)
      else if is_field k ''addr'' then map_option (\<lambda>x. c\<lparr>uc_Addr := x\<rparr>) (dec_str (uc_Addr c) v)
      else if is_field k ''protocol''
        then map_option (\<lambda>x. c\<lparr>uc_Protocol := x\<rparr>) (dec_str (uc_Protocol c) v)
      else if is_field k ''proxy_tag''
        then map_option (\<lambda>x. c\<lparr>uc_ProxyTag := x\<rparr>) (dec_str (uc_ProxyTag c) v)
      else if is_field k ''bootstrap''
        then map_option (\<lambda>x. c\<lparr>uc_Bootstrap := x\<rparr>) (dec_bool (uc_Bootstrap c) v)
      else if is_field k ''server_name''
        then map_option (\<lambda>x. c\<lparr>uc_ServerName := x\<rparr>) (dec_str (uc_ServerName c) v)
      else Some c)"

definition rule_field :: "json_env \<Rightarrow> string \<Rightarrow> json \<Rightarrow> rule_config \<Rightarrow> rule_config option" where
  "rule_field je k v c =
     (if is_field k ''id'' then map_option (\<lambda>x. c\<lparr>rc_ID := x\<rparr>) (dec_str (rc_ID c) v)
      else if is_field k ''domain''
        then map_option (\<lambda>x. c\<lparr>rc_Domain := x\<rparr>) (dec_list (dec_str []) v)
      else if is_field k ''domain_suffix''
        then map_option (\<lambda>x. c\<lparr>rc_DomainSuffix := x\<rparr>) (dec_list (dec_str []) v)
      else if is_field k ''domain_regex''
        then map_option (\<lambda>x. c\<lparr>rc_DomainRegex := x\<rparr>) (dec_list (dec_str []) v)
      else if is_field k ''ip'' then map_option (\<lambda>x. c\<lparr>rc_IP := x\<rparr>) (dec_list (dec_str []) v)
      else if is_field k ''query_type''
        then map_option (\<lambda>x. c\<lparr>rc_QueryType := x\<rparr>) (dec_list (UnmarshalJSON je) v)
      else if is_field k ''client_ip''
        then map_option (\<lambda>x. c\<lparr>rc_ClientIP := x\<rparr>) (dec_list (dec_str []) v)
      else if is_field k ''upstream''
        then map_option (\<lambda>x. c\<lparr>rc_Upstream := x\<rparr>) (dec_str (rc_Upstream c) v)
      else if is_field k ''action''
        then map_option (\<lambda>x. c\<lparr>rc_Action := x\<rparr>) (dec_str (rc_Action c) v)
      else if is_field k ''policy''
        then map_option (\<lambda>x. c\<lparr>rc_Policy := x\<rparr>) (dec_str (rc_Policy c) v)
      else Some c)"

text \<open>The zero values of the structs.\<close>

definition zero_upstream :: upstream_config where
  "zero_upstream = \<lparr>uc_ID = [], uc_Addr = [], uc_Protocol = [], uc_ProxyTag = [],
     uc_Bootstrap = False, uc_ServerName = []\<rparr>"

definition zero_rule :: rule_config where
  "zero_rule = \<lparr>rc_ID = [], rc_Domain = [], rc_DomainSuffix = [], rc_DomainRegex = [], rc_IP = [],
     rc_QueryType = [], rc_ClientIP = [], rc_Upstream = [], rc_Action = [], rc_Policy = []\<rparr>"

definition zero_config :: module_config where
  "zero_config =
     \<lparr>mc_Listener = \<lparr>lc_ListenAddr = [], lc_ExtraListenAddrs = [], lc_Timeout = 0\<rparr>,
      mc_Cache = \<lparr>cc_Enabled = False, cc_Size = 0, cc_MinTTL = 0, cc_MaxTTL = 0,
        cc_Prefetch = False, cc_PrefetchThreshold = 0, cc_NegativeCache = False\<rparr>,
      mc_Upstreams = [], mc_Rules = [], mc_DefaultUpstream = [], mc_ProxyMap = [],
      mc_Bootstrap = [], mc_BootstrapDns = [], mc_EgressInterface = []\<rparr>"

definition config_field :: "json_env \<Rightarrow> string \<Rightarrow> json \<Rightarrow> module_config \<Rightarrow> module_config option" where
  "config_field je k v c =
     (if is_field k ''listener''
        then map_option (\<lambda>x. c\<lparr>mc_Listener := x\<rparr>)
               (dec_struct (listener_field je) (mc_Listener c) v)
      else if is_field k ''cache''
        then map_option (\<lambda>x. c\<lparr>mc_Cache := x\<rparr>) (dec_struct (cache_field je) (mc_Cache c) v)
      else if is_field k ''upstreams''
        then map_option (\<lambda>x. c\<lparr>mc_Upstreams := x\<rparr>)
               (dec_list (dec_struct upstream_field zero_upstream) v)
      else if is_field k ''rules''
        then map_option (\<lambda>x. c\<lparr>mc_Rules := x\<rparr>)
               (dec_list (dec_struct (rule_field je) zero_rule) v)
      else if is_field k ''default_upstream''
        then map_option (\<lambda>x. c\<lparr>mc_DefaultUpstream := x\<rparr>) (dec_str (mc_DefaultUpstream c) v)
      else if is_field k ''proxy_map''
        then map_option (\<lambda>x. c\<lparr>mc_ProxyMap := x\<rparr>) (dec_string_map v)
      else if is_field k ''bootstrap''
        then map_option (\<lambda>x. c\<lparr>mc_Bootstrap := x\<rparr>) (dec_list (dec_str []) v)
      else if is_field k ''bootstrap_dns''
        then map_option (\<lambda>x. c\<lparr>mc_BootstrapDns := x\<rparr>) (dec_list (dec_str []) v)
      else if is_field k ''egress_interface''
        then map_option (\<lambda>x. c\<lparr>mc_EgressInterface := x\<rparr>) (dec_str (mc_EgressInterface c) v)
      else Some c)"

section \<open>Extracting the configuration\<close>

text \<open>
  A configuration file as it is read: not at all, not a JSON object, or an object with its members.
\<close>

datatype config_file = Unreadable | NotAnObject | Object members

datatype extract_error = ReadConfig string | UnmarshalConfig

definition merge_members :: "(string \<rightharpoonup> json) \<Rightarrow> members \<Rightarrow> (string \<rightharpoonup> json)" where
  "merge_members m ms = foldl (\<lambda>m (k, v). m(k \<mapsto> v)) m ms"

fun merge_files ::
  "(string \<Rightarrow> config_file) \<Rightarrow> (string \<rightharpoonup> json) \<Rightarrow> string list \<Rightarrow> extract_error + (string \<rightharpoonup> json)" where
  "merge_files read merged [] = Inr merged"
| "merge_files read merged (f # fs) =
     (if f = ''stdin:'' then merge_files read merged fs
      else case read f of
        Unreadable \<Rightarrow> Inl (ReadConfig f)
      | NotAnObject \<Rightarrow> merge_files read merged fs
      | Object ms \<Rightarrow> merge_files read (merge_members merged ms) fs)"

definition apply_defaults :: "module_config \<Rightarrow> module_config" where
  "apply_defaults c =
     (let l = mc_Listener c; k = mc_Cache c in
      c\<lparr>mc_Listener := l
          \<lparr>lc_ListenAddr := (if lc_ListenAddr l = [] then ''0.0.0.0:52353'' else lc_ListenAddr l),
           lc_Timeout := (if lc_Timeout l \<le> 0 then 5 else lc_Timeout l)\<rparr>,
        mc_Cache := k
          \<lparr>cc_Size := (if cc_Size k \<le> 0 then 4096 else cc_Size k),
           cc_MinTTL := (if cc_MinTTL k \<le> 0 then 60 else cc_MinTTL k),
           cc_MaxTTL := (if cc_MaxTTL k \<le> 0 then 86400 else cc_MaxTTL k)\<rparr>\<rparr>)"

definition extractDnsModuleConfig ::
  "json_env \<Rightarrow> (string \<Rightarrow> config_file) \<Rightarrow> string list \<Rightarrow> extract_error + module_config option" where
  "extractDnsModuleConfig je read files =
     (if files = [] then Inr None
      else case merge_files read Map.empty files of
        Inl e \<Rightarrow> Inl e
      | Inr merged \<Rightarrow>
          (case merged ''dns_module'' of
             None \<Rightarrow> Inr None
           | Some raw \<Rightarrow>
               (case dec_struct (config_field je) zero_config raw of
                  None \<Rightarrow> Inl UnmarshalConfig
                | Some cfg \<Rightarrow> Inr (Some (apply_defaults cfg)))))"

section \<open>The manager of the module\<close>

text \<open>
  The state is the module the program holds, if any. A start that hangs is \<open>None\<close>, as is a stop.
\<close>

record core_env =
  ce_module :: module_env
  ce_json :: json_env
  ce_read :: "string \<Rightarrow> config_file"
  ce_geosite :: geosite_resolver
  ce_dispatcher :: bool

datatype start_error =
    ExtractFailed extract_error
  | NoDispatcher
  | StartFailed module_error

definition reload_with :: "module_env \<Rightarrow> geosite_resolver \<Rightarrow> dns_module \<Rightarrow> dns_module" where
  "reload_with env resolver m =
     (case ms_Router (mo_core m) of
        None \<Rightarrow> m
      | Some r \<Rightarrow>
          m\<lparr>mo_core := (mo_core m)\<lparr>ms_Router := Some (snd (Router_Reload (me_compile env)
             (Some (mo_config m)) (SetGeositeResolver (Some resolver) r)))\<rparr>\<rparr>)"

definition startDnsModuleWithXray ::
  "core_env \<Rightarrow> string list \<Rightarrow> dns_module option \<Rightarrow> (start_error option \<times> dns_module option) option" where
  "startDnsModuleWithXray env files held =
     (case extractDnsModuleConfig (ce_json env) (ce_read env) files of
        Inl e \<Rightarrow> Some (Some (ExtractFailed e), held)
      | Inr None \<Rightarrow> Some (None, held)
      | Inr (Some cfg) \<Rightarrow>
          if \<not> ce_dispatcher env then Some (Some NoDispatcher, held)
          else
            (let m0 = Module_SetDispatcher True (NewDnsModule (me_now (ce_module env)) (Some cfg)) in
             case Module_Start (ce_module env) m0 of
               None \<Rightarrow> None
             | Some (Some e, _) \<Rightarrow> Some (Some (StartFailed e), held)
             | Some (None, m) \<Rightarrow>
                 Some (None, Some (reload_with (ce_module env) (ce_geosite env) m))))"

definition stopDnsModule :: "core_env \<Rightarrow> dns_module option \<Rightarrow> dns_module option option" where
  "stopDnsModule env held =
     (case held of
        None \<Rightarrow> Some None
      | Some m \<Rightarrow> (case Module_Stop (ce_module env) m of None \<Rightarrow> None | Some _ \<Rightarrow> Some None))"

definition DnsModuleReady :: "dns_module option \<Rightarrow> bool" where
  "DnsModuleReady held = (case held of None \<Rightarrow> False | Some m \<Rightarrow> Module_Healthy m)"

text \<open>
  The waiting loop: each round reads the clock and, before the deadline, the module. The rounds are
  given as the list of what they read; \<open>None\<close> is a wait that has not ended within them.
\<close>

fun wait_loop :: "time \<Rightarrow> (time \<times> dns_module option) list \<Rightarrow> bool option" where
  "wait_loop deadline [] = None"
| "wait_loop deadline ((now, held) # rounds) =
     (if now < deadline then (if DnsModuleReady held then Some True else wait_loop deadline rounds)
      else Some False)"

definition waitForDnsModuleReady ::
  "time \<Rightarrow> duration \<Rightarrow> (time \<times> dns_module option) list \<Rightarrow> bool option" where
  "waitForDnsModuleReady start timeout rounds = wait_loop (start + timeout) rounds"

end
