(* ===== verification/Svc_Dns_Correct.thy ===== *)
theory Svc_Dns_Correct
  imports Svc_Dns Core_Start Dns_Module_Correct
begin

text \<open>
  What the generated DNS configuration holds: the rules of the user in their order with the
  upstreams they name, one upstream per address and channel, and values the core decodes to the same
  configuration.
\<close>

section \<open>The configuration the core reads\<close>

definition config_upstream :: "gen_upstream \<Rightarrow> upstream_config" where
  "config_upstream u =
     \<lparr>uc_ID = gu_id u, uc_Addr = gu_addr u, uc_Protocol = gu_protocol u,
      uc_ProxyTag = gu_proxy_tag u, uc_Bootstrap = False, uc_ServerName = []\<rparr>"

definition config_rule :: "qtype_table \<Rightarrow> gen_rule \<Rightarrow> rule_config option" where
  "config_rule qtypes r =
     map_option (\<lambda>qs. \<lparr>rc_ID = gr_id r, rc_Domain = gr_domain r, rc_DomainSuffix = gr_domain_suffix r,
         rc_DomainRegex = [], rc_IP = gr_ip r, rc_QueryType = qs, rc_ClientIP = gr_client_ip r,
         rc_Upstream = gr_upstream r, rc_Action = gr_action r, rc_Policy = gr_policy r\<rparr>)
       (those (map (\<lambda>q. qtypes (ToUpper q)) (case gr_query_type r of None \<Rightarrow> [] | Some qs \<Rightarrow> qs)))"

definition config_cache :: "svc_setting \<Rightarrow> cache_config" where
  "config_cache s =
     \<lparr>cc_Enabled = se_DnsCacheEnabled s, cc_Size = or_positive (se_DnsCacheSize s) 4096,
      cc_MinTTL = or_positive (se_DnsCacheMinTTL s) 60,
      cc_MaxTTL = or_positive (se_DnsCacheMaxTTL s) 86400, cc_Prefetch = se_DnsPrefetch s,
      cc_PrefetchThreshold = 0, cc_NegativeCache = se_DnsNegativeCache s\<rparr>"

definition config_of :: "svc_env \<Rightarrow> svc_setting \<Rightarrow> string list \<Rightarrow> rule_config list \<Rightarrow> module_config" where
  "config_of env s hosts rules =
     (let st = gen_all env hosts in
      \<lparr>mc_Listener = \<lparr>lc_ListenAddr = dnsModuleListenAddr s,
         lc_ExtraListenAddrs = dnsModuleExtraListenAddrs env s, lc_Timeout = 5\<rparr>,
       mc_Cache = config_cache s, mc_Upstreams = map config_upstream (gn_upstreams st),
       mc_Rules = rules, mc_DefaultUpstream = gn_default st, mc_ProxyMap = gn_proxyMap st,
       mc_Bootstrap = Deduplicate (gn_bootstrap st), mc_BootstrapDns = bootstrap_dns env,
       mc_EgressInterface = TunEgressInterfaceIfTun env s\<rparr>)"

text \<open>Sizes and lifetimes that a float of 64 bits holds exactly.\<close>

definition exact_setting :: "svc_setting \<Rightarrow> bool" where
  "exact_setting s \<longleftrightarrow> se_DnsCacheSize s \<le> 2 ^ 53 \<and> se_DnsCacheMinTTL s \<le> 2 ^ 53
     \<and> se_DnsCacheMaxTTL s \<le> 2 ^ 53"

lemmas json_field_simps = is_field_def ToLower_def to_lower_char_def Let_def

lemma dec_upstream:
  "dec_struct upstream_field zero_upstream (upstream_json u) = Some (config_upstream u)"
  by (simp add: upstream_json_def upstream_field_def zero_upstream_def config_upstream_def json_field_simps)

lemma dec_qtypes:
  "dec_list (UnmarshalJSON je) (json_nil_strings qs) = those (map (\<lambda>q. je_qtypes je (ToUpper q)) qs)"
  by (simp add: json_nil_strings_def json_strings_def UnmarshalJSON_def comp_def)

lemma dec_rule:
  "dec_struct (rule_field je) zero_rule (rule_json r) = config_rule (je_qtypes je) r"
proof (cases "gr_query_type r")
  case None
  then show ?thesis
    by (simp add: rule_json_def rule_field_def zero_rule_def config_rule_def json_field_simps)
next
  case (Some qs)
  then show ?thesis
    by (cases "those (map (\<lambda>q. je_qtypes je (ToUpper q)) qs)")
      (simp_all add: rule_json_def rule_field_def zero_rule_def config_rule_def json_field_simps dec_qtypes)
qed

lemma dec_cache:
  assumes "exact_setting s"
  shows "dec_struct (cache_field je) (mc_Cache zero_config) (cache_json s) = Some (config_cache s)"
proof -
  have "\<bar>or_positive (se_DnsCacheSize s) 4096\<bar> \<le> 2 ^ 53" "\<bar>or_positive (se_DnsCacheMinTTL s) 60\<bar> \<le> 2 ^ 53"
    "\<bar>or_positive (se_DnsCacheMaxTTL s) 86400\<bar> \<le> 2 ^ 53"
    using assms by (auto simp: exact_setting_def or_positive_def)
  then show ?thesis
    by (simp add: cache_json_def cache_field_def zero_config_def config_cache_def json_field_simps
        del: power_numeral)
qed

lemma dec_proxy_map: "dec_string_map (JObj (map (\<lambda>(k, v). (k, JStr v)) pm)) = Some pm"
  by (simp add: comp_def case_prod_beta those_map_Some [where g = id, simplified])

lemma generated_decodes:
  assumes "exact_setting s"
  shows "dec_struct (config_field je) zero_config (generateDnsModuleConfig env s hosts)
    = map_option (config_of env s hosts) (those (map (config_rule (je_qtypes je)) (gn_rules (gen_all env hosts))))"
proof -
  let ?st = "gen_all env hosts"
  have l: "dec_struct (listener_field je) (mc_Listener zero_config)
      (JObj [(''listen_addr'', JStr (dnsModuleListenAddr s)),
        (''extra_listen_addrs'', json_strings (dnsModuleExtraListenAddrs env s)), (''timeout'', json_int 5)])
    = Some \<lparr>lc_ListenAddr = dnsModuleListenAddr s, lc_ExtraListenAddrs = dnsModuleExtraListenAddrs env s,
        lc_Timeout = 5\<rparr>"
    by (simp add: listener_field_def zero_config_def json_field_simps)
  have u: "dec_list (dec_struct upstream_field zero_upstream) (JArr (map upstream_json (gn_upstreams ?st)))
    = Some (map config_upstream (gn_upstreams ?st))"
    by (simp add: comp_def dec_upstream those_map_Some [where g = config_upstream])
  have r: "dec_list (dec_struct (rule_field je) zero_rule) (JArr (map rule_json (gn_rules ?st)))
    = those (map (config_rule (je_qtypes je)) (gn_rules ?st))"
    by (simp add: comp_def dec_rule)
  note d = l u r dec_cache [OF assms, of je] dec_proxy_map [of "gn_proxyMap ?st"]
  show ?thesis
    using d
    by (cases "those (map (config_rule (je_qtypes je)) (gn_rules ?st))")
      (simp_all add: generateDnsModuleConfig_def dec_struct.simps(2) [of "config_field je"] config_field_def json_field_simps config_of_def
        zero_config_def del: dec_struct.simps dec_list.simps dec_string_map.simps)
qed

section \<open>What is generated\<close>

definition target_of :: "svc_rule \<Rightarrow> string \<times> string" where
  "target_of r =
     (let text = rule_upstream r in
      (snd (upstream_target (if text = ''localhost'' then ''127.0.0.1'' else text)),
       or_text (sr_Outbound r) ''direct''))"

definition upstream_key :: "gen_upstream \<Rightarrow> string \<times> string" where
  "upstream_key u = (gu_addr u, gu_proxy_tag u)"

text \<open>A generated rule stands for a user rule when it has its conditions and leads to its upstream.\<close>

definition stands_for :: "gen_upstream list \<Rightarrow> svc_rule \<Rightarrow> gen_rule \<Rightarrow> bool" where
  "stands_for ups r g \<longleftrightarrow>
     (\<exists>u\<in>set ups. gu_id u = gr_upstream g \<and> upstream_key u = target_of r)
     \<and> gr_domain g = entry_domains r \<and> gr_domain_suffix g = entry_suffixes r
     \<and> gr_ip g = comma_list (sr_IP r) \<and> gr_client_ip g = comma_list (sr_ClientIP r)
     \<and> gr_query_type g = rule_qtypes r \<and> gr_action g = or_text (sr_Action r) ''route''"

definition last_default :: "gen_upstream list \<Rightarrow> svc_rule list \<Rightarrow> string \<Rightarrow> bool" where
  "last_default ups catch_all d \<longleftrightarrow>
     (if catch_all = [] then d = []
      else \<exists>u\<in>set ups. gu_id u = d \<and> upstream_key u = target_of (last catch_all))"

definition usable :: "svc_rule list \<Rightarrow> svc_rule list" where
  "usable rs = filter (\<lambda>r. rule_upstream r \<noteq> []) rs"

definition gen_indexed :: "gen_state \<Rightarrow> bool" where
  "gen_indexed st \<longleftrightarrow>
     map gu_id (gn_upstreams st) = map upstream_id [0..<length (gn_upstreams st)]
     \<and> (\<forall>k i. gn_seen st k = Some i
          \<longleftrightarrow> i < length (gn_upstreams st) \<and> upstream_key (gn_upstreams st ! i) = k)"

lemma add_upstream_spec:
  assumes "gen_indexed st" and "add_upstream addr proto tag st = (uid, st')"
  shows "gen_indexed st'"
    and "\<exists>us. gn_upstreams st' = gn_upstreams st @ us"
    and "\<exists>u\<in>set (gn_upstreams st'). gu_id u = uid \<and> upstream_key u = (addr, tag)"
    and "gn_rules st' = gn_rules st" and "gn_default st' = gn_default st"
    and "gn_bootstrap st' = gn_bootstrap st" and "gn_proxyMap st' = gn_proxyMap st"
proof -
  let ?n = "length (gn_upstreams st)"
  have ids: "map gu_id (gn_upstreams st) = map upstream_id [0..<?n]"
    and seen: "\<And>k i. gn_seen st k = Some i \<longleftrightarrow> i < ?n \<and> upstream_key (gn_upstreams st ! i) = k"
    using assms(1) by (auto simp: gen_indexed_def)
  show "gn_rules st' = gn_rules st" "gn_default st' = gn_default st"
    "gn_bootstrap st' = gn_bootstrap st" "gn_proxyMap st' = gn_proxyMap st"
    "\<exists>us. gn_upstreams st' = gn_upstreams st @ us"
    using assms(2) by (auto simp: add_upstream_def Let_def split: option.splits)
  have new: "gn_seen st (addr, tag) = None \<Longrightarrow> \<forall>i<?n. upstream_key (gn_upstreams st ! i) \<noteq> (addr, tag)"
    using seen by (metis option.distinct(1))
  show "gen_indexed st'"
    using assms(2) new ids seen
    by (auto simp: add_upstream_def Let_def gen_indexed_def nth_append upstream_key_def less_Suc_eq
        split: option.splits if_splits)
  show "\<exists>u\<in>set (gn_upstreams st'). gu_id u = uid \<and> upstream_key u = (addr, tag)"
  proof (cases "gn_seen st (addr, tag)")
    case None
    then show ?thesis using assms(2) by (auto simp: add_upstream_def Let_def upstream_key_def)
  next
    case (Some i)
    then have i: "i < ?n" "upstream_key (gn_upstreams st ! i) = (addr, tag)" using seen by auto
    have "gu_id (gn_upstreams st ! i) = upstream_id i"
      using arg_cong [OF ids, of "\<lambda>l. l ! i"] i(1) by simp
    with i Some assms(2) show ?thesis
      by (auto simp: add_upstream_def intro!: bexI [of _ "gn_upstreams st ! i"])
  qed
qed

lemma gen_step_skip: "rule_upstream r = [] \<Longrightarrow> gen_step urlHost p st r = st"
  by (simp add: gen_step_def)

lemma gen_step_spec:
  assumes "gen_indexed st" and "rule_upstream r \<noteq> []"
  obtains uid us where "gen_indexed (gen_step urlHost p st r)"
    and "gn_upstreams (gen_step urlHost p st r) = gn_upstreams st @ us"
    and "\<exists>u\<in>set (gn_upstreams st @ us). gu_id u = uid \<and> upstream_key u = target_of r"
    and "gn_rules (gen_step urlHost p st r)
      = gn_rules st @ (if has_condition r then [gen_rule_of uid r st] else [])"
    and "gn_default (gen_step urlHost p st r) = (if has_condition r then gn_default st else uid)"
proof -
  let ?text = "if rule_upstream r = ''localhost'' then ''127.0.0.1'' else rule_upstream r"
  obtain proto addr where t: "upstream_target ?text = (proto, addr)" by (cases "upstream_target ?text")
  let ?tag = "or_text (sr_Outbound r) ''direct''"
  let ?host = "boot_host urlHost ?text proto addr"
  let ?st1 = "st\<lparr>gn_bootstrap := (if ?host \<noteq> [] \<and> ParseIP ?host = []
      then gn_bootstrap st @ [?host] else gn_bootstrap st),
    gn_proxyMap := add_proxy p ?tag (gn_proxyMap st)\<rparr>"
  obtain uid st2 where a: "add_upstream addr proto ?tag ?st1 = (uid, st2)"
    by (cases "add_upstream addr proto ?tag ?st1")
  have "gen_indexed ?st1" using assms(1) by (simp add: gen_indexed_def)
  note sp = add_upstream_spec [OF this a]
  have key: "target_of r = (addr, ?tag)" by (simp add: target_of_def Let_def t)
  have g: "gen_step urlHost p st r
    = (if has_condition r then st2\<lparr>gn_rules := gn_rules st2 @ [gen_rule_of uid r st2]\<rparr>
       else st2\<lparr>gn_default := uid\<rparr>)"
    using assms(2) by (simp add: gen_step_def Let_def t a)
  have gr: "gen_rule_of uid r st2 = gen_rule_of uid r st"
    using sp(4) by (simp add: gen_rule_of_def)
  obtain us where us: "gn_upstreams st2 = gn_upstreams st @ us" using sp(2) by auto
  show thesis
  proof (rule that)
    show "gen_indexed (gen_step urlHost p st r)"
      using sp(1) by (simp add: g gen_indexed_def)
    show "gn_upstreams (gen_step urlHost p st r) = gn_upstreams st @ us"
      by (simp add: g us)
    show "\<exists>u\<in>set (gn_upstreams st @ us). gu_id u = uid \<and> upstream_key u = target_of r"
      using sp(3) unfolding key us .
    show "gn_rules (gen_step urlHost p st r)
      = gn_rules st @ (if has_condition r then [gen_rule_of uid r st] else [])"
      using sp(4) by (simp add: g gr)
    show "gn_default (gen_step urlHost p st r) = (if has_condition r then gn_default st else uid)"
      using sp(5) by (simp add: g)
  qed
qed

interpretation gen: machine "gen_step urlHost p" gen_indexed for urlHost p
proof
  fix st r assume "gen_indexed st"
  then show "gen_indexed (gen_step urlHost p st r)"
    by (cases "rule_upstream r = []") (auto simp: gen_step_skip elim: gen_step_spec)
qed

lemma gen_start_indexed: "gen_indexed gen_start"
  by (simp add: gen_indexed_def gen_start_def)

lemma stands_for_mono: "stands_for ups r g \<Longrightarrow> stands_for (ups @ us) r g"
  by (auto simp: stands_for_def)

lemma last_default_mono: "last_default ups rs d \<Longrightarrow> last_default (ups @ us) rs d"
  by (auto simp: last_default_def split: if_splits)

lemma gen_run:
  fixes urlHost p rs
  defines "st \<equiv> foldl (gen_step urlHost p) gen_start rs"
  shows "list_all2 (stands_for (gn_upstreams st)) (filter has_condition (usable rs)) (gn_rules st)"
    and "last_default (gn_upstreams st) (filter (\<lambda>r. \<not> has_condition r) (usable rs)) (gn_default st)"
proof -
  have "list_all2 (stands_for (gn_upstreams st)) (filter has_condition (usable rs)) (gn_rules st)
    \<and> last_default (gn_upstreams st) (filter (\<lambda>r. \<not> has_condition r) (usable rs)) (gn_default st)"
    unfolding st_def
  proof (induction rs rule: rev_induct)
    case Nil
    show ?case by (simp add: usable_def gen_start_def last_default_def)
  next
    case (snoc r rs)
    let ?st = "foldl (gen_step urlHost p) gen_start rs"
    have ix: "gen_indexed ?st" by (rule gen.run_inv [OF gen_start_indexed])
    show ?case
    proof (cases "rule_upstream r = []")
      case True
      with snoc show ?thesis by (simp add: usable_def gen_step_skip)
    next
      case False
      obtain uid us where
        u: "gn_upstreams (gen_step urlHost p ?st r) = gn_upstreams ?st @ us"
        and t: "\<exists>u\<in>set (gn_upstreams ?st @ us). gu_id u = uid \<and> upstream_key u = target_of r"
        and g: "gn_rules (gen_step urlHost p ?st r)
          = gn_rules ?st @ (if has_condition r then [gen_rule_of uid r ?st] else [])"
        and d: "gn_default (gen_step urlHost p ?st r) = (if has_condition r then gn_default ?st else uid)"
        using gen_step_spec [OF ix False, where urlHost = urlHost and p = p] by metis
      have "stands_for (gn_upstreams ?st @ us) r (gen_rule_of uid r ?st)"
        using t by (simp add: stands_for_def gen_rule_of_def)
      moreover have "list_all2 (stands_for (gn_upstreams ?st @ us)) (filter has_condition (usable rs)) (gn_rules ?st)"
        using snoc by (auto elim: list_all2_mono intro: stands_for_mono)
      moreover have "last_default (gn_upstreams ?st @ us) (filter (\<lambda>r. \<not> has_condition r) (usable rs)) (gn_default ?st)"
        using snoc by (auto intro: last_default_mono)
      moreover have "last_default (gn_upstreams ?st @ us) (rs' @ [r]) uid" for rs'
        using t by (simp add: last_default_def)
      ultimately show ?thesis
        using False by (auto simp: u g d usable_def intro!: list_all2_appendI)
    qed
  qed
  then show "list_all2 (stands_for (gn_upstreams st)) (filter has_condition (usable rs)) (gn_rules st)"
    and "last_default (gn_upstreams st) (filter (\<lambda>r. \<not> has_condition r) (usable rs)) (gn_default st)"
    by blast+
qed

lemma Itoa_inj: "Itoa m = Itoa n \<Longrightarrow> m = n"
  using dec_nat_Itoa by (metis option.inject)

lemma upstream_id_inj: "upstream_id m = upstream_id n \<Longrightarrow> m = n"
  by (auto simp: upstream_id_def dest: Itoa_inj)

lemma upstream_id_not_node: "upstream_id n \<noteq> ''upstream-node''"
proof
  assume "upstream_id n = ''upstream-node''"
  then have "Itoa n = ''node''" by (simp add: upstream_id_def)
  then have "dec_nat ''node'' = Some n" by (metis dec_nat_Itoa)
  then show False by (simp add: dec_nat_def digit_def)
qed

lemma gen_indexed_distinct:
  assumes "gen_indexed st"
  shows "distinct (map gu_id (gn_upstreams st))" and "distinct (map upstream_key (gn_upstreams st))"
    and "''upstream-node'' \<notin> set (map gu_id (gn_upstreams st))"
proof -
  have ids: "map gu_id (gn_upstreams st) = map upstream_id [0..<length (gn_upstreams st)]"
    and seen: "\<And>k i. gn_seen st k = Some i
      \<longleftrightarrow> i < length (gn_upstreams st) \<and> upstream_key (gn_upstreams st ! i) = k"
    using assms by (auto simp: gen_indexed_def)
  show "distinct (map gu_id (gn_upstreams st))"
    unfolding ids by (auto simp: distinct_map inj_on_def dest: upstream_id_inj)
  show "''upstream-node'' \<notin> set (map gu_id (gn_upstreams st))"
    unfolding ids using upstream_id_not_node by fastforce
  show "distinct (map upstream_key (gn_upstreams st))"
    unfolding distinct_conv_nth using seen by (metis length_map nth_map option.inject)
qed

definition user_state :: "svc_env \<Rightarrow> gen_state" where
  "user_state env = foldl (gen_step (ve_urlHost env) (socks_port env)) gen_start
     (MigrateDnsRules (GetDnsRulesNotNil (ve_rules env)))"

lemma user_state_indexed: "gen_indexed (user_state env)"
  unfolding user_state_def by (rule gen.run_inv [OF gen_start_indexed])

lemma gen_all_user: "gen_all env hosts
  = add_node_rule hosts (directDnsServers env @ bootstrap_dns env) (user_state env)"
  by (simp add: gen_all_def user_state_def)

lemma or_positive_pos: "0 < d \<Longrightarrow> 0 < or_positive n d"
  by (simp add: or_positive_def)

lemma listen_addr_nonempty: "dnsModuleListenAddr s \<noteq> []"
  by (simp add: dnsModuleListenAddr_def stock_addr_def)

section \<open>Correctness of the generated configuration\<close>


lemma JoinHostPort_colon: "CHR '':'' \<in> set (JoinHostPort h p)"
  by (simp add: JoinHostPort_def)

lemma extra_addrs_colon: "a \<in> set (dnsModuleExtraListenAddrs env s) \<Longrightarrow> CHR '':'' \<in> set a"
  by (auto simp: dnsModuleExtraListenAddrs_def Let_def JoinHostPort_colon split: if_splits)

lemma generated_valid:
  "DnsModuleConfig_Validate (config_of env s hosts rules) = None
   \<longleftrightarrow> CHR '':'' \<in> set (dnsModuleListenAddr s)
     \<and> or_positive (se_DnsCacheMinTTL s) 60 \<le> or_positive (se_DnsCacheMaxTTL s) 86400"
proof -
  have "0 < or_positive (se_DnsCacheMinTTL s) 60" "0 < or_positive (se_DnsCacheMaxTTL s) 86400"
    "0 < or_positive (se_DnsCacheSize s) 4096"
    by (simp_all add: or_positive_pos)
  then show ?thesis
    by (auto simp: DnsModuleConfig_Validate_None DnsListenerConfig_Validate_None config_of_def
        config_cache_def Let_def extra_addrs_colon)
qed


section \<open>Upstream texts\<close>

text \<open>
  (C36) An upstream written with the scheme udp is accepted, but its scheme stays part of the address:
  the module is told to dial the host udp.
\<close>

theorem udp_scheme_kept:
  assumes "h \<noteq> []" and "CHR '':'' \<notin> set h" and "plain_host h"
  shows "CheckDnsUpstream urlHost (''udp://'' @ h) = None
    \<and> upstream_target (''udp://'' @ h) = (''udp'', ''udp://'' @ h)
    \<and> SplitHostPort (''udp://'' @ h) = Some (''udp'', ''//'' @ h)"
proof -
  have c: "Cut (''udp://'' @ h) ''://'' = Some (''udp'', h)" by simp
  have "split_last CHR '':'' (''udp'' @ CHR '':'' # (''//'' @ h)) = Some (''udp'', ''//'' @ h)"
    using assms(2) by (intro split_last_snoc) auto
  then have sp: "SplitHostPort (''udp://'' @ h) = Some (''udp'', ''//'' @ h)"
    using assms(3) by (simp add: SplitHostPort_def plain_host_def)
  with c assms(1) show ?thesis
    by (simp add: CheckDnsUpstream_def ToLower_def to_lower_char_def upstream_target_def Contains_def with_port_def)
qed

text \<open>Upstreams are told apart by address and channel only.\<close>

lemma protocol_of_first:
  assumes "plain_host a" and "CHR '':'' \<notin> set a" and "a \<noteq> []" and "a \<noteq> ''localhost''"
    and "\<forall>r\<in>{r1, r2}. sr_Outbound r = ''direct'' \<and> sr_Server r = []"
    and "sr_Upstream r1 = a" and "sr_Upstream r2 = ''tcp://'' @ a"
  shows "map gu_protocol (gn_upstreams (foldl (gen_step urlHost p) gen_start [r1, r2])) = [''udp'']"
proof -
  have n: "SplitHostPort a = None" using assms(2) by (rule SplitHostPort_no_colon)
  have c: "\<not> Contains a ''://''"
    using assms(2) by (auto simp: Contains_sublist sublist_def)
  have t: "upstream_target a = (''udp'', a @ '':53'')"
    using assms(2) n c by (simp add: upstream_target_def with_port_def JoinHostPort_def)
  have t2: "upstream_target (''tcp://'' @ a) = (''tcp'', a @ '':53'')"
    using assms(2) n by (simp add: upstream_target_def Contains_def with_port_def JoinHostPort_def TrimPrefix_def)
  show ?thesis
    using assms t t2
    by (auto simp: gen_step_def gen_start_def rule_upstream_def add_upstream_def or_text_def Let_def)
qed

theorem udp_scheme_kept_witness:
  "CheckDnsUpstream (\<lambda>u. None) ''udp://8.8.8.8'' = None \<and> upstream_target ''udp://8.8.8.8'' = (''udp'', ''udp://8.8.8.8'')"
  using udp_scheme_kept [of "''8.8.8.8''" "\<lambda>u. None"] by (simp add: plain_host_def)

end
