(* ===== verification/Core_Start_Correct.thy ===== *)
theory Core_Start_Correct
  imports Svc_Dns_Correct
begin

text \<open>
  The core started with a generated configuration: what it extracts, how the started module routes
  and which sockets it binds, the part of a started module that queries never change, and the built-in
  rules.
\<close>

section \<open>Reading it in the core\<close>

lemma apply_defaults_generated: "apply_defaults (config_of env s hosts rules) = config_of env s hosts rules"
  using or_positive_pos [of 4096 "se_DnsCacheSize s"] or_positive_pos [of 60 "se_DnsCacheMinTTL s"]
    or_positive_pos [of 86400 "se_DnsCacheMaxTTL s"]
  by (simp add: apply_defaults_def config_of_def config_cache_def Let_def listen_addr_nonempty)

text \<open>A configuration file whose \<open>dns_module\<close> member is the generated configuration.\<close>

definition holds_config :: "(string \<Rightarrow> config_file) \<Rightarrow> string \<Rightarrow> json \<Rightarrow> bool" where
  "holds_config read f cfg \<longleftrightarrow> f \<noteq> ''stdin:''
     \<and> (\<exists>ms. read f = Object ms \<and> merge_members Map.empty ms ''dns_module'' = Some cfg)"

definition decoded_rules :: "qtype_table \<Rightarrow> svc_env \<Rightarrow> string list \<Rightarrow> rule_config list option" where
  "decoded_rules qtypes env hosts = those (map (config_rule qtypes) (gn_rules (gen_all env hosts)))"

lemma extract_generated:
  assumes "exact_setting s" and "holds_config read f (generateDnsModuleConfig env s hosts)"
  shows "extractDnsModuleConfig je read [f]
    = (case decoded_rules (je_qtypes je) env hosts of
         None \<Rightarrow> Inl UnmarshalConfig
       | Some rules \<Rightarrow> Inr (Some (config_of env s hosts rules)))"
  using assms(2) generated_decodes [OF assms(1), of je env hosts]
  by (auto simp: holds_config_def extractDnsModuleConfig_def decoded_rules_def apply_defaults_generated
      split: option.split)

section \<open>The module after its start\<close>

lemma BuildMatchers_resolver:
  "isl (BuildMatchers compile res rule) = isl (BuildMatchers compile res' rule)"
  by (simp add: BuildMatchers_def Let_def split: sum.split)

lemma compile_rules_resolver:
  "isl (compile_rules compile res i rules) = isl (compile_rules compile res' i rules)"
proof (induction rules arbitrary: i)
  case (Cons rule rules)
  show ?case
    using Cons [of "Suc i"] BuildMatchers_resolver [of compile res rule res']
    by (auto split: sum.splits simp: sum.case_eq_if map_sum_def)
qed simp

text \<open>A router that was built is reloaded with any resolver.\<close>

lemma reload_succeeds:
  assumes "NewRouter compile (map rule_of_config (mc_Rules cfg)) ups dflt = Inr r"
  obtains r' where "Router_Reload compile (Some cfg) (SetGeositeResolver (Some res) r) = (None, r')"
proof -
  have "\<not> isl (compile_rules compile None 0 (map rule_of_config (mc_Rules cfg)))"
    using assms by (auto simp: NewRouter_def UpdateRules_def split: sum.splits)
  then have "\<not> isl (compile_rules compile (Some res) 0 (map rule_of_config (mc_Rules cfg)))"
    using compile_rules_resolver by metis
  then obtain mss where "compile_rules compile (Some res) 0 (map rule_of_config (mc_Rules cfg)) = Inr mss"
    by (cases "compile_rules compile (Some res) 0 (map rule_of_config (mc_Rules cfg))") auto
  with that show thesis by (simp add: Router_Reload_def UpdateRules_def SetGeositeResolver_def)
qed

lemma started_module:
  assumes x: "extractDnsModuleConfig (ce_json cenv) (ce_read cenv) files = Inr (Some cfg)"
    and st: "startDnsModuleWithXray cenv files held = Some (None, Some m)"
  obtains ups resolved where "prepare_upstreams (ce_module cenv) cfg = (ups, resolved)"
    and "ms_Upstreams (mo_core m) = ups"
    and "ms_UpstreamMgr (mo_core m) = Some (make_manager True (mc_ProxyMap cfg) ups resolved)"
    and "\<exists>r. ms_Router (mo_core m) = Some r \<and> (\<forall>q. Route r q = route_decision ups
        (selectDefaultUpstream (cfg\<lparr>mc_Upstreams := ups\<rparr>))
        (find (\<lambda>rule. rule_matches (me_compile (ce_module cenv)) (Some (ce_geosite cenv)) rule q)
          (map rule_of_config (mc_Rules cfg))))"
    and "\<exists>l. Listener_Start (me_listen (ce_module cenv)) (NewDnsListener (Some (mc_Listener cfg)) True)
        = Some (None, l)"
    and "DnsModuleConfig_Validate cfg = None"
proof -
  let ?env = "ce_module cenv"
  let ?m0 = "Module_SetDispatcher True (NewDnsModule (me_now ?env) (Some cfg))"
  obtain ups resolved where u: "prepare_upstreams ?env cfg = (ups, resolved)"
    by (cases "prepare_upstreams ?env cfg")
  let ?cfg = "cfg\<lparr>mc_Upstreams := ups\<rparr>"
  let ?dflt = "selectDefaultUpstream ?cfg"
  have m0: "mo_config ?m0 = cfg" "\<not> mo_healthy ?m0" "mo_dispatcher ?m0"
    by (simp_all add: Module_SetDispatcher_def NewDnsModule_def)
  from st x obtain m1 where s1: "Module_Start ?env ?m0 = Some (None, m1)"
    and m: "m = reload_with ?env (ce_geosite cenv) m1"
    by (auto simp: startDnsModuleWithXray_def Let_def split: if_splits option.splits)
  obtain r where r: "NewRouter (me_compile ?env) (map rule_of_config (mc_Rules ?cfg)) ups ?dflt = Inr r"
    and ms: "ms_Router (mo_core m1) = Some r" "ms_Upstreams (mo_core m1) = ups" "mo_config m1 = ?cfg"
      "ms_UpstreamMgr (mo_core m1) = Some (make_manager True (mc_ProxyMap cfg) ups resolved)"
    and v: "DnsModuleConfig_Validate cfg = None"
    and l: "\<exists>l. Listener_Start (me_listen ?env) (NewDnsListener (Some (mc_Listener cfg)) True) = Some (None, l)"
    using s1 m0 by (auto simp: Module_Start_def u Let_def split: option.splits sum.splits)
  have rules: "mc_Rules ?cfg = mc_Rules cfg" by simp
  obtain r' where r': "Router_Reload (me_compile ?env) (Some ?cfg) (SetGeositeResolver (Some (ce_geosite cenv)) r)
      = (None, r')"
    using reload_succeeds [OF r] .
  have core: "mo_core m = (mo_core m1)\<lparr>ms_Router := Some r'\<rparr>"
    using r' by (simp add: m reload_with_def ms)
  have "rt_defaultUpstream (SetGeositeResolver (Some (ce_geosite cenv)) r) = ?dflt"
    and "rt_geositeResolver (SetGeositeResolver (Some (ce_geosite cenv)) r) = Some (ce_geosite cenv)"
    using NewRouter_Inr(3) [OF r] by (simp_all add: SetGeositeResolver_def)
  with route_after_reload [OF r'] have route: "Route r' q = route_decision ups ?dflt
      (find (\<lambda>rule. rule_matches (me_compile ?env) (Some (ce_geosite cenv)) rule q)
        (map rule_of_config (mc_Rules cfg)))" for q
    by simp
  show thesis
    by (rule that [OF u]) (use core ms route l v in simp_all)
qed

section \<open>Names of proxy nodes\<close>

lemma dedup_set: "set (dedup seen vs) = set vs - seen"
  by (induction seen vs rule: dedup.induct) auto

lemma set_Deduplicate [simp]: "set (Deduplicate vs) = set vs"
  by (simp add: Deduplicate_def dedup_set)

definition dialled_by_ip :: "string \<Rightarrow> bool" where
  "dialled_by_ip a \<longleftrightarrow> (\<exists>h p. SplitHostPort a = Some (h, p) \<and> ParseIP h \<noteq> [] \<and> \<not> IP_IsLoopback (ParseIP h))"

lemma node_default_addr: "SplitHostPort ''223.5.5.5:53'' = Some (''223.5.5.5'', ''53'')"
  "ParseIP ''223.5.5.5'' = v4InV6Prefix @ [223, 5, 5, 5]"
  by (simp_all add: SplitHostPort_def split_last_def parse_simps)

lemma node_upstream_addr_ip: "dialled_by_ip (node_upstream_addr servers)"
proof -
  have d: "dialled_by_ip ''223.5.5.5:53''"
    by (simp add: dialled_by_ip_def node_default_addr IP_IsLoopback_def To4_mapped)
  let ?P = "\<lambda>s. case SplitHostPort s of
      Some (host, _) \<Rightarrow> ParseIP host \<noteq> [] \<and> \<not> IP_IsLoopback (ParseIP host) | None \<Rightarrow> False"
  show ?thesis
  proof (cases "find ?P servers")
    case None
    then show ?thesis using d unfolding node_upstream_addr_def by simp
  next
    case (Some s)
    then have "?P s" by (auto dest: find_Some_conv)
    then have "dialled_by_ip s" by (auto simp: dialled_by_ip_def split: option.splits)
    with Some show ?thesis unfolding node_upstream_addr_def by simp
  qed
qed

lemma find_append: "find P (xs @ ys) = (case find P xs of None \<Rightarrow> find P ys | Some x \<Rightarrow> Some x)"
  by (induction xs) auto

definition node_config :: "svc_env \<Rightarrow> upstream_config" where
  "node_config env =
     \<lparr>uc_ID = ''upstream-node'', uc_Addr = node_upstream_addr (directDnsServers env @ bootstrap_dns env),
      uc_Protocol = ''udp'', uc_ProxyTag = ''direct'', uc_Bootstrap = False, uc_ServerName = []\<rparr>"

lemma generated_node_upstream:
  assumes "node_domains hosts \<noteq> []"
  shows "mc_Upstreams (config_of env s hosts rules)
    = node_config env # map config_upstream (gn_upstreams (user_state env))"
  using assms
  by (simp add: config_of_def Let_def gen_all_user add_node_rule_def config_upstream_def node_config_def)

lemma generated_node_rule:
  assumes "node_domains hosts \<noteq> []" and "decoded_rules qtypes env hosts = Some rules"
  obtains rest where "rules = \<lparr>rc_ID = ''rule-node'', rc_Domain = [], rc_DomainSuffix = node_domains hosts,
      rc_DomainRegex = [], rc_IP = [], rc_QueryType = [], rc_ClientIP = [], rc_Upstream = ''upstream-node'',
      rc_Action = ''route'', rc_Policy = ''single''\<rparr> # rest"
  using assms
  by (auto simp: decoded_rules_def gen_all_user add_node_rule_def config_rule_def split: option.splits)

lemma prepared_id:
  "uc_ID (default_port u) = uc_ID u" "uc_ID (bootstrap_upstream urlHost resolved u) = uc_ID u"
  by (simp_all add: default_port_def bootstrap_upstream_def Let_def split: option.split prod.split)

lemma prepared_node:
  "default_port (node_config env) = node_config env"
  "bootstrap_upstream urlHost resolved (node_config env) = node_config env"
proof -
  obtain h p where "SplitHostPort (uc_Addr (node_config env)) = Some (h, p)" "ParseIP h \<noteq> []"
    using node_upstream_addr_ip [of "directDnsServers env @ bootstrap_dns env"]
    by (auto simp: dialled_by_ip_def node_config_def)
  then show "default_port (node_config env) = node_config env"
    "bootstrap_upstream urlHost resolved (node_config env) = node_config env"
    by (simp_all add: default_port_def bootstrap_upstream_def node_config_def)
qed

lemma prepared_upstreams:
  assumes "node_domains hosts \<noteq> []" and "prepare_upstreams menv (config_of env s hosts rules) = (ups, resolved)"
  obtains rest where "ups = node_config env # rest" and "\<forall>u\<in>set rest. uc_ID u \<noteq> [] \<and> uc_ID u \<noteq> ''upstream-node''"
proof -
  have i: "\<forall>u\<in>set (gn_upstreams (user_state env)). gu_id u \<noteq> [] \<and> gu_id u \<noteq> ''upstream-node''"
  proof
    fix u assume u: "u \<in> set (gn_upstreams (user_state env))"
    then have "gu_id u \<in> set (map gu_id (gn_upstreams (user_state env)))" by simp
    also have "map gu_id (gn_upstreams (user_state env))
        = map upstream_id [0..<length (gn_upstreams (user_state env))]"
      using user_state_indexed by (simp add: gen_indexed_def)
    finally show "gu_id u \<noteq> [] \<and> gu_id u \<noteq> ''upstream-node''"
      using upstream_id_not_node by (fastforce simp: upstream_id_def)
  qed
  show thesis
    using assms(2) unfolding prepare_upstreams_def generated_node_upstream [OF assms(1)] Let_def
    by (intro that [of "tl ups"])
      (use i in \<open>auto simp: prepared_node prepared_id config_upstream_def split: if_splits\<close>)
qed

lemma make_manager_sel:
  "um_cells (make_manager d pm ups resolved) = um_cells (NewUpstreamManager ups)"
  "um_upstreams (make_manager d pm ups resolved) = um_upstreams (NewUpstreamManager ups)"
  "um_upstreamsByID (make_manager d pm ups resolved) = um_upstreamsByID (NewUpstreamManager ups)"
  by (simp_all add: make_manager_def Let_def SetBootstrapIPs_def SetDispatcher_def SetProxyAddrResolver_def)

lemma make_manager_get:
  "get_instance (make_manager d pm ups resolved) i = get_instance (NewUpstreamManager ups) i"
  unfolding get_instance_def GetUpstream_def make_manager_sel ..

lemma node_instance:
  assumes "ups = node_config env # rest" and "\<forall>u\<in>set rest. uc_ID u \<noteq> [] \<and> uc_ID u \<noteq> ''upstream-node''"
  shows "get_instance (make_manager d pm ups resolved) ''upstream-node'' = Some (instance_of (node_config env))"
    and "upstream_addr ups ''upstream-node'' = uc_Addr (node_config env)"
    and "upstream_tag ups ''upstream-node'' = ''direct''"
proof -
  have "find P (rev ups) = Some (node_config env)"
    if "P (node_config env)" and "\<And>u. u \<in> set rest \<Longrightarrow> \<not> P u" for P
  proof -
    have "find P (rev rest) = None" using that(2) by (simp add: find_None_iff)
    with that(1) show ?thesis by (simp add: assms(1) find_append)
  qed
  note f = this
  show "upstream_addr ups ''upstream-node'' = uc_Addr (node_config env)"
    "upstream_tag ups ''upstream-node'' = ''direct''"
    using f assms(2) by (simp_all add: upstream_addr_def upstream_tag_def node_config_def)
  have "find (\<lambda>c. cfg_id c = ''upstream-node'') (rev ups) = Some (node_config env)"
    by (rule f) (use assms(2) in \<open>auto simp: cfg_id_def or_else_def node_config_def\<close>)
  then have "map_option ((!) (um_cells (NewUpstreamManager ups))) (GetUpstream (NewUpstreamManager ups) ''upstream-node'')
      = Some (instance_of (node_config env))"
    by (simp add: manager_lookup)
  then show "get_instance (make_manager d pm ups resolved) ''upstream-node'' = Some (instance_of (node_config env))"
    by (simp add: make_manager_get) (simp add: get_instance_def)
qed

section \<open>Routing is fixed while the module runs\<close>

lemma routing_frame [simp]:
  "ms_Router (map_metrics f s) = ms_Router s" "ms_UpstreamMgr (map_metrics f s) = ms_UpstreamMgr s"
  "ms_Upstreams (map_metrics f s) = ms_Upstreams s"
  "ms_Router (map_cache g s) = ms_Router s" "ms_UpstreamMgr (map_cache g s) = ms_UpstreamMgr s"
  "ms_Upstreams (map_cache g s) = ms_Upstreams s"
  by (simp_all add: map_metrics_def map_cache_def)

definition routing :: "module_state \<Rightarrow> router option \<times> upstream_manager option \<times> upstream_config list" where
  "routing s = (ms_Router s, ms_UpstreamMgr s, ms_Upstreams s)"

lemma route_exchange_routing: "routing (snd (route_exchange w clk query i m u s)) = routing s"
  by (auto simp: route_exchange_def routing_def Let_def split: sum.split option.split)

lemma handleRoute_routing: "routing (snd (handleRoute w clk query result s)) = routing s"
  by (auto simp: handleRoute_def Let_def route_exchange_routing split: option.split get_result.split prod.split)
    (auto simp: routing_def)

lemma HandleQuery_routing: "routing (the (snd (HandleQuery w clk cancelled query (Some s)))) = routing s"
proof -
  have b: "routing (snd (handleBypass w clk query r s')) = routing s'" for r s'
    by (auto simp: handleBypass_def Let_def routing_def split: option.split sum.split)
  have j: "routing (snd (handleReject w clk query r s')) = routing s'" for r s'
    by (simp add: handleReject_def routing_def)
  have m: "routing (map_stats f s) = routing s" for f by (simp add: routing_def)
  show ?thesis
    by (simp add: HandleQuery_def Let_def b j handleRoute_routing m)
qed

lemma run_prefetch_routing: "routing (run_prefetch w clk i s) = routing s"
  by (auto simp: run_prefetch_def prefetchAsync_def routing_def Let_def split: option.split sum.split)

lemma module_step_routing: "routing (module_step s ev) = routing s"
  by (cases ev) (simp_all add: HandleQuery_routing run_prefetch_routing)

lemma run_routing: "routing (foldl module_step s evs) = routing s"
  by (induction evs arbitrary: s) (simp_all add: module_step_routing del: module_step.simps)

lemma routed_to_routing:
  assumes "routing s = routing s'"
  shows "routed_to s q = routed_to s' q"
proof -
  have e: "ms_Router s = ms_Router s'" "ms_UpstreamMgr s = ms_UpstreamMgr s'" "ms_Upstreams s = ms_Upstreams s'"
    using assms by (simp_all add: routing_def)
  show ?thesis unfolding routed_to_def route_upstream_def e ..
qed

lemma node_rule_matches:
  assumes "h \<in> set (node_domains hosts)" and "\<not> is_tag h" and "suffix_hit h (TrimSuffix (q_Name q) ''.'')"
  shows "rule_matches compile res (rule_of_config \<lparr>rc_ID = i, rc_Domain = [],
      rc_DomainSuffix = node_domains hosts, rc_DomainRegex = [], rc_IP = [], rc_QueryType = [],
      rc_ClientIP = [], rc_Upstream = u, rc_Action = a, rc_Policy = p\<rparr>) q"
  using assms
  by (auto simp: rule_matches_def rule_of_config_def rule_suffixes_def Let_def intro!: bexI [of _ h])


text \<open>
  (C19) The core reads back the configuration the service wrote: every listen address, cache setting,
  upstream, rule and channel; the only failure is a query type it does not know.
\<close>

theorem generated_config_read:
  assumes "exact_setting s" and "holds_config read f (generateDnsModuleConfig env s hosts)"
  shows "extractDnsModuleConfig je read [f]
    = (case decoded_rules (je_qtypes je) env hosts of
         None \<Rightarrow> Inl UnmarshalConfig
       | Some rules \<Rightarrow> Inr (Some (config_of env s hosts rules)))"
  using assms by (rule extract_generated)

lemma started_generated:
  assumes "exact_setting s" and "holds_config (ce_read cenv) f (generateDnsModuleConfig env s hosts)"
    and "startDnsModuleWithXray cenv [f] held = Some (None, Some m)"
  obtains rules ups resolved r where
    "decoded_rules (je_qtypes (ce_json cenv)) env hosts = Some rules"
    and "prepare_upstreams (ce_module cenv) (config_of env s hosts rules) = (ups, resolved)"
    and "ms_UpstreamMgr (mo_core m) = Some (make_manager True (mc_ProxyMap (config_of env s hosts rules)) ups resolved)"
    and "ms_Router (mo_core m) = Some r"
    and "\<And>q. Route r q = route_decision ups
        (selectDefaultUpstream ((config_of env s hosts rules)\<lparr>mc_Upstreams := ups\<rparr>))
        (find (\<lambda>rule. rule_matches (me_compile (ce_module cenv)) (Some (ce_geosite cenv)) rule q)
          (map rule_of_config rules))"
    and "\<exists>l. Listener_Start (me_listen (ce_module cenv))
        (NewDnsListener (Some (mc_Listener (config_of env s hosts rules))) True) = Some (None, l)"
proof -
  note x = extract_generated [OF assms(1,2), of "ce_json cenv"]
  obtain rules where d: "decoded_rules (je_qtypes (ce_json cenv)) env hosts = Some rules"
    using assms(3) x
    by (cases "decoded_rules (je_qtypes (ce_json cenv)) env hosts")
      (auto simp: startDnsModuleWithXray_def)
  have x': "extractDnsModuleConfig (ce_json cenv) (ce_read cenv) [f] = Inr (Some (config_of env s hosts rules))"
    using x d by simp
  have "mc_Rules (config_of env s hosts rules) = rules" by (simp add: config_of_def Let_def)
  with started_module [OF x' assms(3)] d that show thesis by metis
qed

section \<open>Listening on port 53\<close>

text \<open>Two addresses that cannot both be bound: the same, or a wildcard and any other on its port.\<close>

definition overlaps :: "string \<Rightarrow> string \<Rightarrow> bool" where
  "overlaps a b \<longleftrightarrow> a = b
     \<or> (case (SplitHostPort a, SplitHostPort b) of
          (Some (h, p), Some (_, p')) \<Rightarrow> p = p' \<and> IP_IsUnspecified (ParseIP h)
        | _ \<Rightarrow> False)"

definition binds_exclusively :: "listen_env \<Rightarrow> bool" where
  "binds_exclusively le \<longleftrightarrow>
     (\<forall>running net addr. (\<exists>srv\<in>set running. sv_Net srv = net \<and> overlaps (sv_Addr srv) addr)
        \<longrightarrow> le_Listen le running net addr \<noteq> None)"

lemma start_loop_disjoint:
  assumes "binds_exclusively le" and "start_loop le config addrs l = Some (None, l')"
  shows "(\<forall>srv\<in>set (li_running l). sv_Net srv = ''udp'' \<longrightarrow> (\<forall>a\<in>set addrs. \<not> overlaps (sv_Addr srv) a))
    \<and> (\<forall>i j. i < j \<longrightarrow> j < length addrs \<longrightarrow> \<not> overlaps (addrs ! i) (addrs ! j))"
  using assms(2)
proof (induction addrs arbitrary: l)
  case Nil
  then show ?case by simp
next
  case (Cons a addrs)
  let ?l1 = "l\<lparr>li_running := li_running l @ [udp_server config a, tcp_server config a]\<rparr>"
  let ?pair = "\<lparr>sp_udp = udp_server config a, sp_tcp = tcp_server config a\<rparr>"
  let ?l2 = "?l1\<lparr>li_servers := li_servers ?l1 @ [?pair]\<rparr>"
  have u: "le_Listen le (li_running l) ''udp'' a = None" and rest: "start_loop le config addrs ?l2 = Some (None, l')"
    using Cons.prems by (auto simp: startPair_def Let_def split: option.splits prod.splits sum.splits)
  have now: "\<forall>srv\<in>set (li_running l). sv_Net srv = ''udp'' \<longrightarrow> \<not> overlaps (sv_Addr srv) a"
    using assms(1) u unfolding binds_exclusively_def by metis
  note IH = Cons.IH [OF rest]
  have a: "\<forall>b\<in>set addrs. \<not> overlaps a b"
    using IH by (auto simp: udp_server_def)
  have "\<not> overlaps ((a # addrs) ! i) ((a # addrs) ! j)" if "i < j" "j < length (a # addrs)" for i j
    using that a IH by (cases i) (auto simp: nth_Cons split: nat.splits)
  with now IH show ?case by auto
qed

lemma start_disjoint:
  assumes "binds_exclusively le"
    and "Listener_Start le (NewDnsListener (Some config) True) = Some (None, l)"
    and "i < j" and "j < length (lc_ListenAddr config # lc_ExtraListenAddrs config)"
  shows "\<not> overlaps ((lc_ListenAddr config # lc_ExtraListenAddrs config) ! i)
    ((lc_ListenAddr config # lc_ExtraListenAddrs config) ! j)"
proof -
  have "start_loop le config (lc_ListenAddr config # lc_ExtraListenAddrs config)
      ((NewDnsListener (Some config) True)\<lparr>li_ctx := Some False\<rparr>) = Some (None, l)"
    using assms(2) by (auto simp: Listener_Start_def NewDnsListener_def split: option.splits)
  from start_loop_disjoint [OF assms(1) this] assms(3,4) show ?thesis by blast
qed

lemma hijack_addr: "SplitHostPort ''127.2.0.17:53'' = Some (''127.2.0.17'', ''53'')"
  "JoinHostPort ''127.2.0.17'' ''53'' = ''127.2.0.17:53''"
  by (simp_all add: SplitHostPort_def split_last_def JoinHostPort_def)

lemma extra_on_53:
  assumes "ve_goos env = ''linux''" and "ve_couldListen env" and "DnsModulePort s = ''53''"
    and "SplitHostPort (dnsModuleListenAddr s) = Some (h, ''53'')" and "ParseIP h \<noteq> []"
  obtains pre where "dnsModuleExtraListenAddrs env s
    = pre @ (if IP_IsUnspecified (ParseIP h) then [] else [''127.2.0.17:53'']) @ [''127.2.0.17:53'']"
proof (rule that)
  let ?x = "ParseIP h"
  show "dnsModuleExtraListenAddrs env s
    = ((if \<not> IP_IsUnspecified ?x \<and> To4 ?x \<noteq> [] \<and> ve_ipv6 env then [JoinHostPort ''::1'' ''53''] else [])
       @ (if \<not> IP_IsUnspecified ?x \<and> \<not> IP_IsLoopback ?x then [JoinHostPort ''127.0.0.1'' ''53''] else []))
      @ (if IP_IsUnspecified ?x then [] else [''127.2.0.17:53'']) @ [''127.2.0.17:53'']"
    using assms
    by (simp add: dnsModuleExtraListenAddrs_def listen_ip_def Let_def) (simp add: JoinHostPort_def)
qed


section \<open>The built-in rules without geosite data\<close>

lemma default_targets:
  "upstream_target ''127.0.0.1'' = (''udp'', ''127.0.0.1:53'')"
  "upstream_target ''223.5.5.5'' = (''udp'', ''223.5.5.5:53'')"
  "upstream_target ''1.0.0.1'' = (''udp'', ''1.0.0.1:53'')"
  by (simp_all add: upstream_target_def Contains_def with_port_def SplitHostPort_no_colon JoinHostPort_def)

lemma default_boot_hosts:
  "boot_host urlHost ''127.0.0.1'' ''udp'' ''127.0.0.1:53'' = ''127.0.0.1''"
  "boot_host urlHost ''223.5.5.5'' ''udp'' ''223.5.5.5:53'' = ''223.5.5.5''"
  "boot_host urlHost ''1.0.0.1'' ''udp'' ''1.0.0.1:53'' = ''1.0.0.1''"
  by (simp_all add: boot_host_def SplitHostPort_def split_last_def)

lemma default_boot_ips: "ParseIP ''127.0.0.1'' \<noteq> []" "ParseIP ''223.5.5.5'' \<noteq> []" "ParseIP ''1.0.0.1'' \<noteq> []"
  by (simp_all add: parse_simps)

lemma trim_sample: "TrimSpace ''geosite:private'' = ''geosite:private''" "TrimSpace ''geosite:cn'' = ''geosite:cn''"
  by (rule TrimSpace_printable, simp add: printable_def)+


definition migrated :: "string \<Rightarrow> string \<Rightarrow> string \<Rightarrow> svc_rule" where
  "migrated server domains outbound =
     \<lparr>sr_Server = server, sr_Domains = domains, sr_Outbound = outbound, sr_ID = 0, sr_Domain = domains,
      sr_IP = [], sr_QueryType = ''*'', sr_ClientIP = [], sr_Upstream = server, sr_Action = ''route'',
      sr_Policy = ''single'', sr_RuleID = ''rule-'' @ print_int 0\<rparr>"

lemma migrate_legacy:
  "migrate_rule (legacy_rule ''localhost'' ''geosite:private'' ''direct'') = migrated ''localhost'' ''geosite:private'' ''direct''"
  "migrate_rule (legacy_rule ''223.5.5.5'' ''geosite:cn'' ''direct'') = migrated ''223.5.5.5'' ''geosite:cn'' ''direct''"
  "migrate_rule (legacy_rule ''1.0.0.1'' [] ''proxy'') = migrated ''1.0.0.1'' [] ''proxy''"
  by (simp_all add: migrate_rule_def migrate_steps_def legacy_rule_def migrated_def)

lemma default_entries:
  "domain_entries (migrated u ''geosite:private'' t) = [''geosite:private'']"
  "domain_entries (migrated u ''geosite:cn'' t) = [''geosite:cn'']"
  "domain_entries (migrated u [] t) = []"
  by (simp_all add: domain_entries_def migrated_def split_trim_def trim_sample)

lemma default_rule_fields:
  "rule_upstream (migrated u d t) = u" "sr_Outbound (migrated u d t) = t"
  "sr_IP (migrated u d t) = []" "sr_ClientIP (migrated u d t) = []" "sr_QueryType (migrated u d t) = ''*''"
  by (simp_all add: rule_upstream_def migrated_def)

definition built_in_upstreams :: "gen_upstream list" where
  "built_in_upstreams =
     [\<lparr>gu_id = ''upstream-0'', gu_addr = ''127.0.0.1:53'', gu_protocol = ''udp'', gu_proxy_tag = ''direct''\<rparr>,
      \<lparr>gu_id = ''upstream-1'', gu_addr = ''223.5.5.5:53'', gu_protocol = ''udp'', gu_proxy_tag = ''direct''\<rparr>,
      \<lparr>gu_id = ''upstream-2'', gu_addr = ''1.0.0.1:53'', gu_protocol = ''udp'', gu_proxy_tag = ''proxy''\<rparr>]"

lemma small_ids:
  "upstream_id 0 = ''upstream-0''" "upstream_id (Suc 0) = ''upstream-1''" "upstream_id (Suc (Suc 0)) = ''upstream-2''"
proof -
  have "digit_char 0 = CHR ''0''" "digit_char (Suc 0) = CHR ''1''" "digit_char (Suc (Suc 0)) = CHR ''2''"
    using char_of_char [where 'a = nat, of "CHR ''0''"] char_of_char [where 'a = nat, of "CHR ''1''"]
      char_of_char [where 'a = nat, of "CHR ''2''"]
    by (simp_all add: digit_char_def del: char_of_char)
  then show "upstream_id 0 = ''upstream-0''" "upstream_id (Suc 0) = ''upstream-1''"
    "upstream_id (Suc (Suc 0)) = ''upstream-2''"
    by (simp_all add: upstream_id_def Itoa.simps)
qed

lemma built_in_state:
  fixes urlHost p
  defines "st \<equiv> foldl (gen_step urlHost p) gen_start (MigrateDnsRules (GetDnsRulesNotNil None))"
  shows "gn_upstreams st = built_in_upstreams" and "gn_default st = ''upstream-2''" and "gn_bootstrap st = []"
    and "map gr_upstream (gn_rules st) = [''upstream-0'', ''upstream-1'']"
    and "map gr_domain (gn_rules st) = [[''geosite:private''], [''geosite:cn'']]"
    and "\<forall>g\<in>set (gn_rules st). gr_domain_suffix g = [] \<and> gr_ip g = [] \<and> gr_client_ip g = [] \<and> gr_query_type g = None"
proof -
  let ?r1 = "migrated ''localhost'' ''geosite:private'' ''direct''"
  let ?r2 = "migrated ''223.5.5.5'' ''geosite:cn'' ''direct''"
  let ?r3 = "migrated ''1.0.0.1'' [] ''proxy''"
  have rs: "MigrateDnsRules (GetDnsRulesNotNil None) = [?r1, ?r2, ?r3]"
    by (simp add: MigrateDnsRules_def GetDnsRulesNotNil_def DefaultDnsRules_def migrate_legacy)
  have e: "entry_domains ?r1 = [''geosite:private'']" "entry_domains ?r2 = [''geosite:cn'']" "entry_domains ?r3 = []"
    "entry_suffixes ?r1 = []" "entry_suffixes ?r2 = []" "entry_suffixes ?r3 = []"
    by (simp_all add: entry_domains_def entry_suffixes_def default_entries)
  have c: "has_condition ?r1" "has_condition ?r2" "\<not> has_condition ?r3"
    by (simp_all add: has_condition_def e comma_list_def default_rule_fields)
  note ev = st_def rs gen_step_def gen_start_def Let_def default_rule_fields or_text_def default_targets
    default_boot_hosts default_boot_ips add_upstream_def c small_ids gen_rule_of_def e comma_list_def rule_qtypes_def
    built_in_upstreams_def
  show "gn_upstreams st = built_in_upstreams" by (simp add: ev)
  show "gn_default st = ''upstream-2''" by (simp add: ev)
  show "gn_bootstrap st = []" by (simp add: ev)
  show "map gr_upstream (gn_rules st) = [''upstream-0'', ''upstream-1'']" by (simp add: ev)
  show "map gr_domain (gn_rules st) = [[''geosite:private''], [''geosite:cn'']]" by (simp add: ev)
  show "\<forall>g\<in>set (gn_rules st). gr_domain_suffix g = [] \<and> gr_ip g = [] \<and> gr_client_ip g = [] \<and> gr_query_type g = None"
    by (simp add: ev)
qed

lemma built_in_prepared:
  assumes "ve_rules env = None"
    and "prepare_upstreams menv (config_of env s [] rules) = (ups, resolved)"
  shows "ups = map config_upstream built_in_upstreams"
proof -
  have n: "node_domains [] = []" by (simp add: node_domains_def Deduplicate_def)
  have g: "gen_all env [] = user_state env" by (simp add: gen_all_user add_node_rule_def n)
  note b = built_in_state [where urlHost = "ve_urlHost env" and p = "socks_port env",
      folded assms(1), folded user_state_def]
  have "mc_Upstreams (config_of env s [] rules) = map config_upstream built_in_upstreams"
    and "mc_Bootstrap (config_of env s [] rules) = []"
    by (simp_all add: config_of_def Let_def g b Deduplicate_def)
  then have "ups = map default_port (map config_upstream built_in_upstreams)"
    using assms(2) by (simp add: prepare_upstreams_def)
  then show ?thesis
    by (simp add: built_in_upstreams_def config_upstream_def default_port_def SplitHostPort_def split_last_def)
qed

lemma built_in_decoded:
  assumes "ve_rules env = None" and "decoded_rules qtypes env [] = Some rules"
  obtains r rest where "rules = r # rest" and "rc_Domain r = [''geosite:private'']" and "rc_DomainSuffix r = []"
    and "rc_DomainRegex r = []" and "rc_IP r = []" and "rc_QueryType r = []" and "rc_ClientIP r = []"
    and "rc_Upstream r = ''upstream-0''"
proof -
  have n: "node_domains [] = []" by (simp add: node_domains_def Deduplicate_def)
  have g: "gen_all env [] = user_state env" by (simp add: gen_all_user add_node_rule_def n)
  note b = built_in_state [where urlHost = "ve_urlHost env" and p = "socks_port env",
      folded assms(1), folded user_state_def]
  from b(4) obtain g1 g2 where gs: "gn_rules (user_state env) = [g1, g2]" "gr_upstream g1 = ''upstream-0''"
    by (cases "gn_rules (user_state env)" rule: list.exhaust) (auto simp: map_eq_Cons_conv)
  with b(5,6) have g1: "gr_domain g1 = [''geosite:private'']" "gr_domain_suffix g1 = []" "gr_ip g1 = []"
    "gr_client_ip g1 = []" "gr_query_type g1 = None"
    by auto
  show thesis
    using assms(2) gs g1 that by (auto simp: decoded_rules_def g config_rule_def split: option.splits)
qed


section \<open>A start that succeeds\<close>

lemma plain_rules_compile:
  assumes "\<forall>rule\<in>set rules. ru_DomainRegex rule = [] \<and> ru_IP rule = [] \<and> ru_ClientIP rule = []"
  shows "\<exists>mss. compile_rules compile res i rules = Inr mss"
  using assms
proof (induction rules arbitrary: i)
  case (Cons rule rules)
  then obtain mss where "compile_rules compile res (Suc i) rules = Inr mss" by auto
  with Cons.prems show ?case by (auto simp: BuildMatchers_def Let_def)
qed simp

lemma start_loop_free:
  assumes "\<And>running net a. le_Listen le running net a = None"
  shows "\<exists>l'. start_loop le config addrs l = Some (None, l')"
  by (induction addrs arbitrary: l) (simp_all add: startPair_def assms Let_def)

lemma start_succeeds:
  assumes x: "extractDnsModuleConfig (ce_json cenv) (ce_read cenv) files = Inr (Some cfg)"
    and "ce_dispatcher cenv" and v: "DnsModuleConfig_Validate cfg = None"
    and "\<forall>rule\<in>set (mc_Rules cfg). rc_DomainRegex rule = [] \<and> rc_IP rule = [] \<and> rc_ClientIP rule = []"
    and free: "\<And>running net a. le_Listen (me_listen (ce_module cenv)) running net a = None"
  shows "\<exists>m. startDnsModuleWithXray cenv files held = Some (None, Some m)"
proof -
  let ?env = "ce_module cenv"
  let ?m0 = "Module_SetDispatcher True (NewDnsModule (me_now ?env) (Some cfg))"
  obtain ups resolved where u: "prepare_upstreams ?env cfg = (ups, resolved)"
    by (cases "prepare_upstreams ?env cfg")
  have m0: "mo_config ?m0 = cfg" "\<not> mo_healthy ?m0" "mo_dispatcher ?m0"
    by (simp_all add: Module_SetDispatcher_def NewDnsModule_def)
  obtain mss where c: "compile_rules (me_compile ?env) None 0 (map rule_of_config (mc_Rules cfg)) = Inr mss"
    using plain_rules_compile [of "map rule_of_config (mc_Rules cfg)"] assms(4)
    by (fastforce simp: rule_of_config_def)
  have "DnsListenerConfig_Validate (mc_Listener cfg) = None" using v by (simp add: DnsModuleConfig_Validate_None)
  then obtain l where l: "Listener_Start (me_listen ?env) (NewDnsListener (Some (mc_Listener cfg)) True) = Some (None, l)"
    using start_loop_free [OF free, where config = "mc_Listener cfg"
        and addrs = "lc_ListenAddr (mc_Listener cfg) # lc_ExtraListenAddrs (mc_Listener cfg)"
        and l = "(NewDnsListener (Some (mc_Listener cfg)) True)\<lparr>li_ctx := Some False\<rparr>"]
    by (auto simp: Listener_Start_def NewDnsListener_def)
  have "\<exists>m1. Module_Start ?env ?m0 = Some (None, m1)"
    using m0 l by (simp add: Module_Start_def v u NewRouter_def UpdateRules_def c Let_def)
  with assms(2) x show ?thesis by (auto simp: startDnsModuleWithXray_def)
qed

definition sample_svc :: svc_env where
  "sample_svc = \<lparr>ve_goos = ''linux'', ve_lite = False, ve_ipv6 = False, ve_canBind = (\<lambda>a. True),
     ve_couldListen = True, ve_resolv = None, ve_backup = None, ve_egress = [], ve_socks = None,
     ve_rules = None, ve_urlHost = (\<lambda>u. None)\<rparr>"

definition sample_core :: "svc_setting \<Rightarrow> string list \<Rightarrow> core_env" where
  "sample_core s hosts = \<lparr>ce_module = sample_env, ce_json = \<lparr>je_refloat = (\<lambda>l. None), je_qtypes = (\<lambda>n. None)\<rparr>,
     ce_read = (\<lambda>f. Object [(''dns_module'', generateDnsModuleConfig sample_svc s hosts)]),
     ce_geosite = (\<lambda>t. ([], [])), ce_dispatcher = True\<rparr>"

lemma sample_holds: "holds_config (ce_read (sample_core s hosts)) ''config.json'' (generateDnsModuleConfig sample_svc s hosts)"
  by (simp add: holds_config_def sample_core_def merge_members_def)

lemma sample_user_rules:
  "\<forall>g\<in>set (gn_rules (user_state sample_svc)). gr_ip g = [] \<and> gr_client_ip g = [] \<and> gr_query_type g = None"
  using built_in_state(6) [where urlHost = "ve_urlHost sample_svc" and p = "socks_port sample_svc"]
  by (auto simp: user_state_def sample_svc_def)

lemma sample_gen_rules:
  "\<forall>g\<in>set (gn_rules (gen_all sample_svc hosts)). gr_ip g = [] \<and> gr_client_ip g = [] \<and> gr_query_type g = None"
  using sample_user_rules by (auto simp: gen_all_user add_node_rule_def)

lemma those_all:
  "\<forall>x\<in>set xs. \<exists>y. f x = Some y \<and> P y \<Longrightarrow> \<exists>ys. those (map f xs) = Some ys \<and> (\<forall>y\<in>set ys. P y)"
  by (induction xs) auto

lemma sample_decoded:
  "\<exists>rules. decoded_rules qtypes sample_svc hosts = Some rules
     \<and> (\<forall>r\<in>set rules. rc_DomainRegex r = [] \<and> rc_IP r = [] \<and> rc_ClientIP r = [])"
proof -
  have "\<forall>g\<in>set (gn_rules (gen_all sample_svc hosts)). \<exists>r. config_rule qtypes g = Some r
      \<and> rc_DomainRegex r = [] \<and> rc_IP r = [] \<and> rc_ClientIP r = []"
    using sample_gen_rules [of hosts] by (auto simp: config_rule_def)
  then show ?thesis unfolding decoded_rules_def by (rule those_all)
qed

lemma sample_starts:
  assumes "exact_setting s" and "CHR '':'' \<in> set (dnsModuleListenAddr s)"
    and "or_positive (se_DnsCacheMinTTL s) 60 \<le> or_positive (se_DnsCacheMaxTTL s) 86400"
  shows "\<exists>m. startDnsModuleWithXray (sample_core s hosts) [''config.json''] None = Some (None, Some m)"
proof -
  obtain rules where r: "decoded_rules (je_qtypes (ce_json (sample_core s hosts))) sample_svc hosts = Some rules"
    "\<forall>r\<in>set rules. rc_DomainRegex r = [] \<and> rc_IP r = [] \<and> rc_ClientIP r = []"
    using sample_decoded by metis
  show ?thesis
  proof (rule start_succeeds)
    show "extractDnsModuleConfig (ce_json (sample_core s hosts)) (ce_read (sample_core s hosts)) [''config.json'']
      = Inr (Some (config_of sample_svc s hosts rules))"
      using extract_generated [OF assms(1) sample_holds] r(1) by simp
    show "DnsModuleConfig_Validate (config_of sample_svc s hosts rules) = None"
      using assms(2,3) by (simp add: generated_valid)
  qed (use r(2) in \<open>simp_all add: sample_core_def sample_env_def config_of_def Let_def\<close>)
qed


definition stock_setting :: svc_setting where
  "stock_setting = NewSetting False"

lemma stock_starts:
  "\<exists>m. startDnsModuleWithXray (sample_core stock_setting hosts) [''config.json''] None = Some (None, Some m)"
  by (rule sample_starts)
    (simp_all add: stock_setting_def NewSetting_def exact_setting_def dnsModuleListenAddr_def stock_addr_def or_positive_def)

lemma stock_exact: "exact_setting stock_setting"
  by (simp add: stock_setting_def NewSetting_def exact_setting_def)

definition node_query :: dns_query where
  "node_query = \<lparr>q_Name = ''a.node.example.'', q_QType = 1, q_QClass = 1, q_ClientIP = [], q_IsBootstrap = False\<rparr>"

lemma sample_node: "ParseIP ''node.example'' = []" "\<not> is_tag ''node.example''"
  "suffix_hit ''node.example'' (TrimSuffix (q_Name node_query) ''.'')"
  by (simp_all add: parse_simps is_tag_def suffix_hit_def TrimSuffix_def node_query_def suffix_def)


definition exclusive_listen :: listen_env where
  "exclusive_listen = \<lparr>le_Listen = (\<lambda>running net addr.
       if \<exists>srv\<in>set running. sv_Net srv = net \<and> overlaps (sv_Addr srv) addr then Some ''in use'' else None),
     le_Shutdown = (\<lambda>srv. None)\<rparr>"

definition port53_setting :: svc_setting where
  "port53_setting = (NewSetting False)\<lparr>se_DnsListenAddr := ''127.0.0.1:53''\<rparr>"

lemma port53_addr: "dnsModuleListenAddr port53_setting = ''127.0.0.1:53''" "DnsModulePort port53_setting = ''53''"
  "SplitHostPort ''127.0.0.1:53'' = Some (''127.0.0.1'', ''53'')" "exact_setting port53_setting"
  by (simp_all add: port53_setting_def NewSetting_def dnsModuleListenAddr_def stock_addr_def DnsModulePort_def
      split_last_def Atoi_def dec_nat_def digit_def SplitHostPort_def exact_setting_def)

theorem generated_config_read_witness:
  "\<exists>rules. extractDnsModuleConfig (ce_json (sample_core stock_setting [])) (ce_read (sample_core stock_setting []))
      [''config.json''] = Inr (Some (config_of sample_svc stock_setting [] rules))"
proof -
  obtain rules where "decoded_rules (je_qtypes (ce_json (sample_core stock_setting []))) sample_svc [] = Some rules"
    using sample_decoded by metis
  with generated_config_read [OF stock_exact sample_holds, of "ce_json (sample_core stock_setting [])" "[]"]
  show ?thesis by auto
qed

end
