(* ===== verification/Geosite.thy ===== *)
theory Geosite
  imports Dns_Rule Go_Text
begin

text \<open>
  The geosite resolver of the core program, \<open>core/main/geosite.go\<close>: it reads \<open>geosite.dat\<close>, a
  sequence of length-delimited messages, finds the entry of a tag and sorts its domains into exact
  names and suffixes. The protocol buffer package is the parameter \<open>unmarshal\<close>; a file is given by its
  bytes and whether reading on past them reports an error instead of the end of the file. The
  program's global cache of looked-up tags is explicit state.
\<close>

section \<open>Data\<close>

datatype domain_type = Domain_Substr | Domain_Regex | Domain_Domain | Domain_Full

record geo_domain =
  gd_Type :: domain_type
  gd_Value :: string

record geo_site =
  gs_Code :: string
  gs_Domain :: "geo_domain list"

type_synonym site_decoder = "byte list \<Rightarrow> geo_site option"
type_synonym geo_file = "byte list \<times> bool"
type_synonym geo_cache = "string \<rightharpoonup> geo_domain list"

section \<open>Variable-length integers\<close>

text \<open>
  \<open>binary.ReadUvarint\<close> with the index \<open>i\<close> of the byte and the value \<open>x\<close> so far. The shifted parts do
  not overlap and an accepted value is below \<open>2^64\<close>, so the sum is the bitwise or of the source.
\<close>

datatype uvarint_result = UvOk nat "byte list" | UvEOF | UvErr

fun ReadUvarint :: "bool \<Rightarrow> nat \<Rightarrow> nat \<Rightarrow> byte list \<Rightarrow> uvarint_result" where
  "ReadUvarint bad i x [] = (if i \<ge> 10 then UvErr else if i = 0 \<and> \<not> bad then UvEOF else UvErr)"
| "ReadUvarint bad i x (b # bs) =
     (if i \<ge> 10 then UvErr
      else if b < 0x80 then
        (if i = 9 \<and> b > 1 then UvErr else UvOk (x + unat b * 2 ^ (7 * i)) bs)
      else ReadUvarint bad (Suc i) (x + (unat b - 128) * 2 ^ (7 * i)) bs)"

lemma ReadUvarint_shorter: "ReadUvarint bad i x bs = UvOk n rest \<Longrightarrow> length rest < length bs"
  by (induction bad i x bs rule: ReadUvarint.induct) (fastforce split: if_splits)+

section \<open>Looking up a tag\<close>

datatype geo_error = OpenFailed | ReadFrameTag | ReadFrameLength | ReadFrameBody | TagNotFound

text \<open>An allocation beyond the address space panics.\<close>

datatype geo_result = GeoOk "geo_domain list" | GeoErr geo_error | GeoPanic

definition max_alloc :: nat where
  "max_alloc = 2 ^ 48"

function geo_loop :: "site_decoder \<Rightarrow> bool \<Rightarrow> string \<Rightarrow> byte list \<Rightarrow> geo_result" where
  "geo_loop unmarshal bad tag [] = (if bad then GeoErr ReadFrameTag else GeoErr TagNotFound)"
| "geo_loop unmarshal bad tag (tagByte # bs) =
     (if tagByte \<noteq> 0x0a then geo_loop unmarshal bad tag bs
      else case ReadUvarint bad 0 0 bs of
        UvEOF \<Rightarrow> GeoErr TagNotFound
      | UvErr \<Rightarrow> GeoErr ReadFrameLength
      | UvOk bodyLen rest \<Rightarrow>
          if bodyLen > max_alloc then GeoPanic
          else if length rest < bodyLen then GeoErr ReadFrameBody
          else
            (case unmarshal (take bodyLen rest) of
               None \<Rightarrow> geo_loop unmarshal bad tag (drop bodyLen rest)
             | Some site \<Rightarrow>
                 if gs_Code site \<noteq> tag \<and> gs_Code site \<noteq> ToUpper tag
                 then geo_loop unmarshal bad tag (drop bodyLen rest)
                 else GeoOk (gs_Domain site)))"
  by pat_completeness auto
termination
  by (relation "measure (\<lambda>(_, _, _, bs). length bs)")
    (auto dest: ReadUvarint_shorter)

definition cache_key_of :: "string \<Rightarrow> string \<Rightarrow> string" where
  "cache_key_of filePath tag = filePath @ '':'' @ tag"

definition loadGeositeTag ::
  "site_decoder \<Rightarrow> (string \<Rightarrow> geo_file option) \<Rightarrow> geo_cache \<Rightarrow> string \<Rightarrow> string \<Rightarrow> geo_result \<times> geo_cache" where
  "loadGeositeTag unmarshal openFile cache filePath tag =
     (let key = cache_key_of filePath tag; tagUpper = ToUpper tag in
      case cache key of
        Some cached \<Rightarrow> (GeoOk cached, cache)
      | None \<Rightarrow>
          (case (if tagUpper \<noteq> tag then cache (cache_key_of filePath tagUpper) else None) of
             Some cached \<Rightarrow> (GeoOk cached, cache)
           | None \<Rightarrow>
               (case openFile filePath of
                  None \<Rightarrow> (GeoErr OpenFailed, cache)
                | Some (bytes, bad) \<Rightarrow>
                    (case geo_loop unmarshal bad tag bytes of
                       GeoOk domains \<Rightarrow> (GeoOk domains, cache(key \<mapsto> domains))
                     | GeoErr e \<Rightarrow>
                         (GeoErr e, if e = TagNotFound then cache(key \<mapsto> []) else cache)
                     | GeoPanic \<Rightarrow> (GeoPanic, cache)))))"

section \<open>Expanding a tag\<close>

definition split_domain :: "geo_domain \<Rightarrow> string list \<times> string list \<Rightarrow> string list \<times> string list" where
  "split_domain d ds =
     (case ds of (domains, sufs) \<Rightarrow>
        (case gd_Type d of
           Domain_Domain \<Rightarrow> (domains, sufs @ [gd_Value d])
         | Domain_Full \<Rightarrow> (domains @ [gd_Value d], sufs)
         | Domain_Regex \<Rightarrow> (domains @ [gd_Value d], sufs)
         | Domain_Substr \<Rightarrow> (domains, sufs)))"

text \<open>
  The environment names the asset directory; \<open>ge_path\<close> is the path of \<open>geosite.dat\<close> in it. A panic of
  the loader is \<open>None\<close>.
\<close>

record geo_env =
  ge_getenv :: "string \<Rightarrow> string"
  ge_path :: "string \<Rightarrow> string"
  ge_open :: "string \<Rightarrow> geo_file option"
  ge_unmarshal :: site_decoder

definition geositeResolver ::
  "geo_env \<Rightarrow> geo_cache \<Rightarrow> string \<Rightarrow> (string list \<times> string list) option \<times> geo_cache" where
  "geositeResolver env cache tag =
     (let d1 = ge_getenv env ''XRAY_LOCATION_ASSET'';
          assetDir = (if d1 = [] then ge_getenv env ''V2RAY_LOCATION_ASSET'' else d1)
      in if assetDir = [] then (Some ([], []), cache)
         else
           (case loadGeositeTag (ge_unmarshal env) (ge_open env) cache (ge_path env assetDir) tag of
              (GeoPanic, c) \<Rightarrow> (None, c)
            | (GeoErr e, c) \<Rightarrow> (Some ([], []), c)
            | (GeoOk domains, c) \<Rightarrow> (Some (foldl (\<lambda>ds d. split_domain d ds) ([], []) domains), c)))"

end
