(* ===== verification/Geosite_Correct.thy ===== *)
theory Geosite_Correct
  imports Geosite
begin

text \<open>
  The framing of \<open>geosite.dat\<close> is read back, and the cache of the resolver changes no answer.
\<close>

section \<open>Frames\<close>

text \<open>The encoding of a length and of a file.\<close>

fun uvarint :: "nat \<Rightarrow> byte list" where
  "uvarint n = (if n < 128 then [word_of_nat n] else word_of_nat (n mod 128 + 128) # uvarint (n div 128))"

declare uvarint.simps [simp del]

definition frame :: "byte list \<Rightarrow> byte list" where
  "frame body = 0x0a # uvarint (length body) @ body"

lemma unat_small: "n < 256 \<Longrightarrow> unat (word_of_nat n :: byte) = n"
  by (simp add: unat_of_nat)

lemma low_byte: "n < 256 \<Longrightarrow> (word_of_nat n :: byte) < 0x80 \<longleftrightarrow> n < 128"
  by (simp add: word_less_nat_alt unat_small)

text \<open>A length below \<open>2^63\<close> takes at most nine bytes.\<close>

lemma ReadUvarint_uvarint:
  assumes "n < 2 ^ (7 * (9 - i))" and "i < 9"
  shows "ReadUvarint bad i x (uvarint n @ rest) = UvOk (x + n * 2 ^ (7 * i)) rest"
  using assms
proof (induction n arbitrary: i x rule: uvarint.induct)
  case (1 n)
  show ?case
  proof (cases "n < 128")
    case True
    with "1.prems" show ?thesis
      by (simp add: uvarint.simps [of n] low_byte unat_small)
  next
    case False
    define k where "k = n mod 128 + 128"
    have m: "k < 256" "\<not> k < 128" "k - 128 = n mod 128" by (simp_all add: k_def)
    have u: "uvarint n = word_of_nat k # uvarint (n div 128)"
      using False by (subst uvarint.simps) (simp add: k_def)
    have i: "Suc i < 9"
    proof (rule ccontr)
      assume "\<not> Suc i < 9"
      with "1.prems"(2) have "i = 8" by simp
      with "1.prems"(1) False show False by simp
    qed
    have "9 - i = Suc (9 - Suc i)" using i by simp
    then have "7 * (9 - i) = 7 + 7 * (9 - Suc i)" by simp
    then have "n < 128 * 2 ^ (7 * (9 - Suc i))" using "1.prems"(1) by (simp add: power_add)
    then have d: "n div 128 < 2 ^ (7 * (9 - Suc i))" by (simp add: less_mult_imp_div_less mult.commute)
    have "ReadUvarint bad i x (uvarint n @ rest)
      = ReadUvarint bad (Suc i) (x + (n mod 128) * 2 ^ (7 * i)) (uvarint (n div 128) @ rest)"
      using i by (simp add: u low_byte [OF m(1)] unat_small [OF m(1)] m(2,3))
    also have "\<dots> = UvOk (x + (n mod 128) * 2 ^ (7 * i) + n div 128 * 2 ^ (7 * Suc i)) rest"
      using "1.IH" [OF False d i] .
    also have "x + (n mod 128) * 2 ^ (7 * i) + n div 128 * 2 ^ (7 * Suc i) = x + n * 2 ^ (7 * i)"
    proof -
      have "n * 2 ^ (7 * i) = (n mod 128 + n div 128 * 128) * (2::nat) ^ (7 * i)"
        using mod_div_mult_eq [of n 128] by simp
      then show ?thesis by (simp only: add_mult_distrib power_add mult_Suc_right) simp
    qed
    finally show ?thesis .
  qed
qed

text \<open>The entry of a tag in a list of sites.\<close>

definition is_entry :: "site_decoder \<Rightarrow> string \<Rightarrow> byte list \<Rightarrow> bool" where
  "is_entry unmarshal tag body \<longleftrightarrow>
     (case unmarshal body of
        None \<Rightarrow> False | Some site \<Rightarrow> gs_Code site = tag \<or> gs_Code site = ToUpper tag)"

definition entry_of_tag :: "site_decoder \<Rightarrow> string \<Rightarrow> byte list list \<Rightarrow> geo_result" where
  "entry_of_tag unmarshal tag bodies =
     (case find (is_entry unmarshal tag) bodies of
        None \<Rightarrow> GeoErr TagNotFound
      | Some body \<Rightarrow> GeoOk (gs_Domain (the (unmarshal body))))"

lemma geo_loop_frames:
  assumes "\<forall>body\<in>set bodies. length body \<le> max_alloc"
  shows "geo_loop unmarshal False tag (concat (map frame bodies)) = entry_of_tag unmarshal tag bodies"
  using assms
proof (induction bodies)
  case Nil
  show ?case by (simp add: entry_of_tag_def)
next
  case (Cons body bodies)
  have len: "length body \<le> max_alloc" using Cons.prems by simp
  then have "length body < 2 ^ (7 * (9 - 0))" by (simp add: max_alloc_def)
  from ReadUvarint_uvarint [OF this, of False 0 "body @ concat (map frame bodies)"]
  have r: "ReadUvarint False 0 0 (uvarint (length body) @ body @ concat (map frame bodies))
    = UvOk (length body) (body @ concat (map frame bodies))" by simp
  have IH: "geo_loop unmarshal False tag (concat (map frame bodies)) = entry_of_tag unmarshal tag bodies"
    using Cons by simp
  have f: "concat (map frame (body # bodies))
    = 0x0a # uvarint (length body) @ body @ concat (map frame bodies)" by (simp add: frame_def)
  show ?case
    unfolding f using len IH
    by (auto simp: r entry_of_tag_def is_entry_def split: option.splits)
qed

text \<open>
  (C29) A file of length-delimited entries is read back: looking up a tag gives the domains of the first
  entry with its code, in the case given or in upper case, entries that cannot be decoded being skipped,
  and reports a missing tag otherwise.
\<close>

theorem geosite_file_read:
  assumes "\<forall>body\<in>set bodies. length body \<le> max_alloc"
    and "openFile path = Some (concat (map frame bodies), False)"
  shows "fst (loadGeositeTag unmarshal openFile Map.empty path tag) = entry_of_tag unmarshal tag bodies"
  using geo_loop_frames [OF assms(1), of unmarshal tag] assms(2)
  by (cases "entry_of_tag unmarshal tag bodies") (simp_all add: loadGeositeTag_def Let_def)


section \<open>The cache\<close>

definition upper_codes :: "site_decoder \<Rightarrow> bool" where
  "upper_codes unmarshal \<longleftrightarrow>
     (\<forall>body site. unmarshal body = Some site \<longrightarrow> ToUpper (gs_Code site) = gs_Code site)"

lemma geo_loop_upper:
  assumes "upper_codes unmarshal"
  shows "geo_loop unmarshal bad (ToUpper tag) bytes = geo_loop unmarshal bad tag bytes"
proof (induction unmarshal\<equiv>unmarshal bad\<equiv>bad tag\<equiv>tag bytes rule: geo_loop.induct)
  case (2 tagByte bs)
  have c: "gs_Code site \<noteq> tag \<and> gs_Code site \<noteq> ToUpper tag \<longleftrightarrow> gs_Code site \<noteq> ToUpper tag"
    if "unmarshal body = Some site" for body site
    using assms that by (metis upper_codes_def)
  show ?case
    using 2 c by (auto split: uvarint_result.split option.split)
qed simp

definition asset_dir :: "geo_env \<Rightarrow> string" where
  "asset_dir env = (if ge_getenv env ''XRAY_LOCATION_ASSET'' = []
     then ge_getenv env ''V2RAY_LOCATION_ASSET'' else ge_getenv env ''XRAY_LOCATION_ASSET'')"

definition geo_path :: "geo_env \<Rightarrow> string" where
  "geo_path env = ge_path env (asset_dir env)"

text \<open>What a scan of the file gives; without a file there is nothing to cache.\<close>

definition scan_file :: "geo_env \<Rightarrow> string \<Rightarrow> geo_result" where
  "scan_file env tag =
     (case ge_open env (geo_path env) of
        None \<Rightarrow> GeoErr OpenFailed
      | Some (bytes, bad) \<Rightarrow> geo_loop (ge_unmarshal env) bad tag bytes)"

fun result_domains :: "geo_result \<Rightarrow> geo_domain list option" where
  "result_domains (GeoOk ds) = Some ds"
| "result_domains (GeoErr e) = Some []"
| "result_domains GeoPanic = None"

definition cache_true :: "geo_env \<Rightarrow> geo_cache \<Rightarrow> bool" where
  "cache_true env c \<longleftrightarrow>
     (\<forall>tag ds. c (cache_key_of (geo_path env) tag) = Some ds \<longrightarrow> result_domains (scan_file env tag) = Some ds)"

lemma cache_key_inj [simp]: "cache_key_of p t = cache_key_of p t' \<longleftrightarrow> t = t'"
  by (simp add: cache_key_of_def)

lemma load_spec:
  assumes "upper_codes (ge_unmarshal env)" and "cache_true env c"
    and "loadGeositeTag (ge_unmarshal env) (ge_open env) c (geo_path env) tag = (res, c')"
  shows "result_domains res = result_domains (scan_file env tag)" and "cache_true env c'"
proof -
  have up: "scan_file env (ToUpper tag) = scan_file env tag"
    using geo_loop_upper [OF assms(1)] by (simp add: scan_file_def split: option.split)
  have hit: "c (cache_key_of (geo_path env) t) = Some ds \<Longrightarrow> result_domains (scan_file env t) = Some ds" for t ds
    using assms(2) by (simp add: cache_true_def)
  show "result_domains res = result_domains (scan_file env tag)"
    using assms(3) hit [of tag] hit [of "ToUpper tag"] up
    by (auto simp: loadGeositeTag_def Let_def scan_file_def split: option.splits if_splits geo_result.splits)
  show "cache_true env c'"
    using assms(2,3)
    by (auto simp: loadGeositeTag_def Let_def scan_file_def cache_true_def
        split: option.splits if_splits geo_result.splits) (metis result_domains.simps(1,2))+
qed

definition resolver_step :: "geo_env \<Rightarrow> geo_cache \<Rightarrow> string \<Rightarrow> geo_cache" where
  "resolver_step env c tag = snd (geositeResolver env c tag)"

lemma resolver_spec:
  assumes "upper_codes (ge_unmarshal env)" and "cache_true env c"
  shows "fst (geositeResolver env c tag)
    = (if asset_dir env = [] then Some ([], [])
       else map_option (foldl (\<lambda>ds d. split_domain d ds) ([], [])) (result_domains (scan_file env tag)))"
    and "cache_true env (resolver_step env c tag)"
proof -
  obtain res c' where l: "loadGeositeTag (ge_unmarshal env) (ge_open env) c (geo_path env) tag = (res, c')"
    by (cases "loadGeositeTag (ge_unmarshal env) (ge_open env) c (geo_path env) tag")
  note sp = load_spec [OF assms l]
  have g: "geositeResolver env c tag
    = (if asset_dir env = [] then (Some ([], []), c)
       else case res of GeoPanic \<Rightarrow> (None, c') | GeoErr e \<Rightarrow> (Some ([], []), c')
         | GeoOk ds \<Rightarrow> (Some (foldl (\<lambda>ds d. split_domain d ds) ([], []) ds), c'))"
    using l by (simp add: geositeResolver_def asset_dir_def geo_path_def Let_def split: geo_result.split)
  show "fst (geositeResolver env c tag)
    = (if asset_dir env = [] then Some ([], [])
       else map_option (foldl (\<lambda>ds d. split_domain d ds) ([], [])) (result_domains (scan_file env tag)))"
    using sp(1) [symmetric] unfolding g by (cases res) auto
  show "cache_true env (resolver_step env c tag)"
    using sp(2) assms(2) unfolding resolver_step_def g by (cases res) auto
qed

interpretation geo_cache: machine "resolver_step env"
  "\<lambda>c. upper_codes (ge_unmarshal env) \<longrightarrow> cache_true env c" for env
  by unfold_locales (simp add: resolver_spec(2))

text \<open>
  The cache of looked-up tags is invisible: after any lookups a tag expands as it does with an empty
  cache, for files whose codes are in upper case.
\<close>

theorem geosite_cache_transparent:
  assumes "upper_codes (ge_unmarshal env)"
  shows "fst (geositeResolver env (foldl (resolver_step env) Map.empty tags) tag)
    = fst (geositeResolver env Map.empty tag)"
proof -
  have e: "cache_true env Map.empty" by (simp add: cache_true_def)
  have "cache_true env (foldl (resolver_step env) Map.empty tags)"
    using geo_cache.run_inv [of env Map.empty tags] e assms by simp
  with resolver_spec(1) [OF assms] e show ?thesis by simp
qed

section \<open>A concrete file\<close>

definition sample_site :: geo_site where
  "sample_site = \<lparr>gs_Code = ''CN'', gs_Domain = [\<lparr>gd_Type = Domain_Domain, gd_Value = ''example.cn''\<rparr>]\<rparr>"

definition sample_decoder :: site_decoder where
  "sample_decoder body = (if body = [1, 2] then Some sample_site else None)"

definition sample_geo :: geo_env where
  "sample_geo = \<lparr>ge_getenv = (\<lambda>n. ''/assets''), ge_path = (\<lambda>d. d @ ''/geosite.dat''),
     ge_open = (\<lambda>p. Some (concat (map frame [[7], [1, 2]]), False)), ge_unmarshal = sample_decoder\<rparr>"

lemma cn_upper: "ToUpper ''cn'' = ''CN''" "ToUpper ''CN'' = ''CN''"
proof -
  have "char_of (67::nat) = CHR ''C''" "char_of (78::nat) = CHR ''N''"
    using char_of_char [where 'a = nat, of "CHR ''C''"] char_of_char [where 'a = nat, of "CHR ''N''"]
    by (simp_all del: char_of_char)
  then show "ToUpper ''cn'' = ''CN''" "ToUpper ''CN'' = ''CN''"
    by (simp_all add: ToUpper_def to_upper_char_def)
qed

lemma sample_entry: "entry_of_tag sample_decoder ''cn'' [[7], [1, 2]] = GeoOk (gs_Domain sample_site)"
  by (simp add: entry_of_tag_def is_entry_def sample_decoder_def sample_site_def cn_upper)

theorem geosite_file_read_witness:
  "fst (loadGeositeTag sample_decoder (\<lambda>p. Some (concat (map frame [[7], [1, 2]]), False)) Map.empty [] ''cn'')
   = GeoOk (gs_Domain sample_site)"
  using geosite_file_read [of "[[7], [1, 2]]" "\<lambda>p. Some (concat (map frame [[7], [1, 2]]), False)" "[]" sample_decoder "''cn''"]
  by (simp only: sample_entry) (simp add: max_alloc_def)

theorem geosite_cache_transparent_witness:
  "fst (geositeResolver sample_geo (foldl (resolver_step sample_geo) Map.empty [''CN'', ''xx'']) ''cn'')
   = fst (geositeResolver sample_geo Map.empty ''cn'')"
  by (rule geosite_cache_transparent)
    (simp add: upper_codes_def sample_geo_def sample_decoder_def sample_site_def cn_upper)

end
