(* ===== verification/Resolv_Hijack.thy ===== *)
theory Resolv_Hijack
  imports Svc_Dns
begin

text \<open>
  The hijack of the system resolver, \<open>service/kernel/v2ray/dnsHijack.go\<close>: saving
  \<open>/etc/resolv.conf\<close>, replacing it, putting it back, and the timer that repeats the hijack. Each
  operation is the list of system calls it makes, so that a run may be cut anywhere by a crash. System
  calls succeed; the locks of the source make reset, tick and removal exclude each other.
\<close>

section \<open>The file system\<close>

text \<open>\<open>/etc/resolv.conf\<close>: missing, a symbolic link, or a regular file with its content.\<close>

datatype resolv_node = Missing | Link string | File string

text \<open>\<open>rs_targets\<close> are the files behind links; \<open>rs_hijacker\<close> is whether a hijacker runs.\<close>

record resolv_state =
  rs_resolv :: resolv_node
  rs_backup :: "string option"
  rs_targets :: "string \<rightharpoonup> string"
  rs_hijacker :: bool

text \<open>
  The system calls that change it. Writing a backup goes through a temporary file and a rename, so
  it happens at once or not at all; writing through a link changes the file behind it.
\<close>

datatype fs_op =
    WriteBackup string
  | RemoveResolv
  | WriteResolv string
  | SymlinkResolv string
  | RemoveBackup

fun apply_op :: "resolv_state \<Rightarrow> fs_op \<Rightarrow> resolv_state" where
  "apply_op st (WriteBackup b) = st\<lparr>rs_backup := Some b\<rparr>"
| "apply_op st RemoveResolv = st\<lparr>rs_resolv := Missing\<rparr>"
| "apply_op st (WriteResolv b) =
     (case rs_resolv st of
        Link t \<Rightarrow> st\<lparr>rs_targets := (rs_targets st)(t \<mapsto> b)\<rparr>
      | _ \<Rightarrow> st\<lparr>rs_resolv := File b\<rparr>)"
| "apply_op st (SymlinkResolv t) = st\<lparr>rs_resolv := Link t\<rparr>"
| "apply_op st RemoveBackup = st\<lparr>rs_backup := None\<rparr>"

section \<open>Hijack and restore\<close>

definition symlinkMarker :: string where
  "symlinkMarker = ''# v2rayA saved symlink: ''"

definition missingMarker :: string where
  "missingMarker = ''# v2rayA: no resolv.conf''"

definition emptyMarker :: string where
  "emptyMarker = ''# v2rayA: empty resolv.conf''"

definition newline :: string where
  "newline = [CHR 0x0A]"

definition fallbackResolver :: "string list \<Rightarrow> string" where
  "fallbackResolver servers =
     (case find (\<lambda>s. case SplitHostPort s of Some (_, port) \<Rightarrow> port = ''53'' | None \<Rightarrow> False) servers of
        Some s \<Rightarrow> fst (the (SplitHostPort s)) | None \<Rightarrow> ''119.29.29.29'')"

definition writeResolvBackup :: "string \<Rightarrow> fs_op list" where
  "writeResolvBackup content = [WriteBackup content]"

definition backupResolv :: "resolv_state \<Rightarrow> fs_op list" where
  "backupResolv st =
     (if rs_backup st \<noteq> None then []
      else case rs_resolv st of
        Missing \<Rightarrow> writeResolvBackup (missingMarker @ newline)
      | Link target \<Rightarrow> writeResolvBackup (symlinkMarker @ target @ newline)
      | File b \<Rightarrow>
          if prefix HijackFlag b then []
          else if b = [] then writeResolvBackup (emptyMarker @ newline)
          else writeResolvBackup b)"

definition hijacked_content :: "string \<Rightarrow> string" where
  "hijacked_content fallback =
     HijackFlag @ newline @ ''nameserver 127.2.0.17'' @ newline @ ''nameserver '' @ fallback @ newline"

definition HijackResolv :: "string \<Rightarrow> resolv_state \<Rightarrow> fs_op list" where
  "HijackResolv fallback st =
     backupResolv st @ (case rs_resolv st of Link _ \<Rightarrow> [RemoveResolv] | _ \<Rightarrow> [])
     @ [WriteResolv (hijacked_content fallback)]"

text \<open>Whether the original is back, and what was done.\<close>

definition restoreResolv :: "resolv_state \<Rightarrow> bool \<times> fs_op list" where
  "restoreResolv st =
     (case rs_backup st of
        None \<Rightarrow> (False, [])
      | Some content \<Rightarrow>
          if content = [] then (False, [])
          else if prefix symlinkMarker content then
            (let target = TrimSpace (TrimPrefix content symlinkMarker) in
             if target = [] then (False, [])
             else (True, [RemoveResolv, SymlinkResolv target, RemoveBackup]))
          else if prefix emptyMarker (TrimSpace content) then (True, [WriteResolv [], RemoveBackup])
          else if prefix missingMarker (TrimSpace content) then (True, [RemoveResolv, RemoveBackup])
          else (True, [WriteResolv content, RemoveBackup]))"

definition restore_or_fallback :: "string \<Rightarrow> resolv_state \<Rightarrow> fs_op list" where
  "restore_or_fallback fallback st =
     (case restoreResolv st of
        (True, ops) \<Rightarrow> ops
      | (False, ops) \<Rightarrow> ops @ [WriteResolv (HijackFlag @ newline @ ''nameserver '' @ fallback @ newline)])"

section \<open>Runs with crashes\<close>

text \<open>
  What can happen: the hijacker is set up anew, its timer ticks, it is removed, or the process dies
  after some system calls of one of these, possibly within a write, which is then cut after some
  bytes. The fallback server may differ from event to event.
\<close>

datatype hijack_event =
    Ev_Reset string
  | Ev_Tick string
  | Ev_Remove string
  | Ev_Crash hijack_event nat "nat option"

fun event_ops :: "hijack_event \<Rightarrow> resolv_state \<Rightarrow> fs_op list" where
  "event_ops (Ev_Reset fb) st = HijackResolv fb st"
| "event_ops (Ev_Tick fb) st = (if rs_hijacker st then HijackResolv fb st else [])"
| "event_ops (Ev_Remove fb) st = (if rs_hijacker st then restore_or_fallback fb st else [])"
| "event_ops (Ev_Crash ev k j) st =
     (let ops = event_ops ev st in
      take k ops @ (case (drop k ops, j) of
           (WriteResolv b # _, Some n) \<Rightarrow> [WriteResolv (take n b)] | _ \<Rightarrow> []))"

fun event_hijacker :: "hijack_event \<Rightarrow> bool \<Rightarrow> bool" where
  "event_hijacker (Ev_Reset fb) h = True"
| "event_hijacker (Ev_Tick fb) h = h"
| "event_hijacker (Ev_Remove fb) h = False"
| "event_hijacker (Ev_Crash ev k j) h = False"

definition hijack_step :: "resolv_state \<Rightarrow> hijack_event \<Rightarrow> resolv_state" where
  "hijack_step st ev =
     (foldl apply_op st (event_ops ev st))\<lparr>rs_hijacker := event_hijacker ev (rs_hijacker st)\<rparr>"

end
