(* ===== verification/Resolv_Hijack_Correct.thy ===== *)
theory Resolv_Hijack_Correct
  imports Resolv_Hijack
begin

text \<open>
  The hijack never loses the original configuration, whatever crashes, and a completed removal puts
  it back.
\<close>

section \<open>The original is never lost\<close>

fun saved :: "resolv_node \<Rightarrow> string" where
  "saved Missing = missingMarker @ newline"
| "saved (Link t) = symlinkMarker @ t @ newline"
| "saved (File b) = (if b = [] then emptyMarker @ newline else b)"

text \<open>
  An original that the backup can tell apart: a link to a path without white space at its ends, and
  a file that does not begin like a file or a backup of the hijacker.
\<close>

fun restorable :: "resolv_node \<Rightarrow> bool" where
  "restorable Missing \<longleftrightarrow> True"
| "restorable (Link t) \<longleftrightarrow> t \<noteq> [] \<and> TrimSpace t = t"
| "restorable (File b) \<longleftrightarrow> \<not> prefix HijackFlag b \<and> \<not> prefix symlinkMarker b
     \<and> \<not> prefix emptyMarker (TrimSpace b) \<and> \<not> prefix missingMarker (TrimSpace b)"

text \<open>A newline at the end is trimmed.\<close>

lemma TrimSpace_newline:
  assumes "TrimSpace s = s" and "s \<noteq> []"
  shows "TrimSpace (s @ newline) = s"
proof -
  have no: "\<not> prefix w (s @ newline)" if "w \<in> set space_runes" for w
  proof
    assume "prefix w (s @ newline)"
    then have "w = s @ newline \<or> prefix w s" by (simp add: newline_def prefix_snoc)
    moreover have "w \<noteq> s @ newline"
    proof
      assume w: "w = s @ newline"
      then have "last w = CHR 0x0A" "1 < length w" using assms(2) by (cases s; simp add: newline_def)+
      with that show False by (auto simp: space_runes_def)
    qed
    moreover have "\<not> prefix w s"
      using TrimSpace_id(1) [OF assms(1)] trim_runes_done [of w space_runes s] space_runes_nonempty that by metis
    ultimately show False by blast
  qed
  have 1: "trim_runes space_runes (s @ newline) = s @ newline"
    by (rule trim_runes_no_rune) (use no in blast)
  have f: "find (\<lambda>w. w \<noteq> [] \<and> prefix w (CHR 0x0A # rev s)) (map rev space_runes) = Some [CHR 0x0A]"
    by (simp add: space_runes_def)
  have "trim_runes (map rev space_runes) (CHR 0x0A # rev s) = trim_runes (map rev space_runes) (rev s)"
    by (subst trim_runes.simps) (simp add: f)
  with TrimSpace_id(2) [OF assms(1)] 1 show ?thesis by (simp add: TrimSpace_def newline_def)
qed

lemma marker_trim:
  "TrimSpace (missingMarker @ newline) = missingMarker" "TrimSpace (emptyMarker @ newline) = emptyMarker"
  by (rule TrimSpace_newline, rule TrimSpace_ends; simp add: missingMarker_def emptyMarker_def printable_def)+

lemma restore_saved:
  assumes "restorable orig" and "rs_backup st = Some (saved orig)"
  shows "restoreResolv st = (True, (case orig of Missing \<Rightarrow> [RemoveResolv, RemoveBackup]
    | Link t \<Rightarrow> [RemoveResolv, SymlinkResolv t, RemoveBackup] | File b \<Rightarrow> [WriteResolv b, RemoveBackup]))"
proof (cases orig)
  case Missing
  have "\<not> prefix symlinkMarker (missingMarker @ newline)" "\<not> prefix emptyMarker missingMarker"
    by (simp_all add: symlinkMarker_def missingMarker_def emptyMarker_def)
  with Missing assms(2) show ?thesis
    by (simp add: restoreResolv_def marker_trim) (simp add: newline_def)
next
  case (Link t)
  then have "TrimSpace (t @ newline) = t" "t \<noteq> []" using assms(1) TrimSpace_newline by auto
  with Link assms(2) show ?thesis
    by (simp add: restoreResolv_def TrimPrefix_def symlinkMarker_def)
next
  case (File b)
  show ?thesis
  proof (cases "b = []")
    case True
    have "\<not> prefix symlinkMarker (emptyMarker @ newline)" by (simp add: symlinkMarker_def emptyMarker_def)
    with True File assms(2) show ?thesis
      by (simp add: restoreResolv_def marker_trim) (simp add: newline_def)
  next
    case False
    with File assms show ?thesis by (simp add: restoreResolv_def)
  qed
qed

fun is_link :: "resolv_node \<Rightarrow> bool" where
  "is_link (Link t) \<longleftrightarrow> True"
| "is_link _ \<longleftrightarrow> False"

text \<open>Either nothing was done, or the backup holds the original; no file behind a link is touched.\<close>

definition safe :: "resolv_node \<Rightarrow> (string \<rightharpoonup> string) \<Rightarrow> resolv_state \<Rightarrow> bool" where
  "safe orig files st \<longleftrightarrow> rs_targets st = files
     \<and> (rs_backup st = Some (saved orig) \<or> rs_backup st = None \<and> rs_resolv st = orig)
     \<and> (is_link (rs_resolv st) \<longrightarrow> rs_resolv st = orig)"

definition hijack_inv :: "resolv_node \<Rightarrow> (string \<rightharpoonup> string) \<Rightarrow> resolv_state \<Rightarrow> bool" where
  "hijack_inv orig files st \<longleftrightarrow>
     safe orig files st \<and> (rs_hijacker st \<longrightarrow> rs_backup st = Some (saved orig) \<and> \<not> is_link (rs_resolv st))"

definition cut_ops :: "nat \<Rightarrow> nat option \<Rightarrow> fs_op list \<Rightarrow> fs_op list" where
  "cut_ops k j ops = take k ops @ (case (drop k ops, j) of
     (WriteResolv b # _, Some n) \<Rightarrow> [WriteResolv (take n b)] | _ \<Rightarrow> [])"

text \<open>Cutting a list of calls once more leaves a cut of the list.\<close>

lemma event_ops_crash: "event_ops (Ev_Crash ev k j) st = cut_ops k j (event_ops ev st)"
  by (simp add: cut_ops_def Let_def)

text \<open>Safe after every system call, and after every cut write.\<close>

fun safe_run :: "(resolv_state \<Rightarrow> bool) \<Rightarrow> resolv_state \<Rightarrow> fs_op list \<Rightarrow> bool" where
  "safe_run P st [] \<longleftrightarrow> P st"
| "safe_run P st (op # ops) \<longleftrightarrow> P st
     \<and> (\<forall>b n. op = WriteResolv b \<longrightarrow> P (apply_op st (WriteResolv (take n b))))
     \<and> safe_run P (apply_op st op) ops"

lemma safe_run_now: "safe_run P st ops \<Longrightarrow> P st"
  by (cases ops) auto

lemma safe_run_end: "safe_run P st ops \<Longrightarrow> P (foldl apply_op st ops)"
  by (induction ops arbitrary: st) auto

lemma cut_ops_0: "cut_ops 0 j (op # ops)
  = (case (op, j) of (WriteResolv b, Some n) \<Rightarrow> [WriteResolv (take n b)] | _ \<Rightarrow> [])"
  by (simp add: cut_ops_def split: fs_op.split option.split)

lemma cut_ops_Suc: "cut_ops (Suc k) j (op # ops) = op # cut_ops k j ops"
  by (simp add: cut_ops_def)

lemma cut_ops_Nil: "cut_ops k j [] = []"
  by (simp add: cut_ops_def)

lemma safe_run_cut: "safe_run P st ops \<Longrightarrow> safe_run P st (cut_ops k j ops)"
proof (induction ops arbitrary: st k)
  case Nil
  then show ?case by (simp add: cut_ops_Nil)
next
  case (Cons op ops)
  show ?case
  proof (cases k)
    case 0
    show ?thesis
    proof (cases "\<exists>b n. op = WriteResolv b \<and> j = Some n")
      case True
      then obtain b n where "op = WriteResolv b" "j = Some n" by blast
      with Cons.prems 0 show ?thesis by (simp add: cut_ops_0 take_take del: apply_op.simps)
    next
      case False
      with Cons.prems 0 show ?thesis
        by (auto simp: cut_ops_0 safe_run_now split: fs_op.split option.split)
    qed
  next
    case (Suc k')
    with Cons show ?thesis by (simp add: cut_ops_Suc)
  qed
qed

text \<open>Once the backup holds the original, the file itself may be replaced.\<close>

definition backed_up :: "resolv_node \<Rightarrow> (string \<rightharpoonup> string) \<Rightarrow> resolv_state \<Rightarrow> bool" where
  "backed_up orig files st \<longleftrightarrow> rs_targets st = files \<and> rs_backup st = Some (saved orig)
     \<and> (is_link (rs_resolv st) \<longrightarrow> rs_resolv st = orig)"

lemma backed_up_safe: "backed_up orig files st \<Longrightarrow> safe orig files st"
  by (simp add: backed_up_def safe_def)

lemma backed_up_remove: "backed_up orig files st \<Longrightarrow> backed_up orig files (apply_op st RemoveResolv)"
  by (simp add: backed_up_def)

lemma backed_up_write:
  assumes "backed_up orig files st" and "\<not> is_link (rs_resolv st)"
  shows "backed_up orig files (apply_op st (WriteResolv b))" and "rs_resolv (apply_op st (WriteResolv b)) = File b"
  using assms by (auto simp: backed_up_def split: resolv_node.split)

definition replace_ops :: "resolv_state \<Rightarrow> string \<Rightarrow> fs_op list" where
  "replace_ops st c = (case rs_resolv st of Link _ \<Rightarrow> [RemoveResolv] | _ \<Rightarrow> []) @ [WriteResolv c]"

lemma replace_run:
  assumes "backed_up orig files st"
  shows "safe_run (safe orig files) st (replace_ops st c)"
    and "backed_up orig files (foldl apply_op st (replace_ops st c))"
    and "rs_resolv (foldl apply_op st (replace_ops st c)) = File c"
proof -
  define st1 where "st1 = foldl apply_op st (case rs_resolv st of Link _ \<Rightarrow> [RemoveResolv] | _ \<Rightarrow> [])"
  have h: "backed_up orig files st1" and n: "\<not> is_link (rs_resolv st1)"
    using assms backed_up_remove [OF assms] by (simp_all add: st1_def split: resolv_node.split)
  note w = backed_up_write [OF h n]
  show "backed_up orig files (foldl apply_op st (replace_ops st c))"
    "rs_resolv (foldl apply_op st (replace_ops st c)) = File c"
    using w by (simp_all add: replace_ops_def st1_def del: apply_op.simps)
  have "safe_run (safe orig files) st1 [WriteResolv c]"
    using h w backed_up_safe by (simp del: apply_op.simps)
  then show "safe_run (safe orig files) st (replace_ops st c)"
    using backed_up_safe [OF assms] by (auto simp: replace_ops_def st1_def simp del: apply_op.simps split: resolv_node.splits)
qed

lemma backup_ops_cases:
  assumes "restorable orig" and "safe orig files st"
  shows "backupResolv st = [] \<and> backed_up orig files st
    \<or> backupResolv st = [WriteBackup (saved orig)] \<and> backed_up orig files (st\<lparr>rs_backup := Some (saved orig)\<rparr>)"
proof (cases "rs_backup st")
  case None
  then have o: "rs_resolv st = orig" using assms(2) by (simp add: safe_def)
  have "backupResolv st = [WriteBackup (saved orig)]"
    using assms(1) by (cases orig) (simp_all add: backupResolv_def None o writeResolvBackup_def)
  moreover have "backed_up orig files (st\<lparr>rs_backup := Some (saved orig)\<rparr>)"
    using assms(2) by (simp add: backed_up_def safe_def)
  ultimately show ?thesis by simp
next
  case (Some b)
  then have "backupResolv st = []" by (simp add: backupResolv_def)
  moreover have "backed_up orig files st" using Some assms(2) by (simp add: backed_up_def safe_def)
  ultimately show ?thesis by simp
qed

lemma HijackResolv_cases:
  assumes "restorable orig" and "safe orig files st"
  obtains "HijackResolv fb st = replace_ops st (hijacked_content fb)" and "backed_up orig files st"
  | st' where "HijackResolv fb st = WriteBackup (saved orig) # replace_ops st' (hijacked_content fb)"
      and "st' = apply_op st (WriteBackup (saved orig))" and "backed_up orig files st'"
  using backup_ops_cases [OF assms] by (auto simp: HijackResolv_def replace_ops_def)

lemma hijack_safe_run:
  assumes "restorable orig" and "safe orig files st"
  shows "safe_run (safe orig files) st (HijackResolv fb st)"
  by (cases rule: HijackResolv_cases [OF assms, of fb])
    (simp_all add: replace_run(1) assms(2) del: apply_op.simps)

lemma hijack_leaves:
  assumes "restorable orig" and "safe orig files st"
  shows "rs_backup (foldl apply_op st (HijackResolv fb st)) = Some (saved orig)"
    and "rs_resolv (foldl apply_op st (HijackResolv fb st)) = File (hijacked_content fb)"
proof -
  have "backed_up orig files (foldl apply_op st (HijackResolv fb st))
    \<and> rs_resolv (foldl apply_op st (HijackResolv fb st)) = File (hijacked_content fb)"
    by (cases rule: HijackResolv_cases [OF assms, of fb]) (simp_all add: replace_run del: apply_op.simps)
  then show "rs_backup (foldl apply_op st (HijackResolv fb st)) = Some (saved orig)"
    and "rs_resolv (foldl apply_op st (HijackResolv fb st)) = File (hijacked_content fb)"
    by (simp_all add: backed_up_def)
qed

lemma restore_safe_run:
  assumes "restorable orig" and "hijack_inv orig files st" and "rs_hijacker st"
  shows "safe_run (safe orig files) st (restore_or_fallback fb st)"
proof -
  have b: "rs_backup st = Some (saved orig)" and s: "safe orig files st" and l: "\<not> is_link (rs_resolv st)"
    using assms(2,3) by (auto simp: hijack_inv_def)
  show ?thesis
    unfolding restore_or_fallback_def restore_saved [OF assms(1) b]
    using s l b by (cases orig; cases "rs_resolv st") (auto simp: safe_def)
qed

lemma event_safe_run:
  assumes "restorable orig" and "hijack_inv orig files st"
  shows "safe_run (safe orig files) st (event_ops ev st)"
proof (induction ev)
  case (Ev_Crash ev k j)
  then show ?case unfolding event_ops_crash by (rule safe_run_cut)
qed (use assms in \<open>auto simp: hijack_safe_run restore_safe_run hijack_inv_def\<close>)

lemma hijack_step_inv:
  assumes "restorable orig" and "hijack_inv orig files st"
  shows "hijack_inv orig files (hijack_step st ev)"
proof -
  have s: "safe orig files (foldl apply_op st (event_ops ev st))"
    by (rule safe_run_end [OF event_safe_run [OF assms]])
  have st: "safe orig files st" using assms(2) by (simp add: hijack_inv_def)
  show ?thesis
  proof (cases ev)
    case (Ev_Reset fb)
    with s hijack_leaves [OF assms(1) st, of fb] show ?thesis
      by (simp add: hijack_inv_def hijack_step_def safe_def)
  next
    case (Ev_Tick fb)
    with s assms(2) hijack_leaves [OF assms(1) st, of fb] show ?thesis
      by (simp add: hijack_inv_def hijack_step_def safe_def)
  next
    case (Ev_Remove fb)
    with s show ?thesis by (simp add: hijack_inv_def hijack_step_def safe_def)
  next
    case (Ev_Crash ev' k j)
    with s show ?thesis by (simp add: hijack_inv_def hijack_step_def safe_def del: event_ops.simps)
  qed
qed

interpretation resolv: machine hijack_step "\<lambda>st. restorable orig \<longrightarrow> hijack_inv orig files st" for orig files
  by unfold_locales (simp add: hijack_step_inv)

definition untouched :: "resolv_node \<Rightarrow> (string \<rightharpoonup> string) \<Rightarrow> resolv_state" where
  "untouched orig files = \<lparr>rs_resolv = orig, rs_backup = None, rs_targets = files, rs_hijacker = False\<rparr>"


lemma remove_restores:
  assumes "restorable orig" and "hijack_inv orig files st" and "rs_hijacker st"
  shows "hijack_step st (Ev_Remove fb) = untouched orig files"
proof -
  have b: "rs_backup st = Some (saved orig)" and s: "safe orig files st" and l: "\<not> is_link (rs_resolv st)"
    using assms(2,3) by (auto simp: hijack_inv_def)
  have "restore_or_fallback fb st = (case orig of Missing \<Rightarrow> [RemoveResolv, RemoveBackup]
    | Link t \<Rightarrow> [RemoveResolv, SymlinkResolv t, RemoveBackup] | File b \<Rightarrow> [WriteResolv b, RemoveBackup])"
    by (simp add: restore_or_fallback_def restore_saved [OF assms(1) b])
  then show ?thesis
    using assms(3) s l
    by (cases st; cases orig; cases "rs_resolv st") (auto simp: hijack_step_def safe_def untouched_def)
qed


section \<open>The servers behind a hijacked file\<close>

lemma split_on_one: "c \<notin> set t \<Longrightarrow> split_on c t = [t]"
  by (induction t) auto

lemma split_on_line: "c \<notin> set t \<Longrightarrow> split_on c (t @ [c]) = [t, []]"
  by (induction t) auto

text \<open>
  (C37) While the file is hijacked and the original was a link, no name server of the system is found: the
  backup holds the path of the link, not the servers.
\<close>

theorem linked_backup_hides_servers:
  assumes "ve_resolv env = Some (hijacked_content fb)" and "ve_backup env = Some (saved (Link t))"
    and "CHR 0x0A \<notin> set t"
  shows "getSystemDnsServers env = []"
proof -
  let ?l = "symlinkMarker @ t"
  have "CHR 0x0A \<notin> set ?l" using assms(3) by (simp add: symlinkMarker_def)
  then have sp: "split_on (CHR 0x0A) (saved (Link t)) = [?l, []]"
    using split_on_line [of "CHR 0x0A" ?l] by (simp add: newline_def)
  have "\<not> prefix ''nameserver'' (TrimSpace ?l)"
  proof
    assume "prefix ''nameserver'' (TrimSpace ?l)"
    moreover have "prefix (TrimSpace ?l) ?l"
      by (rule TrimSpace_prefix) (simp_all add: symlinkMarker_def printable_def)
    ultimately have "prefix ''nameserver'' ?l" by (rule prefix_order.trans)
    then show False by (simp add: symlinkMarker_def)
  qed
  then have 1: "system_server ?l = []" by (simp add: system_server_def)
  have "TrimSpace [] = []"
    by (rule TrimSpace_printable) (simp add: printable_def)
  then have 2: "system_server [] = []" by (simp add: system_server_def)
  have "prefix HijackFlag (hijacked_content fb)" by (simp add: hijacked_content_def)
  with assms(1,2) sp 1 2 show ?thesis by (simp add: getSystemDnsServers_def del: saved.simps)
qed

section \<open>A concrete machine\<close>

definition stub_path :: string where
  "stub_path = ''/run/systemd/resolve/stub-resolv.conf''"

lemma stub_restorable: "restorable (Link stub_path)"
proof -
  have "TrimSpace stub_path = stub_path"
    by (rule TrimSpace_printable) (simp add: stub_path_def printable_def)
  then show ?thesis by (simp add: stub_path_def)
qed



theorem linked_backup_hides_servers_witness:
  "getSystemDnsServers \<lparr>ve_goos = ''linux'', ve_lite = False, ve_ipv6 = False, ve_canBind = (\<lambda>a. True),
     ve_couldListen = True, ve_resolv = Some (hijacked_content ''1.1.1.1''),
     ve_backup = Some (saved (Link stub_path)), ve_egress = [], ve_socks = None, ve_rules = None,
     ve_urlHost = (\<lambda>u. None)\<rparr> = []"
  by (rule linked_backup_hides_servers [where fb = "''1.1.1.1''" and t = stub_path])
    (simp_all add: stub_path_def)

end
