(* ===== verification/Effects.thy ===== *)
theory Effects
  imports Prelude
begin

text \<open>
  Operations that read and change a state and may return an error: a function from the state to
  an error or a value, together with the state it leaves. An error does not undo what the
  operation has done before. \<open>and_then\<close> is the \<open>if err != nil { return err }\<close> of the Go sources,
  \<open>attempt\<close> is a call whose error is looked at or dropped by the caller, \<open>for_each\<close> a loop that
  returns on the first error.
\<close>

type_synonym ('s, 'e, 'a) op = "'s \<Rightarrow> ('e + 'a) \<times> 's"

definition ret :: "'a \<Rightarrow> ('s, 'e, 'a) op" where
  "ret x s = (Inr x, s)"

definition fail :: "'e \<Rightarrow> ('s, 'e, 'a) op" where
  "fail e s = (Inl e, s)"

definition and_then :: "('s, 'e, 'a) op \<Rightarrow> ('a \<Rightarrow> ('s, 'e, 'b) op) \<Rightarrow> ('s, 'e, 'b) op" where
  "and_then m k s = (case m s of (Inl e, s') \<Rightarrow> (Inl e, s') | (Inr x, s') \<Rightarrow> k x s')"

definition attempt :: "('s, 'e, 'a) op \<Rightarrow> ('s, 'e, 'e + 'a) op" where
  "attempt m s = (case m s of (r, s') \<Rightarrow> (Inr r, s'))"

fun for_each :: "('x \<Rightarrow> ('s, 'e, unit) op) \<Rightarrow> 'x list \<Rightarrow> ('s, 'e, unit) op" where
  "for_each f [] s = (Inr (), s)"
| "for_each f (x # xs) s = (case f x s of (Inl e, s') \<Rightarrow> (Inl e, s') | (Inr _, s') \<Rightarrow> for_each f xs s')"

text \<open>A loop that collects one value per element.\<close>

fun collect :: "('x \<Rightarrow> ('s, 'e, 'a) op) \<Rightarrow> 'x list \<Rightarrow> ('s, 'e, 'a list) op" where
  "collect f [] s = (Inr [], s)"
| "collect f (x # xs) s =
     (case f x s of
        (Inl e, s') \<Rightarrow> (Inl e, s')
      | (Inr y, s') \<Rightarrow>
          (case collect f xs s' of (Inl e, s'') \<Rightarrow> (Inl e, s'') | (Inr ys, s'') \<Rightarrow> (Inr (y # ys), s'')))"

named_theorems effect_simps \<open>running an operation step by step\<close>

lemma ret_run [simp, effect_simps]: "ret x s = (Inr x, s)"
  by (simp add: ret_def)

lemma fail_run [simp, effect_simps]: "fail e s = (Inl e, s)"
  by (simp add: fail_def)

lemma and_then_ok [effect_simps]: "m s = (Inr x, s') \<Longrightarrow> and_then m k s = k x s'"
  by (simp add: and_then_def)

lemma and_then_err [effect_simps]: "m s = (Inl e, s') \<Longrightarrow> and_then m k s = (Inl e, s')"
  by (simp add: and_then_def)

lemma attempt_run [effect_simps]: "m s = (r, s') \<Longrightarrow> attempt m s = (Inr r, s')"
  by (simp add: attempt_def)

lemma and_then_assoc: "and_then (and_then m k) l = and_then m (\<lambda>x. and_then (k x) l)"
  by (rule ext) (simp add: and_then_def split: prod.split sum.split)

lemma and_then_Inr:
  "and_then m k s = (Inr y, s'') \<longleftrightarrow> (\<exists>x s'. m s = (Inr x, s') \<and> k x s' = (Inr y, s''))"
  by (auto simp: and_then_def split: prod.splits sum.splits)

text \<open>A property of the state that an operation keeps, whether it succeeds or fails.\<close>

definition keeps :: "('s \<Rightarrow> bool) \<Rightarrow> ('s, 'e, 'a) op \<Rightarrow> bool" where
  "keeps I m \<longleftrightarrow> (\<forall>s. I s \<longrightarrow> I (snd (m s)))"

named_theorems keep \<open>operations that keep a property of the state\<close>

lemma keepsD: "keeps I m \<Longrightarrow> I s \<Longrightarrow> m s = (r, s') \<Longrightarrow> I s'"
  by (metis keeps_def snd_conv)

lemma keepsI: "(\<And>s r s'. I s \<Longrightarrow> m s = (r, s') \<Longrightarrow> I s') \<Longrightarrow> keeps I m"
  by (metis keeps_def prod.collapse)

lemma keeps_ret [keep]: "keeps I (ret x)" and keeps_fail [keep]: "keeps I (fail e)"
  by (simp_all add: keeps_def)

lemma keeps_and_then [keep]:
  assumes "keeps I m" and "\<And>x. keeps I (k x)"
  shows "keeps I (and_then m k)"
proof (rule keepsI)
  fix s r s'
  assume s: "I s" "and_then m k s = (r, s')"
  obtain r1 s1 where r1: "m s = (r1, s1)" by (cases "m s")
  with assms(1) s(1) have "I s1" by (blast intro: keepsD)
  with assms(2) s(2) r1 show "I s'" by (cases r1) (auto simp: and_then_def intro: keepsD)
qed

lemma keeps_attempt [keep]: "keeps I m \<Longrightarrow> keeps I (attempt m)"
  by (simp add: keeps_def attempt_def case_prod_beta)

lemma keeps_if [keep]: "keeps I m \<Longrightarrow> keeps I n \<Longrightarrow> keeps I (if b then m else n)"
  by simp

lemma keeps_option [keep]: "keeps I m \<Longrightarrow> (\<And>x. keeps I (k x)) \<Longrightarrow> keeps I (case o' of None \<Rightarrow> m | Some x \<Rightarrow> k x)"
  by (cases o') simp_all

lemma keeps_sum [keep]: "(\<And>e. keeps I (h e)) \<Longrightarrow> (\<And>x. keeps I (k x)) \<Longrightarrow> keeps I (case r of Inl e \<Rightarrow> h e | Inr x \<Rightarrow> k x)"
  by (cases r) simp_all

lemma keeps_prod [keep]: "(\<And>x y. keeps I (k x y)) \<Longrightarrow> keeps I (case p of (x, y) \<Rightarrow> k x y)"
  by (cases p) simp

lemma keeps_for_each [keep]:
  assumes "\<And>x. keeps I (f x)"
  shows "keeps I (for_each f xs)"
proof (induction xs)
  case (Cons x xs)
  have "for_each f (x # xs) = and_then (f x) (\<lambda>_. for_each f xs)"
    by (rule ext) (simp add: and_then_def)
  with Cons assms show ?case by (simp add: keeps_and_then)
qed (simp add: keeps_def)

lemma keeps_collect [keep]:
  assumes "\<And>x. keeps I (f x)"
  shows "keeps I (collect f xs)"
proof (induction xs)
  case (Cons x xs)
  have "collect f (x # xs) = and_then (f x) (\<lambda>y. and_then (collect f xs) (\<lambda>ys. ret (y # ys)))"
    by (rule ext) (simp add: and_then_def [abs_def] split: prod.split sum.split)
  with Cons assms show ?case by (simp add: keeps_and_then keeps_ret)
qed (simp add: keeps_def)

lemma for_each_append:
  "for_each f (xs @ ys) s =
     (case for_each f xs s of (Inl e, s') \<Rightarrow> (Inl e, s') | (Inr _, s') \<Rightarrow> for_each f ys s')"
  by (induction xs arbitrary: s) (auto split: prod.splits sum.splits)

lemma for_each_pure:
  assumes "\<And>x s. x \<in> set xs \<Longrightarrow> P s \<Longrightarrow> f x s = (Inr (), g x s) \<and> P (g x s)" and "P s"
  shows "for_each f xs s = (Inr (), fold g xs s)"
  using assms
proof (induction xs arbitrary: s)
  case (Cons x xs)
  have x: "f x s = (Inr (), g x s)" "P (g x s)" using Cons.prems by simp_all
  have "for_each f xs (g x s) = (Inr (), fold g xs (g x s))"
    using Cons.prems(1) x(2) by (intro Cons.IH) auto
  with x show ?case by simp
qed simp

lemma collect_pure:
  assumes "\<And>x. x \<in> set xs \<Longrightarrow> f x s = (Inr (g x), s)"
  shows "collect f xs s = (Inr (map g xs), s)"
  using assms by (induction xs) auto

end
