(* ===== verification/Sql_Store.thy ===== *)
theory Sql_Store
  imports Effects Go_Json "HOL-Library.AList" "HOL-Library.Char_ord" "HOL-Library.List_Lexorder"
begin

text \<open>
  The database of the service (\<open>service/db\<close>): the tables of \<open>schema.go\<close>, the statements on them,
  transactions, the key-value operations of \<open>plainOp.go\<close>, the set operations of \<open>setOp.go\<close> and the
  list operations of \<open>listOp.go\<close>. A table is the list of its rows in the order of their row ids.
  A statement is a function on the tables; it is atomic, and it may fail, which the list of
  faults of the store decides: each statement takes the next element and fails, with no effect,
  when it is \<open>True\<close>; an empty list means no more faults. A text column that holds JSON is given by
  the value it holds. The time stamps and the columns no statement reads are left out. What
  \<open>gjson\<close> returns for a value of another kind than the one asked for is the parameter \<open>gjson\<close>.
\<close>

section \<open>Tables\<close>

record server_row =
  rw_id :: int
  rw_type :: string
  rw_sub_id :: "int option"
  rw_config :: json
  rw_sort :: int

record sub_row =
  sb_id :: int
  sb_address :: string
  sb_remarks :: string
  sb_status :: string
  sb_info :: string
  sb_auto_select :: int
  sb_update_mode :: string
  sb_regular :: int
  sb_failure :: int
  sb_direct :: bool
  sb_sort :: int

record tables =
  tb_servers :: "server_row list"
  tb_subs :: "sub_row list"
  tb_config :: "(string \<times> json) list"
  tb_names :: "(string \<times> int) list"
  tb_server_seq :: int
  tb_sub_seq :: int

record store =
  st_tables :: tables
  st_faults :: "bool list"

datatype store_error =
    SqlError
  | Unsupported string
  | IndexNotFound int
  | EmptyList
  | NothingToRemove
  | KeyNotFound
  | DecodeError
  | NotAString
  | Coded string
  | Failed string

type_synonym 'a db_op = "(store, store_error, 'a) op"

definition sql :: "(tables \<Rightarrow> 'a \<times> tables) \<Rightarrow> 'a db_op" where
  "sql f s =
     (case st_faults s of
        True # fs \<Rightarrow> (Inl SqlError, s\<lparr>st_faults := fs\<rparr>)
      | fs \<Rightarrow>
          (case f (st_tables s) of
             (x, t) \<Rightarrow> (Inr x, s\<lparr>st_tables := t, st_faults := drop 1 fs\<rparr>)))"

definition query :: "(tables \<Rightarrow> 'a) \<Rightarrow> 'a db_op" where
  "query f = sql (\<lambda>t. (f t, t))"

definition exec :: "(tables \<Rightarrow> tables) \<Rightarrow> unit db_op" where
  "exec f = sql (\<lambda>t. ((), f t))"

text \<open>A transaction: an error of the body or of the commit leaves the tables as they were.\<close>

definition ReadModifyWrite :: "unit db_op \<Rightarrow> unit db_op" where
  "ReadModifyWrite fn =
     and_then (query (\<lambda>t. t)) (\<lambda>before s.
       case fn s of
         (Inl e, s') \<Rightarrow> (Inl e, s'\<lparr>st_tables := before\<rparr>)
       | (Inr _, s') \<Rightarrow>
           (case exec (\<lambda>t. t) s' of
              (Inl e, s'') \<Rightarrow> (Inl e, s''\<lparr>st_tables := before\<rparr>)
            | (Inr _, s'') \<Rightarrow> (Inr (), s'')))"

section \<open>Reading JSON by path\<close>

record gjson =
  gj_String :: "json \<Rightarrow> string"
  gj_Bool :: "json \<Rightarrow> bool"
  gj_Int :: "json \<Rightarrow> int"

fun gjson_get :: "json \<Rightarrow> string \<Rightarrow> json" where
  "gjson_get (JObj ms) k = (case map_of ms k of None \<Rightarrow> JNull | Some v \<Rightarrow> v)"
| "gjson_get _ k = JNull"

fun gjson_String :: "gjson \<Rightarrow> json \<Rightarrow> string" where
  "gjson_String g JNull = []"
| "gjson_String g (JStr s) = s"
| "gjson_String g v = gj_String g v"

fun gjson_Bool :: "gjson \<Rightarrow> json \<Rightarrow> bool" where
  "gjson_Bool g JNull = False"
| "gjson_Bool g (JBool b) = b"
| "gjson_Bool g v = gj_Bool g v"

fun gjson_Int :: "gjson \<Rightarrow> json \<Rightarrow> int" where
  "gjson_Int g JNull = 0"
| "gjson_Int g (JNum lit) = (case int_literal lit of Some n \<Rightarrow> n | None \<Rightarrow> gj_Int g (JNum lit))"
| "gjson_Int g v = gj_Int g v"

fun gjson_Array :: "json \<Rightarrow> json list" where
  "gjson_Array JNull = []"
| "gjson_Array (JArr js) = js"
| "gjson_Array v = [v]"

section \<open>Keys of the configuration table\<close>

text \<open>
  The \<open>LIKE\<close> operator: \<open>%\<close> stands for any text, \<open>_\<close> for any character, letters are compared
  without regard to case, and a character after the escape character stands for itself.
\<close>

definition same_letter :: "char \<Rightarrow> char \<Rightarrow> bool" where
  "same_letter a b \<longleftrightarrow> to_lower_char a = to_lower_char b"

fun like :: "char option \<Rightarrow> string \<Rightarrow> string \<Rightarrow> bool" where
  "like esc [] t \<longleftrightarrow> t = []"
| "like esc (p # ps) [] \<longleftrightarrow> p = CHR ''%'' \<and> esc \<noteq> Some p \<and> like esc ps []"
| "like esc (p # ps) (c # cs) \<longleftrightarrow>
     (if esc = Some p then (case ps of [] \<Rightarrow> False | q # qs \<Rightarrow> same_letter q c \<and> like esc qs cs)
      else if p = CHR ''%'' then like esc ps (c # cs) \<or> like esc (p # ps) cs
      else if p = CHR ''_'' then like esc ps cs
      else same_letter p c \<and> like esc ps cs)"

definition makeKey :: "string \<Rightarrow> string \<Rightarrow> string" where
  "makeKey bucket key = bucket @ '':'' @ key"

definition bucketLikeEscaper :: "string \<Rightarrow> string" where
  "bucketLikeEscaper s =
     concat (map (\<lambda>c. if c = CHR 0x5C \<or> c = CHR ''%'' \<or> c = CHR ''_'' then [CHR 0x5C, c] else [c]) s)"

definition bucketLikePattern :: "string \<Rightarrow> string" where
  "bucketLikePattern bucket = bucketLikeEscaper (bucket @ '':'') @ ''%''"

definition Get :: "(json \<Rightarrow> 'a option) \<Rightarrow> string \<Rightarrow> string \<Rightarrow> 'a db_op" where
  "Get unmarshal bucket key =
     and_then (query (\<lambda>t. map_of (tb_config t) (makeKey bucket key))) (\<lambda>row.
     and_then
       (if row = None \<and> bucket = ''accounts'' then query (\<lambda>t. map_of (tb_config t) key) else ret row)
       (\<lambda>row. case row of
          None \<Rightarrow> fail KeyNotFound
        | Some v \<Rightarrow> (case unmarshal v of None \<Rightarrow> fail DecodeError | Some x \<Rightarrow> ret x)))"

definition GetRaw :: "string \<Rightarrow> string \<Rightarrow> json db_op" where
  "GetRaw bucket key =
     and_then (query (\<lambda>t. map_of (tb_config t) (makeKey bucket key))) (\<lambda>row.
       case row of None \<Rightarrow> fail KeyNotFound | Some v \<Rightarrow> ret v)"

definition config_count :: "string \<Rightarrow> tables \<Rightarrow> nat" where
  "config_count k t = length (filter (\<lambda>(k', _). k' = k) (tb_config t))"

definition Exists :: "string \<Rightarrow> string \<Rightarrow> bool db_op" where
  "Exists bucket key s =
     (case query (config_count (makeKey bucket key)) s of
        (Inl _, s') \<Rightarrow> (Inr False, s')
      | (Inr n, s') \<Rightarrow>
          if n = 0 \<and> bucket = ''accounts'' then
            (case query (config_count key) s' of
               (Inl _, s'') \<Rightarrow> (Inr False, s'')
             | (Inr m, s'') \<Rightarrow> (Inr (0 < m), s''))
          else (Inr (0 < n), s'))"

definition GetBucketLen :: "string \<Rightarrow> nat db_op" where
  "GetBucketLen bucket =
     query (\<lambda>t. length (filter (\<lambda>(k, _). like None (bucket @ '':%'') k) (tb_config t)))"

definition GetBucketKeys :: "string \<Rightarrow> string list db_op" where
  "GetBucketKeys bucket =
     (let prefix = bucket @ '':''
      in and_then
           (query (\<lambda>t. sort (filter (\<lambda>k. like None (prefix @ ''%'') k
                 \<or> (bucket = ''accounts'' \<and> \<not> like None ''%:%'' k)) (map fst (tb_config t)))))
           (\<lambda>keys. ret (map (\<lambda>k. TrimPrefix k prefix) keys)))"

definition put_config :: "string \<Rightarrow> json \<Rightarrow> tables \<Rightarrow> tables" where
  "put_config k v t = t\<lparr>tb_config := AList.update k v (tb_config t)\<rparr>"

definition setValue :: "string \<Rightarrow> string \<Rightarrow> json \<Rightarrow> unit db_op" where
  "setValue bucket key val = exec (put_config (makeKey bucket key) val)"

definition Delete :: "string \<Rightarrow> string \<Rightarrow> unit db_op" where
  "Delete bucket key =
     exec (\<lambda>t. t\<lparr>tb_config := filter (\<lambda>(k, _). \<not> (k = makeKey bucket key
         \<or> (bucket = ''accounts'' \<and> k = key))) (tb_config t)\<rparr>)"

definition BucketClear :: "string \<Rightarrow> unit db_op" where
  "BucketClear bucket =
     exec (\<lambda>t. t\<lparr>tb_config := filter (\<lambda>(k, _). \<not> like (Some (CHR 0x5C)) (bucketLikePattern bucket) k)
         (tb_config t)\<rparr>)"

section \<open>The set of outbound names\<close>

definition next_sort :: "int list \<Rightarrow> int" where
  "next_sort xs = (if xs = [] then 0 else Max (set xs) + 1)"

definition is_names :: "string \<Rightarrow> string \<Rightarrow> bool" where
  "is_names bucket key \<longleftrightarrow> bucket @ ''/'' @ key = ''outbounds/names''"

text \<open>A value of another kind than a string is refused; the next ordinal is read first, and a
  failed read counts as 0.\<close>

definition SetAdd :: "string \<Rightarrow> string \<Rightarrow> json \<Rightarrow> unit db_op" where
  "SetAdd bucket key val =
     (if is_names bucket key then
        (case val of
           JStr name \<Rightarrow>
             and_then (attempt (query (\<lambda>t. next_sort (map snd (tb_names t)) - 1))) (\<lambda>r.
               let maxSort = (case r of Inl _ \<Rightarrow> 0 | Inr n \<Rightarrow> n)
               in exec (\<lambda>t. if name \<in> fst ` set (tb_names t) then t
                            else t\<lparr>tb_names := tb_names t @ [(name, maxSort + 1)]\<rparr>))
         | _ \<Rightarrow> fail NotAString)
      else fail (Unsupported (bucket @ ''/'' @ key)))"

definition SetRemove :: "string \<Rightarrow> string \<Rightarrow> json \<Rightarrow> unit db_op" where
  "SetRemove bucket key val =
     (if is_names bucket key then
        (case val of
           JStr name \<Rightarrow> exec (\<lambda>t. t\<lparr>tb_names := filter (\<lambda>(n, _). n \<noteq> name) (tb_names t)\<rparr>)
         | _ \<Rightarrow> fail NotAString)
      else fail (Unsupported (bucket @ ''/'' @ key)))"

definition SetIsMember :: "string \<Rightarrow> string \<Rightarrow> string \<Rightarrow> bool db_op" where
  "SetIsMember bucket key member =
     (if is_names bucket key then
        and_then (query (\<lambda>t. length (filter (\<lambda>(n, _). n = member) (tb_names t)))) (\<lambda>count. ret (0 < count))
      else fail (Unsupported (bucket @ ''/'' @ key)))"

definition SetMembers :: "string \<Rightarrow> string \<Rightarrow> string list db_op" where
  "SetMembers bucket key =
     (if is_names bucket key then query (\<lambda>t. map fst (sort_key snd (tb_names t)))
      else fail (Unsupported (bucket @ ''/'' @ key)))"

end
