(* ===== verification/Sql_Lists.thy ===== *)
theory Sql_Lists
  imports Sql_Store
begin

text \<open>
  The list operations of the database (\<open>service/db/listOp.go\<close>): the standalone servers and the
  subscriptions with their servers, addressed by their ordinal, the column \<open>sort\<close>. Values to
  store are given by the JSON they are marshalled to.
\<close>

section \<open>Rows\<close>

definition is_server :: "server_row \<Rightarrow> bool" where
  "is_server r \<longleftrightarrow> rw_type r = ''server''"

definition is_server_at :: "int \<Rightarrow> server_row \<Rightarrow> bool" where
  "is_server_at index r \<longleftrightarrow> is_server r \<and> rw_sort r = index"

definition is_member_of :: "int \<Rightarrow> server_row \<Rightarrow> bool" where
  "is_member_of sub r \<longleftrightarrow> rw_type r = ''subscription_server'' \<and> rw_sub_id r = Some sub"

definition insert_server :: "string \<Rightarrow> int option \<Rightarrow> json \<Rightarrow> int \<Rightarrow> tables \<Rightarrow> tables" where
  "insert_server typ sub cfg ordinal t =
     t\<lparr>tb_servers := tb_servers t @
         [\<lparr>rw_id = tb_server_seq t + 1, rw_type = typ, rw_sub_id = sub, rw_config = cfg, rw_sort = ordinal\<rparr>],
       tb_server_seq := tb_server_seq t + 1\<rparr>"

definition sub_columns :: "gjson \<Rightarrow> json \<Rightarrow> sub_row \<Rightarrow> sub_row" where
  "sub_columns g item r =
     r\<lparr>sb_address := gjson_String g (gjson_get item ''address''),
       sb_remarks := gjson_String g (gjson_get item ''remarks''),
       sb_status := gjson_String g (gjson_get item ''status''),
       sb_info := gjson_String g (gjson_get item ''info''),
       sb_auto_select := (if gjson_Bool g (gjson_get item ''autoSelect'') then 1 else 0),
       sb_update_mode := (let m = gjson_String g (gjson_get item ''updateMode'')
                          in if m = [] then ''disabled'' else m),
       sb_regular := gjson_Int g (gjson_get item ''updateIntervalMinutes''),
       sb_failure := max 1 (gjson_Int g (gjson_get item ''failureIntervalMinutes'')),
       sb_direct := gjson_Bool g (gjson_get item ''allowDirectRecovery'')\<rparr>"

definition new_sub_row :: "int \<Rightarrow> int \<Rightarrow> sub_row" where
  "new_sub_row i ordinal =
     \<lparr>sb_id = i, sb_address = [], sb_remarks = [], sb_status = [], sb_info = [], sb_auto_select = 0,
      sb_update_mode = ''disabled'', sb_regular = 0, sb_failure = 1, sb_direct = False, sb_sort = ordinal\<rparr>"

text \<open>\<open>INSERT INTO subscriptions\<close> and the id it returns.\<close>

definition insert_sub :: "gjson \<Rightarrow> json \<Rightarrow> tables \<Rightarrow> int \<times> tables" where
  "insert_sub g item t =
     (let i = tb_sub_seq t + 1
      in (i, t\<lparr>tb_subs := tb_subs t @ [sub_columns g item (new_sub_row i (next_sort (map sb_sort (tb_subs t))))],
               tb_sub_seq := i\<rparr>))"

section \<open>Replacing an element\<close>

definition ServersSet :: "int \<Rightarrow> json \<Rightarrow> unit db_op" where
  "ServersSet index val =
     and_then
       (sql (\<lambda>t. (length (filter (is_server_at index) (tb_servers t)),
          t\<lparr>tb_servers := map (\<lambda>r. if is_server_at index r then r\<lparr>rw_config := val\<rparr> else r) (tb_servers t)\<rparr>)))
       (\<lambda>rows. if rows = 0 then fail (IndexNotFound index) else ret ())"

definition insert_members :: "int \<Rightarrow> json list \<Rightarrow> unit db_op" where
  "insert_members sub servers =
     for_each (\<lambda>(j, cfg). exec (insert_server ''subscription_server'' (Some sub) cfg (int j)))
       (enumerate 0 servers)"

definition setSubscription :: "gjson \<Rightarrow> int \<Rightarrow> json \<Rightarrow> unit db_op" where
  "setSubscription g index parsed =
     and_then
       (sql (\<lambda>t. (map sb_id (filter (\<lambda>r. sb_sort r = index) (tb_subs t)),
          t\<lparr>tb_subs := map (\<lambda>r. if sb_sort r = index then sub_columns g parsed r else r) (tb_subs t)\<rparr>)))
       (\<lambda>ids. case ids of
          [] \<Rightarrow> fail (IndexNotFound index)
        | subID # _ \<Rightarrow>
            and_then (exec (\<lambda>t. t\<lparr>tb_servers := filter (\<lambda>r. \<not> is_member_of subID r) (tb_servers t)\<rparr>))
              (\<lambda>_. insert_members subID (gjson_Array (gjson_get parsed ''servers''))))"

definition SubscriptionsSet :: "gjson \<Rightarrow> int \<Rightarrow> json \<Rightarrow> unit db_op option \<Rightarrow> unit db_op" where
  "SubscriptionsSet g index val beforeSet =
     ReadModifyWrite
       (and_then (case beforeSet of None \<Rightarrow> ret () | Some f \<Rightarrow> f) (\<lambda>_. setSubscription g index val))"

definition ListSet :: "gjson \<Rightarrow> string \<Rightarrow> string \<Rightarrow> int \<Rightarrow> json \<Rightarrow> unit db_op" where
  "ListSet g bucket key index val =
     (let name = bucket @ ''/'' @ key
      in if name = ''touch/servers'' then ServersSet index val
         else if name = ''touch/subscriptions'' then SubscriptionsSet g index val None
         else fail (Unsupported name))"

definition ListSetWithTransaction ::
    "gjson \<Rightarrow> string \<Rightarrow> string \<Rightarrow> int \<Rightarrow> json \<Rightarrow> unit db_op \<Rightarrow> unit db_op" where
  "ListSetWithTransaction g bucket key index val beforeSet =
     (if bucket @ ''/'' @ key \<noteq> ''touch/subscriptions'' then fail (Unsupported (bucket @ ''/'' @ key))
      else SubscriptionsSet g index val (Some beforeSet))"

section \<open>Reading\<close>

definition subscriptionJSON :: "sub_row \<Rightarrow> json list \<Rightarrow> json" where
  "subscriptionJSON r servers =
     JObj [(''databaseId'', json_int (sb_id r)), (''remarks'', JStr (sb_remarks r)),
           (''address'', JStr (sb_address r)), (''status'', JStr (sb_status r)), (''info'', JStr (sb_info r)),
           (''servers'', JArr servers), (''autoSelect'', JBool (sb_auto_select r \<noteq> 0)),
           (''updateMode'', JStr (sb_update_mode r)), (''updateIntervalMinutes'', json_int (sb_regular r)),
           (''failureIntervalMinutes'', json_int (sb_failure r)), (''allowDirectRecovery'', JBool (sb_direct r))]"

definition member_configs :: "int \<Rightarrow> tables \<Rightarrow> json list" where
  "member_configs sub t = map rw_config (sort_key rw_sort (filter (is_member_of sub) (tb_servers t)))"

definition serversGet :: "int \<Rightarrow> json db_op" where
  "serversGet index =
     and_then (query (\<lambda>t. find (is_server_at index) (tb_servers t))) (\<lambda>row.
       case row of None \<Rightarrow> fail EmptyList | Some r \<Rightarrow> ret (rw_config r))"

definition SubscriptionsGet :: "int \<Rightarrow> json db_op" where
  "SubscriptionsGet index =
     and_then (query (\<lambda>t. find (\<lambda>r. sb_sort r = index) (tb_subs t))) (\<lambda>row.
       case row of
         None \<Rightarrow> fail EmptyList
       | Some r \<Rightarrow> and_then (query (member_configs (sb_id r))) (\<lambda>servers. ret (subscriptionJSON r servers)))"

definition ListGet :: "string \<Rightarrow> string \<Rightarrow> int \<Rightarrow> json db_op" where
  "ListGet bucket key index =
     (let name = bucket @ ''/'' @ key
      in if name = ''touch/servers'' then serversGet index
         else if name = ''touch/subscriptions'' then SubscriptionsGet index
         else fail (Unsupported name))"

definition ServersGetAll :: "json list db_op" where
  "ServersGetAll = query (\<lambda>t. map rw_config (sort_key rw_sort (filter is_server (tb_servers t))))"

definition SubscriptionsGetAll :: "json list db_op" where
  "SubscriptionsGetAll =
     and_then (query (\<lambda>t. sort_key sb_sort (tb_subs t)))
       (collect (\<lambda>r. and_then (query (member_configs (sb_id r))) (\<lambda>servers. ret (subscriptionJSON r servers))))"

definition ListGetAll :: "string \<Rightarrow> string \<Rightarrow> json list db_op" where
  "ListGetAll bucket key =
     (let name = bucket @ ''/'' @ key
      in if name = ''touch/servers'' then ServersGetAll
         else if name = ''touch/subscriptions'' then SubscriptionsGetAll
         else fail (Unsupported name))"

definition ServersLen :: "int db_op" where
  "ServersLen = query (\<lambda>t. int (length (filter is_server (tb_servers t))))"

definition SubscriptionsLen :: "int db_op" where
  "SubscriptionsLen = query (\<lambda>t. int (length (tb_subs t)))"

definition ListLen :: "string \<Rightarrow> string \<Rightarrow> int db_op" where
  "ListLen bucket key =
     (let name = bucket @ ''/'' @ key
      in if name = ''touch/servers'' then ServersLen
         else if name = ''touch/subscriptions'' then SubscriptionsLen
         else fail (Unsupported name))"

section \<open>Appending\<close>

definition append_server :: "json \<Rightarrow> unit db_op" where
  "append_server cfg =
     exec (\<lambda>t. insert_server ''server'' None cfg (next_sort (map rw_sort (filter is_server (tb_servers t)))) t)"

fun json_elements :: "json \<Rightarrow> json list option" where
  "json_elements (JArr js) = Some js"
| "json_elements _ = None"

definition ServersAppend :: "json \<Rightarrow> unit db_op" where
  "ServersAppend val =
     (case json_elements val of
        Some items \<Rightarrow> for_each append_server items
      | None \<Rightarrow> append_server val)"

definition append_sub :: "gjson \<Rightarrow> json \<Rightarrow> unit db_op" where
  "append_sub g item =
     and_then (sql (insert_sub g item)) (\<lambda>subID.
       insert_members subID (gjson_Array (gjson_get item ''servers'')))"

text \<open>A value that is no array is dropped, without an error.\<close>

definition SubscriptionsAppend :: "gjson \<Rightarrow> json \<Rightarrow> unit db_op" where
  "SubscriptionsAppend g val =
     (case json_elements val of Some items \<Rightarrow> for_each (append_sub g) items | None \<Rightarrow> ret ())"

definition ListAppend :: "gjson \<Rightarrow> string \<Rightarrow> string \<Rightarrow> json \<Rightarrow> unit db_op" where
  "ListAppend g bucket key val =
     (let name = bucket @ ''/'' @ key
      in if name = ''touch/servers'' then ServersAppend val
         else if name = ''touch/subscriptions'' then SubscriptionsAppend g val
         else exec (put_config name val))"

section \<open>Removing\<close>

text \<open>
  After the rows are gone the others are renumbered: the ordinal of a row becomes the number of
  rows with a smaller one.
\<close>

definition rank_in :: "int list \<Rightarrow> int \<Rightarrow> int" where
  "rank_in xs x = int (length (filter (\<lambda>y. y < x) xs))"

definition renumber_servers :: "tables \<Rightarrow> tables" where
  "renumber_servers t =
     t\<lparr>tb_servers := map (\<lambda>r. if is_server r
          then r\<lparr>rw_sort := rank_in (map rw_sort (filter is_server (tb_servers t))) (rw_sort r)\<rparr> else r)
        (tb_servers t)\<rparr>"

definition renumber_subs :: "tables \<Rightarrow> tables" where
  "renumber_subs t =
     t\<lparr>tb_subs := map (\<lambda>r. r\<lparr>sb_sort := rank_in (map sb_sort (tb_subs t)) (sb_sort r)\<rparr>) (tb_subs t)\<rparr>"

definition delete_server :: "int \<Rightarrow> tables \<Rightarrow> tables" where
  "delete_server idx t = t\<lparr>tb_servers := filter (\<lambda>r. \<not> is_server_at idx r) (tb_servers t)\<rparr>"

definition serversRemove :: "int list \<Rightarrow> unit db_op" where
  "serversRemove indexes =
     (if indexes = [] then fail NothingToRemove
      else and_then (for_each (\<lambda>idx. exec (delete_server idx)) indexes) (\<lambda>_. exec renumber_servers))"

definition remove_sub :: "int \<Rightarrow> unit db_op" where
  "remove_sub idx =
     and_then (query (\<lambda>t. find (\<lambda>r. sb_sort r = idx) (tb_subs t))) (\<lambda>row.
       case row of
         None \<Rightarrow> ret ()
       | Some r \<Rightarrow>
           and_then (exec (\<lambda>t. t\<lparr>tb_servers := filter (\<lambda>x. \<not> is_member_of (sb_id r) x) (tb_servers t)\<rparr>))
             (\<lambda>_. exec (\<lambda>t. t\<lparr>tb_subs := filter (\<lambda>x. sb_id x \<noteq> sb_id r) (tb_subs t)\<rparr>)))"

definition subscriptionsRemove :: "int list \<Rightarrow> unit db_op" where
  "subscriptionsRemove indexes =
     (if indexes = [] then fail NothingToRemove
      else and_then (for_each remove_sub indexes) (\<lambda>_. exec renumber_subs))"

definition ListRemove :: "string \<Rightarrow> string \<Rightarrow> int list \<Rightarrow> unit db_op" where
  "ListRemove bucket key indexes =
     (let name = bucket @ ''/'' @ key
      in if indexes = [] then fail NothingToRemove
         else if name = ''touch/servers'' then serversRemove indexes
         else if name = ''touch/subscriptions'' then subscriptionsRemove indexes
         else fail (Unsupported name))"

definition RemoveTx :: "int list \<Rightarrow> int list \<Rightarrow> unit db_op \<Rightarrow> unit db_op" where
  "RemoveTx subscriptions servers store_refs =
     ReadModifyWrite
       (and_then store_refs (\<lambda>_.
        and_then (if subscriptions = [] then ret () else subscriptionsRemove subscriptions) (\<lambda>_.
        if servers = [] then ret () else serversRemove servers)))"

end
