(* ===== verification/Catalog.thy ===== *)
theory Catalog
  imports Sql_Lists
begin

text \<open>
  The catalog of nodes as the service sees it (\<open>service/db/configure\<close>: \<open>raw.go\<close>, \<open>which.go\<close>,
  \<open>outbound.go\<close> and the node and outbound parts of \<open>configure.go\<close>): servers and subscriptions read
  from the database, references to them by type and ordinal, the groups of connected references,
  one per outbound. The methods of the interface \<open>serverObj.ServerObj\<close> are the fields of
  \<open>cat_env\<close>, an object is a value of the type variable; \<open>None\<close> is a nil object. The order in which
  Go ranges over a map is a parameter. The lists hold references by value: a \<open>null\<close> in a stored list,
  which the program never writes, is read as an error. A function of the source that panics on
  an error of the database returns that error here.
\<close>

section \<open>Nodes and references\<close>

record node_ref =
  nr_TYPE :: string
  nr_ID :: int
  nr_Sub :: int
  nr_Outbound :: string

record which = node_ref +
  wh_Latency :: string
  wh_Link :: string
  wh_Selected :: bool

abbreviation ServerType :: string where "ServerType \<equiv> ''server''"
abbreviation SubscriptionType :: string where "SubscriptionType \<equiv> ''subscription''"
abbreviation SubscriptionServerType :: string where "SubscriptionServerType \<equiv> ''subscriptionServer''"
abbreviation DefaultOutboundName :: string where "DefaultOutboundName \<equiv> ''proxy''"

record 'o server_raw =
  sw_Obj :: "'o option"
  sw_Latency :: string

record 'o subscription_raw =
  su_DatabaseID :: int
  su_UpdateMode :: string
  su_UpdateInterval :: int
  su_FailureInterval :: int
  su_AllowDirect :: bool
  su_Remarks :: string
  su_Address :: string
  su_Status :: string
  su_Servers :: "'o server_raw list"
  su_Info :: string
  su_AutoSelect :: bool

record 'o cat_env =
  ca_gjson :: gjson
  ca_emptyCreators :: "(string \<times> 'o) list"
  ca_PluginManager :: string
  ca_PluginManagerScheme :: string
  ca_Marshal :: "'o \<Rightarrow> json"
  ca_Unmarshal :: "'o \<Rightarrow> json \<Rightarrow> 'o option"
  ca_ExportToURL :: "'o \<Rightarrow> string"
  ca_GetProtocol :: "'o \<Rightarrow> string"
  ca_GetHostname :: "'o \<Rightarrow> string"
  ca_GetPort :: "'o \<Rightarrow> int"
  ca_GetName :: "'o \<Rightarrow> string"
  ca_range :: "string list \<Rightarrow> string list"
  ca_range_refs :: "node_ref list \<Rightarrow> node_ref list"

text \<open>\<open>serverObj.New\<close>: an empty object of the registered protocol, or of the plugin manager.\<close>

definition serverObj_New :: "'o cat_env \<Rightarrow> string \<Rightarrow> 'o option" where
  "serverObj_New env name =
     (case map_of (ca_emptyCreators env) name of
        Some x \<Rightarrow> Some x
      | None \<Rightarrow>
          if ca_PluginManager env \<noteq> [] then map_of (ca_emptyCreators env) (ca_PluginManagerScheme env)
          else None)"

section \<open>Stored forms\<close>

definition server_json :: "'o cat_env \<Rightarrow> 'o server_raw \<Rightarrow> json" where
  "server_json env r =
     JObj [(''serverObj'', case sw_Obj r of None \<Rightarrow> JNull | Some x \<Rightarrow> ca_Marshal env x),
           (''latency'', JStr (sw_Latency r))]"

definition subscription_json :: "'o cat_env \<Rightarrow> 'o subscription_raw \<Rightarrow> json" where
  "subscription_json env u =
     JObj ([(''databaseId'', json_int (su_DatabaseID u)), (''updateMode'', JStr (su_UpdateMode u)),
            (''updateIntervalMinutes'', json_int (su_UpdateInterval u)),
            (''failureIntervalMinutes'', json_int (su_FailureInterval u)),
            (''allowDirectRecovery'', JBool (su_AllowDirect u))]
         @ (if su_Remarks u = [] then [] else [(''remarks'', JStr (su_Remarks u))])
         @ [(''address'', JStr (su_Address u)), (''status'', JStr (su_Status u)),
            (''servers'', JArr (map (server_json env) (su_Servers u))),
            (''info'', JStr (su_Info u)), (''autoSelect'', JBool (su_AutoSelect u))])"

text \<open>An interface value: \<open>null\<close> makes it nil, anything else is stored into the object it holds.\<close>

fun dec_object :: "'o cat_env \<Rightarrow> 'o option \<Rightarrow> json \<Rightarrow> 'o option option" where
  "dec_object env old JNull = Some None"
| "dec_object env None v = None"
| "dec_object env (Some x) v = map_option Some (ca_Unmarshal env x v)"

definition server_field :: "'o cat_env \<Rightarrow> string \<Rightarrow> json \<Rightarrow> 'o server_raw \<Rightarrow> 'o server_raw option" where
  "server_field env k v r =
     (if is_field k ''serverobj'' then map_option (\<lambda>x. r\<lparr>sw_Obj := x\<rparr>) (dec_object env (sw_Obj r) v)
      else if is_field k ''latency'' then map_option (\<lambda>x. r\<lparr>sw_Latency := x\<rparr>) (dec_str (sw_Latency r) v)
      else Some r)"

definition stored_protocol :: "'o cat_env \<Rightarrow> json \<Rightarrow> string" where
  "stored_protocol env b = gjson_String (ca_gjson env) (gjson_get (gjson_get b ''serverObj'') ''protocol'')"

definition Bytes2ServerRaw :: "'o cat_env \<Rightarrow> json \<Rightarrow> 'o server_raw option" where
  "Bytes2ServerRaw env b =
     (let p = stored_protocol env b; protocol = (if p = [] then ''vmess'' else p)
      in case serverObj_New env protocol of
           None \<Rightarrow> None
         | Some x \<Rightarrow> dec_struct (server_field env) \<lparr>sw_Obj = Some x, sw_Latency = []\<rparr> b)"

text \<open>The elements of a slice are stored into the ones prepared for them.\<close>

fun dec_servers :: "'o cat_env \<Rightarrow> 'o server_raw list \<Rightarrow> json \<Rightarrow> 'o server_raw list option" where
  "dec_servers env prepared JNull = Some []"
| "dec_servers env prepared (JArr js) =
     those (map2 (\<lambda>r j. dec_struct (server_field env) r j) prepared js)"
| "dec_servers env prepared _ = None"

definition subscription_field ::
    "'o cat_env \<Rightarrow> string \<Rightarrow> json \<Rightarrow> 'o subscription_raw \<Rightarrow> 'o subscription_raw option" where
  "subscription_field env k v u =
     (if is_field k ''databaseid'' then map_option (\<lambda>x. u\<lparr>su_DatabaseID := x\<rparr>) (dec_int64 (su_DatabaseID u) v)
      else if is_field k ''updatemode'' then map_option (\<lambda>x. u\<lparr>su_UpdateMode := x\<rparr>) (dec_str (su_UpdateMode u) v)
      else if is_field k ''updateintervalminutes''
        then map_option (\<lambda>x. u\<lparr>su_UpdateInterval := x\<rparr>) (dec_int64 (su_UpdateInterval u) v)
      else if is_field k ''failureintervalminutes''
        then map_option (\<lambda>x. u\<lparr>su_FailureInterval := x\<rparr>) (dec_int64 (su_FailureInterval u) v)
      else if is_field k ''allowdirectrecovery''
        then map_option (\<lambda>x. u\<lparr>su_AllowDirect := x\<rparr>) (dec_bool (su_AllowDirect u) v)
      else if is_field k ''remarks'' then map_option (\<lambda>x. u\<lparr>su_Remarks := x\<rparr>) (dec_str (su_Remarks u) v)
      else if is_field k ''address'' then map_option (\<lambda>x. u\<lparr>su_Address := x\<rparr>) (dec_str (su_Address u) v)
      else if is_field k ''status'' then map_option (\<lambda>x. u\<lparr>su_Status := x\<rparr>) (dec_str (su_Status u) v)
      else if is_field k ''servers'' then map_option (\<lambda>x. u\<lparr>su_Servers := x\<rparr>) (dec_servers env (su_Servers u) v)
      else if is_field k ''info'' then map_option (\<lambda>x. u\<lparr>su_Info := x\<rparr>) (dec_str (su_Info u) v)
      else if is_field k ''autoselect'' then map_option (\<lambda>x. u\<lparr>su_AutoSelect := x\<rparr>) (dec_bool (su_AutoSelect u) v)
      else Some u)"

definition Bytes2SubscriptionRaw :: "'o cat_env \<Rightarrow> json \<Rightarrow> 'o subscription_raw option" where
  "Bytes2SubscriptionRaw env b =
     (case those (map (\<lambda>raw. serverObj_New env (stored_protocol env raw)) (gjson_Array (gjson_get b ''servers''))) of
        None \<Rightarrow> None
      | Some objs \<Rightarrow>
          dec_struct (subscription_field env)
            \<lparr>su_DatabaseID = 0, su_UpdateMode = ''disabled'', su_UpdateInterval = 0, su_FailureInterval = 1,
             su_AllowDirect = False, su_Remarks = [], su_Address = [], su_Status = [],
             su_Servers = map (\<lambda>x. \<lparr>sw_Obj = Some x, sw_Latency = []\<rparr>) objs, su_Info = [], su_AutoSelect = False\<rparr> b)"

definition ref_json :: "node_ref \<Rightarrow> json" where
  "ref_json r =
     JObj [(''_type'', JStr (nr_TYPE r)), (''id'', json_int (nr_ID r)), (''sub'', json_int (nr_Sub r)),
           (''outbound'', JStr (nr_Outbound r))]"

definition refs_json :: "node_ref list \<Rightarrow> json" where
  "refs_json rs = JObj [(''touches'', JArr (map ref_json rs))]"

definition ref_field :: "string \<Rightarrow> json \<Rightarrow> node_ref \<Rightarrow> node_ref option" where
  "ref_field k v r =
     (if is_field k ''_type'' then map_option (\<lambda>x. r\<lparr>nr_TYPE := x\<rparr>) (dec_str (nr_TYPE r) v)
      else if is_field k ''id'' then map_option (\<lambda>x. r\<lparr>nr_ID := x\<rparr>) (dec_int64 (nr_ID r) v)
      else if is_field k ''sub'' then map_option (\<lambda>x. r\<lparr>nr_Sub := x\<rparr>) (dec_int64 (nr_Sub r) v)
      else if is_field k ''outbound'' then map_option (\<lambda>x. r\<lparr>nr_Outbound := x\<rparr>) (dec_str (nr_Outbound r) v)
      else Some r)"

definition zero_ref :: node_ref where
  "zero_ref = \<lparr>nr_TYPE = [], nr_ID = 0, nr_Sub = 0, nr_Outbound = []\<rparr>"

definition dec_ref :: "json \<Rightarrow> node_ref option" where
  "dec_ref v = (if v = JNull then None else dec_struct ref_field zero_ref v)"

definition refs_field :: "string \<Rightarrow> json \<Rightarrow> node_ref list \<Rightarrow> node_ref list option" where
  "refs_field k v rs = (if is_field k ''touches'' then dec_list dec_ref v else Some rs)"

definition dec_refs :: "json \<Rightarrow> node_ref list option" where
  "dec_refs v = dec_struct refs_field [] v"

section \<open>Servers and subscriptions\<close>

definition GetServers :: "'o cat_env \<Rightarrow> 'o server_raw list db_op" where
  "GetServers env =
     and_then (attempt ServersGetAll) (\<lambda>raw. ret
       (case raw of Inl _ \<Rightarrow> [] | Inr js \<Rightarrow> List.map_filter (Bytes2ServerRaw env) js))"

definition GetSubscriptions :: "'o cat_env \<Rightarrow> 'o subscription_raw list db_op" where
  "GetSubscriptions env =
     and_then (attempt SubscriptionsGetAll) (\<lambda>raw. ret
       (case raw of Inl _ \<Rightarrow> [] | Inr js \<Rightarrow> List.map_filter (Bytes2SubscriptionRaw env) js))"

definition GetSubscription :: "'o cat_env \<Rightarrow> int \<Rightarrow> 'o subscription_raw option db_op" where
  "GetSubscription env index =
     and_then (attempt (SubscriptionsGet index)) (\<lambda>b. ret
       (case b of Inl _ \<Rightarrow> None | Inr j \<Rightarrow> Bytes2SubscriptionRaw env j))"

definition SetServer :: "'o cat_env \<Rightarrow> int \<Rightarrow> 'o server_raw \<Rightarrow> unit db_op" where
  "SetServer env index server = ServersSet index (server_json env server)"

definition SetSubscription :: "'o cat_env \<Rightarrow> int \<Rightarrow> 'o subscription_raw \<Rightarrow> unit db_op" where
  "SetSubscription env index subscription =
     SubscriptionsSet (ca_gjson env) index (subscription_json env subscription) None"

definition AppendServers :: "'o cat_env \<Rightarrow> 'o server_raw list \<Rightarrow> unit db_op" where
  "AppendServers env servers = ServersAppend (JArr (map (server_json env) servers))"

definition AppendSubscriptions :: "'o cat_env \<Rightarrow> 'o subscription_raw list \<Rightarrow> unit db_op" where
  "AppendSubscriptions env subs = SubscriptionsAppend (ca_gjson env) (JArr (map (subscription_json env) subs))"

definition GetLenServers :: "int db_op" where
  "GetLenServers = ServersLen"

definition GetLenSubscriptions :: "int db_op" where
  "GetLenSubscriptions = SubscriptionsLen"

definition GetLenSubscriptionServers :: "int \<Rightarrow> int db_op" where
  "GetLenSubscriptionServers index =
     and_then (SubscriptionsGet index) (\<lambda>b. ret (int (length (gjson_Array (gjson_get b ''servers'')))))"

section \<open>Locating a node\<close>

record 'o locator =
  lo_servers :: "'o server_raw list option"
  lo_subscriptions :: "'o subscription_raw list option"

definition NewLocator :: "'o locator" where
  "NewLocator = \<lparr>lo_servers = None, lo_subscriptions = None\<rparr>"

definition LocatorOf :: "'o server_raw list \<Rightarrow> 'o subscription_raw list \<Rightarrow> 'o locator" where
  "LocatorOf servers subs = \<lparr>lo_servers = Some servers, lo_subscriptions = Some subs\<rparr>"

definition Locator_Servers :: "'o cat_env \<Rightarrow> 'o locator \<Rightarrow> ('o server_raw list \<times> 'o locator) db_op" where
  "Locator_Servers env l =
     (case lo_servers l of
        Some servers \<Rightarrow> ret (servers, l)
      | None \<Rightarrow> and_then (GetServers env) (\<lambda>servers. ret (servers, l\<lparr>lo_servers := Some servers\<rparr>)))"

definition Locator_Subscriptions :: "'o cat_env \<Rightarrow> 'o locator \<Rightarrow> ('o subscription_raw list \<times> 'o locator) db_op" where
  "Locator_Subscriptions env l =
     (case lo_subscriptions l of
        Some subs \<Rightarrow> ret (subs, l)
      | None \<Rightarrow> and_then (GetSubscriptions env) (\<lambda>subs. ret (subs, l\<lparr>lo_subscriptions := Some subs\<rparr>)))"

definition in_bounds :: "int \<Rightarrow> 'a list \<Rightarrow> bool" where
  "in_bounds i xs \<longleftrightarrow> 0 \<le> i \<and> i < int (length xs)"

text \<open>The node of a reference, or the code of the error.\<close>

definition locate_in :: "'o server_raw list \<Rightarrow> 'o subscription_raw list \<Rightarrow> node_ref \<Rightarrow> string + 'o server_raw" where
  "locate_in servers subs w =
     (let ind = nr_ID w - 1
      in if nr_TYPE w = ServerType then
           (if in_bounds ind servers then Inr (servers ! nat ind) else Inl ''SERVER_NOT_FOUND'')
         else if nr_TYPE w = SubscriptionServerType then
           (if in_bounds (nr_Sub w) subs \<and> in_bounds ind (su_Servers (subs ! nat (nr_Sub w)))
            then Inr (su_Servers (subs ! nat (nr_Sub w)) ! nat ind) else Inl ''SUBSCRIPTION_SERVER_NOT_FOUND'')
         else Inl ''UNKNOWN_ITEM_TYPE'')"

definition Locate :: "'o cat_env \<Rightarrow> 'o locator \<Rightarrow> node_ref \<Rightarrow> ((string + 'o server_raw) \<times> 'o locator) db_op" where
  "Locate env l w =
     (if nr_TYPE w = ServerType then
        and_then (Locator_Servers env l) (\<lambda>(servers, l). ret (locate_in servers [] w, l))
      else if nr_TYPE w = SubscriptionServerType then
        and_then (Locator_Subscriptions env l) (\<lambda>(subs, l). ret (locate_in [] subs w, l))
      else ret (locate_in [] [] w, l))"

definition LocateServerRaw :: "'o cat_env \<Rightarrow> node_ref \<Rightarrow> 'o server_raw db_op" where
  "LocateServerRaw env w =
     and_then (Locate env NewLocator w) (\<lambda>(r, _). case r of Inl code \<Rightarrow> fail (Coded code) | Inr x \<Rightarrow> ret x)"

end
