(* ===== verification/Go_Time.thy ===== *)
theory Go_Time
  imports Go_Text
begin

text \<open>
  \<open>time.ParseDuration\<close>: an optional sign and a sequence of decimal numbers, each with an optional
  fraction and a unit. Go adds a fraction through a 64-bit float; here it is computed exactly and
  rounded down, which may differ by a nanosecond.
\<close>

fun leadingInt :: "int \<Rightarrow> string \<Rightarrow> (int \<times> string) option" where
  "leadingInt x [] = Some (x, [])"
| "leadingInt x (c # s) =
     (case digit c of
        None \<Rightarrow> Some (x, c # s)
      | Some d \<Rightarrow>
          if x > 2 ^ 63 div 10 then None
          else let y = x * 10 + int d in if y > 2 ^ 63 then None else leadingInt y s)"

fun leadingFraction :: "int \<Rightarrow> int \<Rightarrow> bool \<Rightarrow> string \<Rightarrow> int \<times> int \<times> string" where
  "leadingFraction x scale overflow [] = (x, scale, [])"
| "leadingFraction x scale overflow (c # s) =
     (case digit c of
        None \<Rightarrow> (x, scale, c # s)
      | Some d \<Rightarrow>
          if overflow \<or> x > (2 ^ 63 - 1) div 10 \<or> x * 10 + int d > 2 ^ 63
          then leadingFraction x scale True s
          else leadingFraction (x * 10 + int d) (scale * 10) False s)"

definition microsecond_sign :: string where
  "microsecond_sign = [CHR 0xC2, CHR 0xB5]"

definition greek_mu :: string where
  "greek_mu = [CHR 0xCE, CHR 0xBC]"

definition unit_of :: "string \<Rightarrow> int option" where
  "unit_of u =
     (if u = ''ns'' then Some 1
      else if u = ''us'' \<or> u = microsecond_sign @ ''s'' \<or> u = greek_mu @ ''s'' then Some 1000
      else if u = ''ms'' then Some millisecond
      else if u = ''s'' then Some second
      else if u = ''m'' then Some (60 * second)
      else if u = ''h'' then Some (3600 * second)
      else None)"

definition unit_char :: "char \<Rightarrow> bool" where
  "unit_char c \<longleftrightarrow> c \<noteq> CHR ''.'' \<and> digit c = None"

text \<open>One number with its unit, in nanoseconds, and the rest.\<close>

definition duration_item :: "string \<Rightarrow> (int \<times> string) option" where
  "duration_item s =
     (case leadingInt 0 s of
        None \<Rightarrow> None
      | Some (v, s1) \<Rightarrow>
          let pre = s1 \<noteq> s;
              (f, scale, s2) = (if s1 \<noteq> [] \<and> hd s1 = CHR ''.'' then leadingFraction 0 1 False (tl s1) else (0, 1, s1));
              post = (s1 \<noteq> [] \<and> hd s1 = CHR ''.'' \<and> s2 \<noteq> tl s1);
              u = takeWhile unit_char s2
          in if \<not> pre \<and> \<not> post then None
             else (case unit_of u of
                None \<Rightarrow> None
              | Some ns \<Rightarrow>
                  if v > 2 ^ 63 div ns then None
                  else let w = v * ns + f * ns div scale
                       in if w > 2 ^ 63 then None else Some (w, dropWhile unit_char s2)))"

text \<open>Every item takes a character, so the length of the text is enough fuel.\<close>

fun duration_items :: "nat \<Rightarrow> int \<Rightarrow> string \<Rightarrow> int option" where
  "duration_items n d [] = Some d"
| "duration_items 0 d s = None"
| "duration_items (Suc n) d s =
     (case duration_item s of
        None \<Rightarrow> None
      | Some (v, rest) \<Rightarrow> if d + v > 2 ^ 63 then None else duration_items n (d + v) rest)"

definition ParseDuration :: "string \<Rightarrow> duration option" where
  "ParseDuration s =
     (let signed = s \<noteq> [] \<and> (hd s = CHR ''-'' \<or> hd s = CHR ''+'');
          neg = (s \<noteq> [] \<and> hd s = CHR ''-'');
          t = (if signed then tl s else s)
      in if t = ''0'' then Some 0
         else if t = [] then None
         else (case duration_items (length t) 0 t of
                 None \<Rightarrow> None
               | Some d \<Rightarrow> if neg then Some (- d) else if d > 2 ^ 63 - 1 then None else Some d))"

lemma leadingInt_length: "leadingInt x s = Some (v, r) \<Longrightarrow> length r \<le> length s"
  by (induction s arbitrary: x) (fastforce simp: Let_def split: option.splits if_splits)+

lemma leadingFraction_length: "leadingFraction x sc b s = (f, sc', r) \<Longrightarrow> length r \<le> length s"
  by (induction x sc b s arbitrary: f sc' rule: leadingFraction.induct) (fastforce split: option.splits if_splits)+

lemma unit_of_nonempty: "unit_of u = Some n \<Longrightarrow> u \<noteq> []"
  by (auto simp: unit_of_def microsecond_sign_def greek_mu_def split: if_splits)

lemma duration_item_shorter: "duration_item s = Some (w, r) \<Longrightarrow> length r < length s"
proof -
  assume i: "duration_item s = Some (w, r)"
  obtain v s1 where v: "leadingInt 0 s = Some (v, s1)"
    using i by (auto simp: duration_item_def split: option.splits)
  obtain f sc s2 where f: "(if s1 \<noteq> [] \<and> hd s1 = CHR ''.'' then leadingFraction 0 1 False (tl s1) else (0, 1, s1)) = (f, sc, s2)"
    by (metis prod_cases3)
  have r: "r = dropWhile unit_char s2" "takeWhile unit_char s2 \<noteq> []"
    using i v f unit_of_nonempty [of "[]"]
    by (auto simp: duration_item_def Let_def split: option.splits if_splits prod.splits)
  have "length s2 \<le> length s1"
    using f leadingFraction_length [of 0 1 False "tl s1" f sc s2] by (auto split: if_splits)
  moreover have "length s1 \<le> length s" using leadingInt_length [OF v] .
  moreover have "length r < length s2"
    using r arg_cong [OF takeWhile_dropWhile_id [of unit_char s2], of length] by (cases "takeWhile unit_char s2") auto
  ultimately show ?thesis by linarith
qed

lemma duration_items_fuel: "length s \<le> n \<Longrightarrow> length s \<le> m \<Longrightarrow> duration_items n d s = duration_items m d s"
proof (induction n arbitrary: m d s)
  case (Suc n)
  then show ?case
  proof (cases s)
    case (Cons c cs)
    with Suc.prems obtain k where m: "m = Suc k" by (cases m) auto
    show ?thesis
    proof (cases "duration_item s")
      case (Some p)
      obtain v rest where p: "p = (v, rest)" by (cases p)
      have "length rest < length s" using duration_item_shorter Some p by blast
      with Suc.prems m have "duration_items n (d + v) rest = duration_items k (d + v) rest"
        by (intro Suc.IH) auto
      with Some p m Cons show ?thesis by simp
    qed (use m Cons in simp)
  qed simp
qed simp

end
