(* ===== verification/Catalog_Groups.thy ===== *)
theory Catalog_Groups
  imports Catalog Go_Time
begin

text \<open>
  Groups of connected nodes and lists of selected items (\<open>which.go\<close>, \<open>outbound.go\<close> and the outbound
  part of \<open>configure.go\<close> under \<open>service/db/configure\<close>): the outbounds and their settings, the list of
  references stored per outbound, and the sorting and checking of a list of items a request
  names.
\<close>

section \<open>Connected references\<close>

definition conn_bucket :: "string \<Rightarrow> string" where
  "conn_bucket outbound = ''outbound.'' @ outbound"

abbreviation connKey :: string where "connKey \<equiv> ''connectedServers''"

definition EqualTo :: "node_ref \<Rightarrow> node_ref \<Rightarrow> bool" where
  "EqualTo w another \<longleftrightarrow>
     (if nr_TYPE w = SubscriptionServerType then
        nr_TYPE another = nr_TYPE w \<and> nr_Sub another = nr_Sub w \<and> nr_ID another = nr_ID w
        \<and> nr_Outbound another = nr_Outbound w
      else if nr_TYPE w = ServerType then
        nr_TYPE another = nr_TYPE w \<and> nr_ID another = nr_ID w \<and> nr_Outbound another = nr_Outbound w
      else if nr_TYPE w = SubscriptionType then nr_TYPE another = nr_TYPE w \<and> nr_ID another = nr_ID w
      else False)"

definition or_proxy :: "string \<Rightarrow> string" where
  "or_proxy outbound = (if outbound = [] then DefaultOutboundName else outbound)"

definition normal_ref :: "node_ref \<Rightarrow> node_ref" where
  "normal_ref v = v\<lparr>nr_Outbound := or_proxy (nr_Outbound v)\<rparr>"

definition GetConnectedServersByOutbound :: "string \<Rightarrow> node_ref list option db_op" where
  "GetConnectedServersByOutbound outbound =
     and_then (attempt (Get dec_refs (conn_bucket (or_proxy outbound)) connKey)) (\<lambda>r. ret
       (case r of Inl _ \<Rightarrow> None | Inr rs \<Rightarrow> Some rs))"

text \<open>The names in use: \<open>proxy\<close> first, the others in order.\<close>

definition GetOutbounds :: "string list db_op" where
  "GetOutbounds =
     and_then (attempt (SetMembers ''outbounds'' ''names'')) (\<lambda>r. ret
       (DefaultOutboundName # sort (filter (\<lambda>m. m \<noteq> DefaultOutboundName) (case r of Inl _ \<Rightarrow> [] | Inr ms \<Rightarrow> ms))))"

definition GetConnectedServers :: "node_ref list option db_op" where
  "GetConnectedServers =
     and_then GetOutbounds (\<lambda>outbounds.
     and_then (collect GetConnectedServersByOutbound outbounds) (\<lambda>lists. ret
       (let wts = concat (map (\<lambda>l. case l of None \<Rightarrow> [] | Some rs \<Rightarrow> rs) lists)
        in if wts = [] then None else Some wts)))"

definition refs_of :: "node_ref list option \<Rightarrow> node_ref list" where
  "refs_of rs = (case rs of None \<Rightarrow> [] | Some l \<Rightarrow> l)"

definition ClearConnects :: "string \<Rightarrow> unit db_op" where
  "ClearConnects outbound = setValue (conn_bucket (or_proxy outbound)) connKey JNull"

definition AddConnect :: "node_ref \<Rightarrow> unit db_op" where
  "AddConnect wt0 =
     (let wt = normal_ref wt0; bucket = conn_bucket (nr_Outbound wt)
      in and_then (attempt (Get dec_refs bucket connKey)) (\<lambda>r.
           let wcs = map normal_ref (case r of Inl _ \<Rightarrow> [] | Inr rs \<Rightarrow> rs)
           in if \<exists>v \<in> set wcs. EqualTo v wt then ret ()
              else setValue bucket connKey (refs_json (wcs @ [wt]))))"

text \<open>The references of each outbound that occurs in a list.\<close>

definition group_of :: "node_ref list \<Rightarrow> string \<Rightarrow> node_ref list" where
  "group_of ws out = filter (\<lambda>w. nr_Outbound w = out) ws"

definition byOutbound :: "node_ref list \<Rightarrow> (string \<times> node_ref list) list" where
  "byOutbound ws = map (\<lambda>out. (out, group_of ws out)) (remdups (map nr_Outbound ws))"

definition set_groups :: "(string \<times> node_ref list) list \<Rightarrow> string list \<Rightarrow> unit db_op" where
  "set_groups groups outs =
     for_each (\<lambda>out. setValue (conn_bucket out) connKey
       (refs_json (case map_of groups out of None \<Rightarrow> [] | Some refs \<Rightarrow> refs))) outs"

definition OverwriteConnects :: "'o cat_env \<Rightarrow> node_ref list \<Rightarrow> unit db_op" where
  "OverwriteConnects env ws = set_groups (byOutbound ws) (ca_range env (map fst (byOutbound ws)))"

fun remove_first :: "('a \<Rightarrow> bool) \<Rightarrow> 'a list \<Rightarrow> 'a list option" where
  "remove_first P [] = None"
| "remove_first P (x # xs) = (if P x then Some xs else map_option (\<lambda>ys. x # ys) (remove_first P xs))"

definition RemoveConnect :: "node_ref \<Rightarrow> unit db_op" where
  "RemoveConnect wt0 =
     (let wt = normal_ref wt0; bucket = conn_bucket (nr_Outbound wt)
      in and_then (attempt (Get dec_refs bucket connKey)) (\<lambda>r.
           case remove_first (\<lambda>v. EqualTo v wt) (map normal_ref (case r of Inl _ \<Rightarrow> [] | Inr rs \<Rightarrow> rs)) of
             Some wcs \<Rightarrow> setValue bucket connKey (refs_json wcs)
           | None \<Rightarrow> fail (Failed ''not connected'')))"

definition RemoveNodes :: "'o cat_env \<Rightarrow> int list \<Rightarrow> int list \<Rightarrow> node_ref list \<Rightarrow> unit db_op" where
  "RemoveNodes env subscriptions servers conns =
     and_then GetOutbounds (\<lambda>outs.
       RemoveTx subscriptions servers
         (set_groups (byOutbound conns) (ca_range env (remdups (map nr_Outbound conns @ outs)))))"

text \<open>An outbound without a reference is written as the nil slice.\<close>

definition nil_refs_json :: "node_ref list \<Rightarrow> json" where
  "nil_refs_json rs = (if rs = [] then JObj [(''touches'', JNull)] else refs_json rs)"

definition SetSubscriptionAndConnects ::
    "'o cat_env \<Rightarrow> int \<Rightarrow> 'o subscription_raw \<Rightarrow> node_ref list \<Rightarrow> unit db_op" where
  "SetSubscriptionAndConnects env index subscription ws =
     SubscriptionsSet (ca_gjson env) index (subscription_json env subscription)
       (Some (and_then GetConnectedServers (\<lambda>conns.
          for_each (\<lambda>out. setValue (conn_bucket out) connKey (nil_refs_json (group_of ws out)))
            (ca_range env (remdups (map nr_Outbound (refs_of conns) @ map nr_Outbound ws))))))"

section \<open>Outbounds\<close>

record outbound_setting =
  os_AutoAdd :: bool
  os_ProbeURL :: string
  os_ProbeInterval :: string
  os_Type :: string
  os_Selected :: string
  os_StickyCurrent :: string

abbreviation LeastPing :: string where "LeastPing \<equiv> ''leastping''"
abbreviation KeepCurrent :: string where "KeepCurrent \<equiv> ''keepcurrent''"

definition DefaultOutboundSetting :: outbound_setting where
  "DefaultOutboundSetting =
     \<lparr>os_AutoAdd = False, os_ProbeURL = ''https://www.gstatic.com/generate_204'', os_ProbeInterval = ''60s'',
      os_Type = LeastPing, os_Selected = [], os_StickyCurrent = []\<rparr>"

definition omit_empty :: "string \<Rightarrow> string \<Rightarrow> (string \<times> json) list" where
  "omit_empty k v = (if v = [] then [] else [(k, JStr v)])"

definition outbound_json :: "outbound_setting \<Rightarrow> json" where
  "outbound_json o' =
     JObj ([(''autoAdd'', JBool (os_AutoAdd o')), (''probeURL'', JStr (os_ProbeURL o')),
            (''probeInterval'', JStr (os_ProbeInterval o')), (''type'', JStr (os_Type o'))]
         @ omit_empty ''selected'' (os_Selected o') @ omit_empty ''stickyCurrent'' (os_StickyCurrent o'))"

definition outbound_field :: "string \<Rightarrow> json \<Rightarrow> outbound_setting \<Rightarrow> outbound_setting option" where
  "outbound_field k v o' =
     (if is_field k ''autoadd'' then map_option (\<lambda>x. o'\<lparr>os_AutoAdd := x\<rparr>) (dec_bool (os_AutoAdd o') v)
      else if is_field k ''probeurl'' then map_option (\<lambda>x. o'\<lparr>os_ProbeURL := x\<rparr>) (dec_str (os_ProbeURL o') v)
      else if is_field k ''probeinterval''
        then map_option (\<lambda>x. o'\<lparr>os_ProbeInterval := x\<rparr>) (dec_str (os_ProbeInterval o') v)
      else if is_field k ''type'' then map_option (\<lambda>x. o'\<lparr>os_Type := x\<rparr>) (dec_str (os_Type o') v)
      else if is_field k ''selected'' then map_option (\<lambda>x. o'\<lparr>os_Selected := x\<rparr>) (dec_str (os_Selected o') v)
      else if is_field k ''stickycurrent''
        then map_option (\<lambda>x. o'\<lparr>os_StickyCurrent := x\<rparr>) (dec_str (os_StickyCurrent o') v)
      else Some o')"

definition zero_outbound :: outbound_setting where
  "zero_outbound =
     \<lparr>os_AutoAdd = False, os_ProbeURL = [], os_ProbeInterval = [], os_Type = [], os_Selected = [],
      os_StickyCurrent = []\<rparr>"

definition SetOutboundSetting :: "string \<Rightarrow> outbound_setting \<Rightarrow> unit db_op" where
  "SetOutboundSetting outbound setting =
     (if ParseDuration (os_ProbeInterval setting) = None then fail (Failed ''probe interval'')
      else setValue (conn_bucket outbound) ''setting'' (outbound_json setting))"

definition GetOutboundSetting :: "string \<Rightarrow> outbound_setting db_op" where
  "GetOutboundSetting outbound =
     and_then (attempt (Get (dec_struct outbound_field zero_outbound) (conn_bucket outbound) ''setting''))
       (\<lambda>r. ret (case r of Inl _ \<Rightarrow> DefaultOutboundSetting | Inr setting \<Rightarrow> setting))"

definition InitDefaultOutbound :: "unit db_op" where
  "InitDefaultOutbound =
     and_then (attempt (SetMembers ''outbounds'' ''names'')) (\<lambda>r.
       case r of
         Inl _ \<Rightarrow> SetAdd ''outbounds'' ''names'' (JStr DefaultOutboundName)
       | Inr members \<Rightarrow>
           if DefaultOutboundName \<in> set members then ret ()
           else SetAdd ''outbounds'' ''names'' (JStr DefaultOutboundName))"

definition AddOutbound :: "string \<Rightarrow> unit db_op" where
  "AddOutbound outbound =
     (if outbound = ''proxy'' \<or> outbound = ''direct'' \<or> outbound = ''block'' then fail (Failed ''reserved'')
      else and_then (SetAdd ''outbounds'' ''names'' (JStr outbound))
             (\<lambda>_. SetOutboundSetting outbound DefaultOutboundSetting))"

definition RemoveOutbound :: "string \<Rightarrow> unit db_op" where
  "RemoveOutbound outbound =
     and_then (BucketClear (conn_bucket outbound)) (\<lambda>_. SetRemove ''outbounds'' ''names'' (JStr outbound))"

fun any_group :: "(outbound_setting \<Rightarrow> bool) \<Rightarrow> string list \<Rightarrow> bool db_op" where
  "any_group P [] s = (Inr False, s)"
| "any_group P (name # names) s =
     (case GetOutboundSetting name s of
        (Inl e, s') \<Rightarrow> (Inl e, s')
      | (Inr setting, s') \<Rightarrow> if P setting then (Inr True, s') else any_group P names s')"

definition HasAutomaticGroup :: "bool db_op" where
  "HasAutomaticGroup = and_then GetOutbounds (any_group os_AutoAdd)"

definition HasFailClosedGroup :: "bool db_op" where
  "HasFailClosedGroup =
     and_then GetOutbounds (any_group (\<lambda>setting. os_AutoAdd setting \<or> os_Type setting = KeepCurrent))"

section \<open>Items of a request\<close>

abbreviation ref_of :: "which \<Rightarrow> node_ref" where
  "ref_of w \<equiv> node_ref.truncate w"

definition quantifyType :: "string \<Rightarrow> nat" where
  "quantifyType typ = (if typ = SubscriptionType then 1 else if typ = SubscriptionServerType then 2 else 0)"

definition Less :: "which \<Rightarrow> which \<Rightarrow> bool" where
  "Less a b \<longleftrightarrow>
     (if nr_TYPE a \<noteq> nr_TYPE b then quantifyType (nr_TYPE a) < quantifyType (nr_TYPE b)
      else if nr_TYPE a = ServerType then nr_ID a < nr_ID b
      else if nr_Sub a \<noteq> nr_Sub b then nr_Sub a < nr_Sub b
      else nr_ID a < nr_ID b)"

text \<open>\<open>sort.Sort\<close>, by insertion. The order of items neither of which is less is unspecified; the
  list it is used on comes out of a map in an arbitrary order, so all outcomes are covered.\<close>

fun insert_less :: "which \<Rightarrow> which list \<Rightarrow> which list" where
  "insert_less x [] = [x]"
| "insert_less x (y # ys) = (if Less y x then y # insert_less x ys else x # y # ys)"

definition Whiches_Sort :: "which list \<Rightarrow> which list" where
  "Whiches_Sort ws = foldr insert_less ws []"

text \<open>The inner loop: items \<open>b, \<dots>, e - 1\<close> are exchanged pairwise.\<close>

definition swap_range :: "nat \<Rightarrow> nat \<Rightarrow> 'a list \<Rightarrow> 'a list" where
  "swap_range b e xs = fold (\<lambda>j ys. ys[b + j := ys ! (e - j - 1), e - j - 1 := ys ! (b + j)]) [0..<(e - b) div 2] xs"

definition run_step :: "nat \<Rightarrow> which list \<times> nat \<times> string \<Rightarrow> which list \<times> nat \<times> string" where
  "run_step i st =
     (case st of (xs, begn, typ0) \<Rightarrow>
        let typ = (if typ0 = [] then nr_TYPE (xs ! 0) else typ0)
        in if nr_TYPE (xs ! i) \<noteq> typ then (swap_range begn i xs, i, nr_TYPE (xs ! i)) else (xs, begn, typ))"

definition SortSameTypeReverse :: "which list \<Rightarrow> which list" where
  "SortSameTypeReverse ws =
     (case fold run_step [0..<length ws] (Whiches_Sort ws, 0, []) of
        (xs, begn, _) \<Rightarrow> if int begn < int (length ws) - 1 then swap_range begn (length ws) xs else xs)"

definition in_range :: "which \<Rightarrow> bool db_op" where
  "in_range v =
     (let ind = nr_ID v - 1
      in if nr_TYPE v = SubscriptionType then
           (if ind \<ge> 0 then and_then GetLenSubscriptions (\<lambda>n. ret (ind < n)) else ret False)
         else if nr_TYPE v = ServerType then
           (if ind \<ge> 0 then and_then GetLenServers (\<lambda>n. ret (ind < n)) else ret False)
         else if nr_TYPE v = SubscriptionServerType then
           (if nr_Sub v \<ge> 0 then
              and_then GetLenSubscriptions (\<lambda>n.
                if nr_Sub v < n \<and> ind \<ge> 0
                then and_then (GetLenSubscriptionServers (nr_Sub v)) (\<lambda>m. ret (ind < m)) else ret False)
            else ret False)
         else ret False)"

text \<open>The map keeps the last item of each reference.\<close>

definition GetNonDuplicated :: "'o cat_env \<Rightarrow> which list \<Rightarrow> which list db_op" where
  "GetNonDuplicated env ws =
     and_then (collect (\<lambda>v. and_then (in_range v) (\<lambda>b. ret (if b then [v] else []))) ws) (\<lambda>kept. ret
       (let ts = concat kept
        in map (\<lambda>k. last (filter (\<lambda>v. ref_of v = k) ts)) (ca_range_refs env (remdups (map node_ref.truncate ts)))))"

end
