(* ===== verification/Sql_Lists_Correct.thy ===== *)
theory Sql_Lists_Correct
  imports Sql_Lists
begin

text \<open>
  What the list operations promise: the tables hold two lists, the standalone servers and the
  subscriptions with their servers, and an operation on the tables is the operation of the same
  name on the lists. The invariant is that the ordinals of a list are \<open>0, 1, 2, \<dots>\<close> in the order of
  the row ids. A transaction has its whole effect or none, whichever statement fails.
\<close>

section \<open>Stores without faults\<close>

definition calm :: "store \<Rightarrow> bool" where
  "calm s \<longleftrightarrow> st_faults s = []"

definition with_tables :: "store \<Rightarrow> tables \<Rightarrow> store" where
  "with_tables s t = s\<lparr>st_tables := t\<rparr>"

lemma with_tables_simps [simp]:
  "st_tables (with_tables s t) = t" "st_faults (with_tables s t) = st_faults s"
  "with_tables (with_tables s t) t' = with_tables s t'" "with_tables s (st_tables s) = s"
  "calm (with_tables s t) = calm s"
  by (simp_all add: with_tables_def calm_def)

lemma sql_calm [simp]:
  "calm s \<Longrightarrow> sql f s = (Inr (fst (f (st_tables s))), with_tables s (snd (f (st_tables s))))"
  by (cases s) (simp add: sql_def calm_def with_tables_def case_prod_beta)

lemma query_calm [simp]: "calm s \<Longrightarrow> query f s = (Inr (f (st_tables s)), s)"
  by (simp add: query_def)

lemma exec_calm [simp]: "calm s \<Longrightarrow> exec f s = (Inr (), with_tables s (f (st_tables s)))"
  by (simp add: exec_def)

lemma and_then_sql [simp]:
  "calm s \<Longrightarrow> and_then (sql f) k s = k (fst (f (st_tables s))) (with_tables s (snd (f (st_tables s))))"
  "calm s \<Longrightarrow> and_then (query q) k s = k (q (st_tables s)) s"
  "calm s \<Longrightarrow> and_then (exec h) l s = l () (with_tables s (h (st_tables s)))"
  by (simp_all add: and_then_def)

lemma for_each_exec [simp]:
  "calm s \<Longrightarrow> for_each (\<lambda>x. exec (f x)) xs s = (Inr (), with_tables s (fold f xs (st_tables s)))"
  by (induction xs arbitrary: s) simp_all

lemma for_each_exec_prod [simp]:
  "calm s \<Longrightarrow> for_each (\<lambda>(i, x). exec (f i x)) xs s
     = (Inr (), with_tables s (fold (\<lambda>(i, x). f i x) xs (st_tables s)))"
  by (induction xs arbitrary: s) (auto simp: case_prod_beta)

lemma collect_query:
  "calm s \<Longrightarrow> collect (\<lambda>r. and_then (query (q r)) (\<lambda>x. ret (g r x))) rs s
     = (Inr (map (\<lambda>r. g r (q r (st_tables s))) rs), s)"
  by (rule collect_pure) simp

lemma ReadModifyWrite_calm:
  assumes "calm s" and "fn s = (r, s')" and "calm s'"
  shows "ReadModifyWrite fn s = (case r of Inl e \<Rightarrow> (Inl e, with_tables s' (st_tables s)) | Inr _ \<Rightarrow> (Inr (), s'))"
  using assms by (cases r) (simp_all add: ReadModifyWrite_def with_tables_def)

section \<open>Transactions\<close>

text \<open>An error of a transaction leaves the tables alone.\<close>

lemma sql_error: "sql f s = (Inl e, s') \<Longrightarrow> st_tables s' = st_tables s"
  by (auto simp: sql_def split: list.splits bool.splits prod.splits)

lemma query_tables: "query f s = (r, s') \<Longrightarrow> st_tables s' = st_tables s"
  by (auto simp: query_def sql_def split: list.splits bool.splits)

lemma query_value: "query f s = (Inr x, s') \<Longrightarrow> x = f (st_tables s)"
  by (auto simp: query_def sql_def split: list.splits bool.splits)

lemma ReadModifyWrite_error:
  "ReadModifyWrite fn s = (Inl e, s') \<Longrightarrow> st_tables s' = st_tables s"
proof -
  assume r: "ReadModifyWrite fn s = (Inl e, s')"
  obtain b s1 where b: "query (\<lambda>t. t) s = (b, s1)" by (cases "query (\<lambda>t. t) s")
  show ?thesis
  proof (cases b)
    case (Inl e1)
    with b r query_tables [OF b] show ?thesis by (simp add: ReadModifyWrite_def and_then_def)
  next
    case (Inr before)
    with b have "before = st_tables s" by (auto dest: query_value)
    with r b Inr show ?thesis
      by (auto simp: ReadModifyWrite_def and_then_def split: prod.splits sum.splits)
  qed
qed

text \<open>An operation that succeeds in spite of the faults it was exposed to has done what it does
  without any.\<close>

definition strict_op :: "'a db_op \<Rightarrow> bool" where
  "strict_op m \<longleftrightarrow> (\<forall>s x s'. m s = (Inr x, s') \<longrightarrow> m (s\<lparr>st_faults := []\<rparr>) = (Inr x, s'\<lparr>st_faults := []\<rparr>))"

lemma strict_opD: "strict_op m \<Longrightarrow> m s = (Inr x, s') \<Longrightarrow> m (s\<lparr>st_faults := []\<rparr>) = (Inr x, s'\<lparr>st_faults := []\<rparr>)"
  by (auto simp: strict_op_def)

named_theorems strict

lemma strict_sql [strict, simp]: "strict_op (sql f)"
  by (auto simp: strict_op_def sql_def split: list.splits bool.splits prod.splits)

lemma strict_query [strict, simp]: "strict_op (query f)"
  by (simp add: query_def)

lemma strict_exec [strict, simp]: "strict_op (exec f)"
  by (simp add: exec_def)

lemma strict_ret [strict, simp]: "strict_op (ret x)"
  by (simp add: strict_op_def)

lemma strict_fail [strict, simp]: "strict_op (fail e)"
  by (simp add: strict_op_def)

lemma strict_and_then [strict]:
  assumes "strict_op m" and "\<And>x. strict_op (k x)"
  shows "strict_op (and_then m k)"
  unfolding strict_op_def
proof (intro allI impI)
  fix s y s''
  assume "and_then m k s = (Inr y, s'')"
  then obtain x s' where m: "m s = (Inr x, s')" and k: "k x s' = (Inr y, s'')"
    by (auto simp: and_then_Inr)
  from strict_opD [OF assms(1) m] strict_opD [OF assms(2) k]
  show "and_then m k (s\<lparr>st_faults := []\<rparr>) = (Inr y, s''\<lparr>st_faults := []\<rparr>)"
    by (simp add: and_then_def)
qed

lemma strict_for_each [strict]:
  assumes "\<And>x. strict_op (f x)"
  shows "strict_op (for_each f xs)"
proof (induction xs)
  case (Cons x xs)
  have "for_each f (x # xs) = and_then (f x) (\<lambda>_. for_each f xs)"
    by (simp add: fun_eq_iff and_then_def)
  with strict_and_then [OF assms Cons.IH] show ?case by simp
qed (simp add: strict_op_def)

lemma strict_if [strict]: "strict_op a \<Longrightarrow> strict_op b \<Longrightarrow> strict_op (if c then a else b)"
  by simp

lemma strict_ReadModifyWrite [strict]:
  assumes "strict_op fn"
  shows "strict_op (ReadModifyWrite fn)"
  unfolding strict_op_def
proof (intro allI impI)
  fix s y s''
  assume r: "ReadModifyWrite fn s = (Inr y, s'')"
  obtain b s1 where q: "query (\<lambda>t. t) s = (Inr b, s1)"
    using r by (auto simp: ReadModifyWrite_def and_then_def split: prod.splits sum.splits)
  obtain u s2 where f: "fn s1 = (Inr u, s2)"
    using r q by (auto simp: ReadModifyWrite_def and_then_def split: prod.splits sum.splits)
  obtain v where e: "exec (\<lambda>t. t) s2 = (Inr v, s'')"
    using r q f by (auto simp: ReadModifyWrite_def and_then_def split: prod.splits sum.splits)
  from strict_opD [OF strict_query q] strict_opD [OF assms f] strict_opD [OF strict_exec e]
  show "ReadModifyWrite fn (s\<lparr>st_faults := []\<rparr>) = (Inr y, s''\<lparr>st_faults := []\<rparr>)"
    by (simp add: ReadModifyWrite_def and_then_def)
qed

section \<open>Ordinals\<close>

definition ordinals :: "nat \<Rightarrow> int list" where
  "ordinals n = map int [0..<n]"

lemma length_ordinals [simp]: "length (ordinals n) = n"
  by (simp add: ordinals_def)

lemma ordinals_0 [simp]: "ordinals 0 = []"
  by (simp add: ordinals_def)

lemma ordinals_Suc: "ordinals (Suc n) = ordinals n @ [int n]"
  by (simp add: ordinals_def)

lemma ordinals_Cons: "ordinals (Suc n) = 0 # map (\<lambda>i. i + 1) (ordinals n)"
  by (simp add: ordinals_def upt_conv_Cons map_Suc_upt [symmetric] comp_def del: upt_Suc)

lemma sorted_ordinals [simp]: "sorted_wrt (<) (ordinals n)"
  by (induction n) (auto simp: ordinals_Suc sorted_wrt_append ordinals_def)

lemma distinct_ordinals [simp]: "distinct (ordinals n)"
  by (simp add: ordinals_def distinct_map)

lemma set_ordinals [simp]: "set (ordinals n) = {0..<int n}"
  by (auto simp: ordinals_def image_int_atLeastLessThan)

lemma ordinals_nth [simp]: "i < n \<Longrightarrow> ordinals n ! i = int i"
  by (simp add: ordinals_def)

lemma next_sort_ordinals [simp]: "next_sort (ordinals n) = int n"
proof (cases n)
  case (Suc m)
  have "Max (set (ordinals n)) = int m"
    unfolding set_ordinals by (rule Max_eqI) (auto simp: Suc)
  with Suc show ?thesis
    by (simp add: next_sort_def ordinals_Suc)
qed (simp add: next_sort_def)

lemma rank_in_Cons: "rank_in (x # xs) y = (if x < y then 1 else 0) + rank_in xs y"
  by (simp add: rank_in_def)

lemma rank_in_below: "\<forall>y \<in> set xs. x < y \<Longrightarrow> rank_in xs x = 0"
  by (induction xs) (auto simp: rank_in_def)

lemma rank_sorted: "sorted_wrt (<) xs \<Longrightarrow> map (rank_in xs) xs = ordinals (length xs)"
proof (induction xs)
  case (Cons x xs)
  have "map (rank_in (x # xs)) xs = map (\<lambda>i. i + 1) (map (rank_in xs) xs)"
    using Cons.prems by (auto simp: rank_in_Cons)
  moreover have "rank_in (x # xs) x = 0"
    using Cons.prems by (simp add: rank_in_Cons rank_in_below)
  moreover have "map (rank_in xs) xs = ordinals (length xs)"
    using Cons by simp
  ultimately show ?case
    by (simp only: list.map ordinals_Cons list.size add_Suc_right add_0_right)
qed simp

text \<open>Rows in the order of their ordinals are in the order of \<open>ORDER BY\<close>.\<close>

lemma sort_key_ordinals: "map f rs = ordinals n \<Longrightarrow> sort_key f rs = rs"
  by (rule sort_key_id_if_sorted) (metis sorted_ordinals strict_sorted_imp_sorted)

lemma find_ordinal:
  assumes "map f rs = ordinals n"
  shows "find (\<lambda>r. f r = i) rs = (if 0 \<le> i \<and> i < int n then Some (rs ! nat i) else None)"
proof (cases "0 \<le> i \<and> i < int n")
  case True
  have len: "length rs = n" using assms by (metis length_map length_ordinals)
  have nth: "j < n \<Longrightarrow> f (rs ! j) = int j" for j
    using arg_cong [OF assms, of "\<lambda>xs. xs ! j"] len by simp
  have "find (\<lambda>r. f r = i) rs = Some (rs ! nat i)"
    unfolding find_Some_iff
  proof (intro exI conjI allI impI)
    show "nat i < length rs" "f (rs ! nat i) = i" using True len nth [of "nat i"] by auto
    show "f (rs ! j) \<noteq> i" if "j < nat i" for j using that True nth [of j] by linarith
  qed simp
  with True show ?thesis by simp
next
  case False
  have "i \<notin> f ` set rs"
    using False arg_cong [OF assms, of set] by auto
  with False show ?thesis by (auto simp: find_None_iff)
qed

lemma filter_ordinal:
  assumes "map f rs = ordinals n"
  shows "filter (\<lambda>r. P (f r)) rs = nths rs {i. P (int i)}"
proof -
  have len: "length rs = n" using assms by (metis length_map length_ordinals)
  have nth: "f (rs ! j) = int j" if "j < length rs" for j
    using arg_cong [OF assms, of "\<lambda>xs. xs ! j"] len that by simp
  have "filter (\<lambda>r. P (f r)) rs = nths rs {i. i < length rs \<and> P (f (rs ! i))}"
    by (rule filter_eq_nths)
  also have "\<dots> = nths rs {i. P (int i)}"
    unfolding nths_def using nth
    by (intro arg_cong [where f = "map fst"] filter_cong refl) (auto simp: set_zip)
  finally show ?thesis .
qed

lemma nths_one: "k < length xs \<Longrightarrow> nths xs {k} = [xs ! k]"
proof (induction xs arbitrary: k)
  case (Cons x xs)
  have "{j. Suc j \<in> {k}} = (case k of 0 \<Rightarrow> {} | Suc m \<Rightarrow> {m})" by (auto split: nat.splits)
  with Cons show ?case by (cases k) (simp_all add: nths_Cons)
qed simp

lemma filter_at_ordinal:
  assumes "map f rs = ordinals n" and "0 \<le> i" and "i < int n"
  shows "filter (\<lambda>r. f r = i) rs = [rs ! nat i]"
proof -
  have "length rs = n" using assms(1) by (metis length_map length_ordinals)
  moreover have "{k. int k = i} = {nat i}" using assms(2) by auto
  ultimately show ?thesis
    using filter_ordinal [OF assms(1), of "\<lambda>k. k = i"] nths_one [of "nat i" rs] assms(2,3) by simp
qed

lemma map_update_ordinal:
  assumes "map f rs = ordinals n" and "\<And>r. g (h r) = u" 
  shows "map g (map (\<lambda>r. if f r = i then h r else r) rs)
    = (if 0 \<le> i \<and> i < int n then (map g rs)[nat i := u] else map g rs)"
proof (rule nth_equalityI)
  have len: "length rs = n" using assms by (metis length_map length_ordinals)
  have nth: "f (rs ! j) = int j" if "j < length rs" for j
    using arg_cong [OF assms(1), of "\<lambda>xs. xs ! j"] len that by simp
  fix j
  assume "j < length (map g (map (\<lambda>r. if f r = i then h r else r) rs))"
  then show "map g (map (\<lambda>r. if f r = i then h r else r) rs) ! j
      = (if 0 \<le> i \<and> i < int n then (map g rs)[nat i := u] else map g rs) ! j"
    using nth [of j] assms(2) len by (auto simp: nth_list_update)
qed simp

section \<open>The catalog\<close>

text \<open>The two lists of the tables, and the invariant that makes ordinals positions.\<close>

definition servers_in :: "tables \<Rightarrow> json list" where
  "servers_in t = map rw_config (filter is_server (tb_servers t))"

definition members_in :: "tables \<Rightarrow> int \<Rightarrow> json list" where
  "members_in t sub = map rw_config (filter (is_member_of sub) (tb_servers t))"

definition subs_in :: "tables \<Rightarrow> (sub_row \<times> json list) list" where
  "subs_in t = map (\<lambda>r. (r\<lparr>sb_sort := 0\<rparr>, members_in t (sb_id r))) (tb_subs t)"

definition catalog_ok :: "tables \<Rightarrow> bool" where
  "catalog_ok t \<longleftrightarrow>
     map rw_sort (filter is_server (tb_servers t)) = ordinals (length (servers_in t))
   \<and> map sb_sort (tb_subs t) = ordinals (length (tb_subs t))
   \<and> (\<forall>i. map rw_sort (filter (is_member_of i) (tb_servers t)) = ordinals (length (members_in t i)))
   \<and> distinct (map sb_id (tb_subs t)) \<and> (\<forall>r \<in> set (tb_subs t). sb_id r \<le> tb_sub_seq t)
   \<and> (\<forall>i > tb_sub_seq t. members_in t i = [])
   \<and> distinct (map fst (tb_config t)) \<and> distinct (map fst (tb_names t))"

lemma catalog_okI:
  assumes "map rw_sort (filter is_server (tb_servers t)) = ordinals (length (servers_in t))"
    and "map sb_sort (tb_subs t) = ordinals (length (tb_subs t))"
    and "\<And>i. map rw_sort (filter (is_member_of i) (tb_servers t)) = ordinals (length (members_in t i))"
    and "distinct (map sb_id (tb_subs t))" and "\<And>r. r \<in> set (tb_subs t) \<Longrightarrow> sb_id r \<le> tb_sub_seq t"
    and "\<And>i. tb_sub_seq t < i \<Longrightarrow> members_in t i = []"
    and "distinct (map fst (tb_config t))" and "distinct (map fst (tb_names t))"
  shows "catalog_ok t"
  using assms by (simp add: catalog_ok_def)

lemma catalog_okD:
  assumes "catalog_ok t"
  shows "map rw_sort (filter is_server (tb_servers t)) = ordinals (length (servers_in t))"
    and "map sb_sort (tb_subs t) = ordinals (length (tb_subs t))"
    and "\<And>i. map rw_sort (filter (is_member_of i) (tb_servers t)) = ordinals (length (members_in t i))"
    and "distinct (map sb_id (tb_subs t))" and "\<And>r. r \<in> set (tb_subs t) \<Longrightarrow> sb_id r \<le> tb_sub_seq t"
    and "\<And>i. tb_sub_seq t < i \<Longrightarrow> members_in t i = []"
    and "distinct (map fst (tb_config t))" and "distinct (map fst (tb_names t))"
  using assms by (simp_all add: catalog_ok_def)

lemma lists_frame [simp]:
  "servers_in (t\<lparr>tb_subs := x\<rparr>) = servers_in t" "members_in (t\<lparr>tb_subs := x\<rparr>) i = members_in t i"
  "servers_in (t\<lparr>tb_config := y\<rparr>) = servers_in t" "members_in (t\<lparr>tb_config := y\<rparr>) i = members_in t i"
  by (simp_all add: servers_in_def members_in_def)

lemma length_subs_in [simp]: "length (subs_in t) = length (tb_subs t)"
  by (simp add: subs_in_def)

lemma member_not_server: "is_member_of i r \<Longrightarrow> \<not> is_server r"
  by (simp add: is_member_of_def is_server_def)

lemma filter_filter_not:
  "(\<And>x. P x \<Longrightarrow> \<not> Q x) \<Longrightarrow> filter P (filter (\<lambda>x. \<not> Q x) xs) = filter P xs"
  by (induction xs) auto

lemma members_apart [simp]: "is_member_of i r \<Longrightarrow> is_member_of j r \<longleftrightarrow> i = j"
  by (auto simp: is_member_of_def)

text \<open>The statements on the tables as operations on the lists.\<close>

lemma insert_server_frame [simp]:
  "tb_subs (insert_server ty sub c k t) = tb_subs t" "tb_config (insert_server ty sub c k t) = tb_config t"
  "tb_names (insert_server ty sub c k t) = tb_names t" "tb_sub_seq (insert_server ty sub c k t) = tb_sub_seq t"
  by (simp_all add: insert_server_def)

lemma insert_server_lists [simp]:
  "servers_in (insert_server ''server'' None c k t) = servers_in t @ [c]"
  "members_in (insert_server ''server'' None c k t) i = members_in t i"
  "servers_in (insert_server ''subscription_server'' (Some sub) c k t) = servers_in t"
  "members_in (insert_server ''subscription_server'' (Some sub) c k t) i
     = members_in t i @ (if i = sub then [c] else [])"
  by (simp_all add: insert_server_def servers_in_def members_in_def is_server_def is_member_of_def)

lemma append_server_ok:
  assumes "catalog_ok t"
  shows "catalog_ok (insert_server ''server'' None c (int (length (servers_in t))) t)"
  using catalog_okD [OF assms]
  by (intro catalog_okI)
    (simp_all add: ordinals_Suc, simp_all add: insert_server_def is_server_def is_member_of_def servers_in_def members_in_def)

lemma append_server_run:
  assumes "calm s" and "catalog_ok (st_tables s)"
  shows "append_server c s =
     (Inr (), with_tables s (insert_server ''server'' None c (int (length (servers_in (st_tables s)))) (st_tables s)))"
  using assms by (simp add: append_server_def catalog_okD(1) [OF assms(2)])

definition same_rest :: "tables \<Rightarrow> tables \<Rightarrow> bool" where
  "same_rest t t' \<longleftrightarrow> tb_config t' = tb_config t \<and> tb_names t' = tb_names t"

lemma same_rest_refl [simp]: "same_rest t t"
  by (simp add: same_rest_def)

lemma same_rest_trans [trans]: "same_rest t u \<Longrightarrow> same_rest u v \<Longrightarrow> same_rest t v"
  by (simp add: same_rest_def)

lemma append_servers:
  assumes "calm s" and "catalog_ok (st_tables s)"
  obtains t where "for_each append_server items s = (Inr (), with_tables s t)" and "catalog_ok t"
    and "servers_in t = servers_in (st_tables s) @ items" and "subs_in t = subs_in (st_tables s)"
    and "same_rest (st_tables s) t"
  using assms
proof (induction items arbitrary: s thesis)
  case Nil
  from Nil.prems(1) [of "st_tables s"] Nil.prems(2,3) show ?case by simp
next
  case (Cons c items)
  let ?t = "insert_server ''server'' None c (int (length (servers_in (st_tables s)))) (st_tables s)"
  from append_server_ok [OF Cons.prems(3), of c] Cons.prems(2)
  obtain t where t: "for_each append_server items (with_tables s ?t) = (Inr (), with_tables s t)" "catalog_ok t"
    "servers_in t = servers_in ?t @ items" "subs_in t = subs_in ?t" "same_rest ?t t"
    by (metis Cons.IH [of "with_tables s ?t"] with_tables_simps(1,3,5))
  show ?case
  proof (rule Cons.prems(1))
    show "for_each append_server (c # items) s = (Inr (), with_tables s t)"
      using append_server_run [OF Cons.prems(2,3), of c] t(1) by simp
    show "subs_in t = subs_in (st_tables s)"
      using t(4) by (simp add: subs_in_def)
    show "same_rest (st_tables s) t"
      using t(5) by (simp add: same_rest_def)
  qed (use t in simp_all)
qed

text \<open>Replacing a server.\<close>

lemma filter_server_update:
  "filter is_server (map (\<lambda>r. if is_server_at i r then r\<lparr>rw_config := v\<rparr> else r) rs)
     = map (\<lambda>r. if rw_sort r = i then r\<lparr>rw_config := v\<rparr> else r) (filter is_server rs)"
  by (induction rs) (auto simp: is_server_at_def is_server_def)

lemma filter_member_update:
  "filter (is_member_of j) (map (\<lambda>r. if is_server_at i r then r\<lparr>rw_config := v\<rparr> else r) rs)
     = filter (is_member_of j) rs"
  by (induction rs) (auto simp: is_server_at_def is_member_of_def is_server_def)

lemma server_at_iff:
  assumes "catalog_ok t"
  shows "filter (is_server_at i) (tb_servers t) = [] \<longleftrightarrow> \<not> (0 \<le> i \<and> i < int (length (servers_in t)))"
proof -
  have "filter (is_server_at i) (tb_servers t) = [] \<longleftrightarrow> i \<notin> rw_sort ` set (filter is_server (tb_servers t))"
    by (auto simp: filter_empty_conv is_server_at_def)
  also have "\<dots> \<longleftrightarrow> i \<notin> set (ordinals (length (servers_in t)))"
    using arg_cong [OF catalog_okD(1) [OF assms], of set] by simp
  finally show ?thesis by simp
qed

lemma ServersSet_miss:
  assumes "calm s" and "catalog_ok (st_tables s)" and "\<not> (0 \<le> i \<and> i < int (length (servers_in (st_tables s))))"
  shows "ServersSet i v s = (Inl (IndexNotFound i), s)"
proof -
  have none: "filter (is_server_at i) (tb_servers (st_tables s)) = []"
    using server_at_iff [OF assms(2)] assms(3) by simp
  then have "map (\<lambda>r. if is_server_at i r then r\<lparr>rw_config := v\<rparr> else r) (tb_servers (st_tables s))
      = tb_servers (st_tables s)"
    by (simp add: filter_empty_conv map_idI)
  with none assms(1) show ?thesis by (simp add: ServersSet_def)
qed

lemma ServersSet_hit:
  assumes "calm s" and "catalog_ok (st_tables s)" and "0 \<le> i" and "i < int (length (servers_in (st_tables s)))"
  obtains t where "ServersSet i v s = (Inr (), with_tables s t)" and "catalog_ok t"
    and "servers_in t = (servers_in (st_tables s))[nat i := v]"
    and "subs_in t = subs_in (st_tables s)" and "same_rest (st_tables s) t"
proof -
  let ?t = "st_tables s"
  let ?u = "?t\<lparr>tb_servers := map (\<lambda>r. if is_server_at i r then r\<lparr>rw_config := v\<rparr> else r) (tb_servers ?t)\<rparr>"
  note ok = catalog_okD [OF assms(2)]
  have list: "servers_in ?u = (servers_in ?t)[nat i := v]"
    unfolding servers_in_def
    using assms(3,4) map_update_ordinal [OF ok(1), of rw_config "\<lambda>r. r\<lparr>rw_config := v\<rparr>" v i]
    by (simp add: servers_in_def filter_server_update)
  have sorts: "map rw_sort (filter is_server (tb_servers ?u)) = map rw_sort (filter is_server (tb_servers ?t))"
    by (simp add: filter_server_update)
  have "ServersSet i v s = (Inr (), with_tables s ?u)"
    using assms server_at_iff [OF assms(2), of i] by (simp add: ServersSet_def)
  moreover have "catalog_ok ?u"
    using ok sorts list by (intro catalog_okI) (simp_all add: members_in_def filter_member_update)
  ultimately show thesis
    using that [of ?u] list by (simp add: same_rest_def subs_in_def members_in_def filter_member_update)
qed

text \<open>The servers of a subscription.\<close>

lemma insert_member_ok:
  assumes "catalog_ok t" and "sub \<le> tb_sub_seq t"
  shows "catalog_ok (insert_server ''subscription_server'' (Some sub) c (int (length (members_in t sub))) t)"
  using catalog_okD [OF assms(1)] assms(2)
  by (intro catalog_okI)
    (auto simp: ordinals_Suc, auto simp: insert_server_def is_server_def is_member_of_def servers_in_def members_in_def)

lemma insert_members_run:
  assumes "calm s" and "catalog_ok (st_tables s)" and "sub \<le> tb_sub_seq (st_tables s)"
    and "k = length (members_in (st_tables s) sub)"
  obtains t where
    "for_each (\<lambda>(j, cfg). exec (insert_server ''subscription_server'' (Some sub) cfg (int j))) (enumerate k cs) s
       = (Inr (), with_tables s t)"
    and "catalog_ok t" and "servers_in t = servers_in (st_tables s)" and "tb_subs t = tb_subs (st_tables s)"
    and "\<And>i. members_in t i = members_in (st_tables s) i @ (if i = sub then cs else [])"
    and "same_rest (st_tables s) t" and "tb_sub_seq t = tb_sub_seq (st_tables s)"
  using assms
proof (induction cs arbitrary: s k thesis)
  case Nil
  from Nil.prems(1) [of "st_tables s"] Nil.prems(2-) show ?case by simp
next
  case (Cons c cs)
  let ?t = "insert_server ''subscription_server'' (Some sub) c (int k) (st_tables s)"
  have ok: "catalog_ok ?t" using insert_member_ok [OF Cons.prems(3,4), of c] Cons.prems(5) by simp
  show ?case
  proof (rule Cons.IH [where s = "with_tables s ?t" and k = "Suc k"])
    fix t
    assume t: "for_each (\<lambda>(j, cfg). exec (insert_server ''subscription_server'' (Some sub) cfg (int j)))
        (enumerate (Suc k) cs) (with_tables s ?t) = (Inr (), with_tables (with_tables s ?t) t)"
      "catalog_ok t" "servers_in t = servers_in (st_tables (with_tables s ?t))"
      "tb_subs t = tb_subs (st_tables (with_tables s ?t))"
      "\<And>i. members_in t i = members_in (st_tables (with_tables s ?t)) i @ (if i = sub then cs else [])"
      "same_rest (st_tables (with_tables s ?t)) t" "tb_sub_seq t = tb_sub_seq (st_tables (with_tables s ?t))"
    show ?thesis
      by (rule Cons.prems(1) [of t]) (use t Cons.prems(2) in \<open>auto simp: same_rest_def\<close>)
  qed (use ok Cons.prems in simp_all)
qed

lemma sub_columns_simps [simp]:
  "sb_id (sub_columns g item r) = sb_id r" "sb_sort (sub_columns g item r) = sb_sort r"
  "(sub_columns g item r)\<lparr>sb_sort := k\<rparr> = sub_columns g item (r\<lparr>sb_sort := k\<rparr>)"
  by (simp_all add: sub_columns_def)

lemma new_sub_row_simps [simp]:
  "sb_id (new_sub_row i k) = i" "sb_sort (new_sub_row i k) = k"
  "(new_sub_row i k)\<lparr>sb_sort := 0\<rparr> = new_sub_row i 0"
  by (simp_all add: new_sub_row_def)

text \<open>Appending a subscription.\<close>

lemma insert_sub_ok:
  assumes "catalog_ok t"
  shows "catalog_ok (snd (insert_sub g item t))"
  using catalog_okD [OF assms]
  by (intro catalog_okI)
    (force simp: insert_sub_def Let_def ordinals_Suc servers_in_def members_in_def)+

lemma insert_sub_frame [simp]:
  "fst (insert_sub g item t) = tb_sub_seq t + 1" "tb_sub_seq (snd (insert_sub g item t)) = tb_sub_seq t + 1"
  "servers_in (snd (insert_sub g item t)) = servers_in t" "members_in (snd (insert_sub g item t)) i = members_in t i"
  "same_rest t (snd (insert_sub g item t))"
  by (simp_all add: insert_sub_def Let_def servers_in_def members_in_def same_rest_def)

lemma append_sub_run:
  assumes "calm s" and "catalog_ok (st_tables s)"
  obtains t where "append_sub g item s = (Inr (), with_tables s t)" and "catalog_ok t"
    and "servers_in t = servers_in (st_tables s)"
    and "subs_in t = subs_in (st_tables s) @
      [(sub_columns g item (new_sub_row (tb_sub_seq (st_tables s) + 1) 0), gjson_Array (gjson_get item ''servers''))]"
    and "same_rest (st_tables s) t"
    and "tb_sub_seq t = tb_sub_seq (st_tables s) + 1"
proof -
  let ?t = "st_tables s" and ?cs = "gjson_Array (gjson_get item ''servers'')"
  let ?u = "snd (insert_sub g item ?t)" and ?i = "tb_sub_seq ?t + 1"
  note ok = catalog_okD [OF assms(2)]
  have none: "members_in ?u ?i = []" using ok(6) [of ?i] by simp
  show thesis
  proof (rule insert_members_run [of "with_tables s ?u" ?i 0 ?cs])
    fix t
    assume t: "for_each (\<lambda>(j, cfg). exec (insert_server ''subscription_server'' (Some ?i) cfg (int j)))
        (enumerate 0 ?cs) (with_tables s ?u) = (Inr (), with_tables (with_tables s ?u) t)"
      "catalog_ok t" "servers_in t = servers_in (st_tables (with_tables s ?u))"
      "tb_subs t = tb_subs (st_tables (with_tables s ?u))"
      "\<And>i. members_in t i = members_in (st_tables (with_tables s ?u)) i @ (if i = ?i then ?cs else [])"
      "same_rest (st_tables (with_tables s ?u)) t" "tb_sub_seq t = tb_sub_seq (st_tables (with_tables s ?u))"
    have "append_sub g item s = (Inr (), with_tables s t)"
      using assms(1) t(1) by (simp add: append_sub_def insert_members_def)
    moreover have "subs_in t = subs_in ?t @ [(sub_columns g item (new_sub_row ?i 0), ?cs)]"
    proof -
      have "members_in t (sb_id r) = members_in ?t (sb_id r)" if "r \<in> set (tb_subs ?t)" for r
        using t(5) [of "sb_id r"] ok(5) [OF that] by simp
      moreover have "members_in t ?i = ?cs" using t(5) [of ?i] none by simp
      ultimately show ?thesis
        using t(4) by (simp add: subs_in_def insert_sub_def Let_def)
    qed
    moreover have "same_rest ?t t"
      using t(6) same_rest_trans [of ?t ?u t] by simp
    ultimately show thesis
      using that [of t] t(2,3,7) by simp
  qed (use assms insert_sub_ok [OF assms(2)] none in simp_all)
qed

text \<open>Replacing a subscription.\<close>

lemma setSubscription_miss:
  assumes "calm s" and "catalog_ok (st_tables s)" and "\<not> (0 \<le> i \<and> i < int (length (tb_subs (st_tables s))))"
  shows "setSubscription g i item s = (Inl (IndexNotFound i), s)"
proof -
  have "i \<notin> sb_sort ` set (tb_subs (st_tables s))"
    using assms(3) arg_cong [OF catalog_okD(2) [OF assms(2)], of set] by auto
  then have none: "filter (\<lambda>r. sb_sort r = i) (tb_subs (st_tables s)) = []"
    by (auto simp: filter_empty_conv)
  then have "map (\<lambda>r. if sb_sort r = i then sub_columns g item r else r) (tb_subs (st_tables s)) = tb_subs (st_tables s)"
    by (simp add: filter_empty_conv map_idI)
  with none assms(1) show ?thesis by (simp add: setSubscription_def)
qed

definition drop_members :: "int \<Rightarrow> tables \<Rightarrow> tables" where
  "drop_members sub t = t\<lparr>tb_servers := filter (\<lambda>r. \<not> is_member_of sub r) (tb_servers t)\<rparr>"

lemma drop_members_lists [simp]:
  "servers_in (drop_members sub t) = servers_in t"
  "members_in (drop_members sub t) i = (if i = sub then [] else members_in t i)"
  "tb_subs (drop_members sub t) = tb_subs t" "tb_sub_seq (drop_members sub t) = tb_sub_seq t"
  "same_rest t (drop_members sub t)"
proof -
  have "filter is_server (filter (\<lambda>r. \<not> is_member_of sub r) rs) = filter is_server rs" for rs
    by (rule filter_filter_not) (auto dest: member_not_server)
  moreover have "filter (is_member_of i) (filter (\<lambda>r. \<not> is_member_of sub r) rs) = (if i = sub then [] else filter (is_member_of i) rs)" for rs
    by (induction rs) auto
  ultimately show "servers_in (drop_members sub t) = servers_in t"
    "members_in (drop_members sub t) i = (if i = sub then [] else members_in t i)"
    "tb_subs (drop_members sub t) = tb_subs t" "tb_sub_seq (drop_members sub t) = tb_sub_seq t"
    "same_rest t (drop_members sub t)"
    by (simp_all add: drop_members_def servers_in_def members_in_def same_rest_def)
qed

lemma drop_members_rows:
  "filter is_server (tb_servers (drop_members sub t)) = filter is_server (tb_servers t)"
  "filter (is_member_of i) (tb_servers (drop_members sub t))
     = (if i = sub then [] else filter (is_member_of i) (tb_servers t))"
proof -
  show "filter is_server (tb_servers (drop_members sub t)) = filter is_server (tb_servers t)"
    by (simp add: drop_members_def) (rule filter_filter_not [unfolded filter_filter], auto dest: member_not_server)
  show "filter (is_member_of i) (tb_servers (drop_members sub t))
     = (if i = sub then [] else filter (is_member_of i) (tb_servers t))"
    by (auto simp: drop_members_def filter_empty_conv intro: filter_cong)
qed

lemma drop_members_ok: "catalog_ok t \<Longrightarrow> catalog_ok (drop_members sub t)"
  using catalog_okD [of t]
  using drop_members_lists(5) [of t sub, unfolded same_rest_def]
  by (intro catalog_okI) (simp_all add: drop_members_rows)

lemma setSubscription_hit:
  assumes "calm s" and "catalog_ok (st_tables s)" and "0 \<le> i" and "i < int (length (tb_subs (st_tables s)))"
  obtains t where "setSubscription g i item s = (Inr (), with_tables s t)" and "catalog_ok t"
    and "servers_in t = servers_in (st_tables s)"
    and "subs_in t = (subs_in (st_tables s))[nat i :=
      (sub_columns g item (fst (subs_in (st_tables s) ! nat i)), gjson_Array (gjson_get item ''servers''))]"
    and "same_rest (st_tables s) t"
proof -
  let ?t = "st_tables s" and ?cs = "gjson_Array (gjson_get item ''servers'')"
  let ?f = "\<lambda>r. if sb_sort r = i then sub_columns g item r else r"
  let ?t1 = "?t\<lparr>tb_subs := map ?f (tb_subs ?t)\<rparr>" and ?r = "tb_subs ?t ! nat i"
  let ?u = "drop_members (sb_id ?r) ?t1"
  note ok = catalog_okD [OF assms(2)]
  have nth: "sb_sort (tb_subs ?t ! j) = int j" if "j < length (tb_subs ?t)" for j
    using arg_cong [OF ok(2), of "\<lambda>xs. xs ! j"] that by simp
  have row: "?r \<in> set (tb_subs ?t)" using assms(3,4) by simp
  have hit: "filter (\<lambda>r. sb_sort r = i) (tb_subs ?t) = [?r]"
    using ok(2) assms(3,4) by (rule filter_at_ordinal)
  have ok1: "catalog_ok ?t1"
    using ok by (intro catalog_okI) (auto simp: servers_in_def members_in_def comp_def if_distrib cong: if_cong)
  have none: "members_in ?u (sb_id ?r) = []" by simp
  show thesis
  proof (rule insert_members_run [of "with_tables s ?u" "sb_id ?r" 0 ?cs])
    fix t
    assume t: "for_each (\<lambda>(j, cfg). exec (insert_server ''subscription_server'' (Some (sb_id ?r)) cfg (int j)))
        (enumerate 0 ?cs) (with_tables s ?u) = (Inr (), with_tables (with_tables s ?u) t)"
      "catalog_ok t" "servers_in t = servers_in (st_tables (with_tables s ?u))"
      "tb_subs t = tb_subs (st_tables (with_tables s ?u))"
      "\<And>j. members_in t j = members_in (st_tables (with_tables s ?u)) j @ (if j = sb_id ?r then ?cs else [])"
      "same_rest (st_tables (with_tables s ?u)) t"
    have mem: "members_in t j = (if j = sb_id ?r then ?cs else members_in ?t j)" for j
      using t(5) [of j] by simp
    have "setSubscription g i item s = (Inr (), with_tables s t)"
      using assms(1) t(1) hit by (simp add: setSubscription_def insert_members_def drop_members_def)
    moreover have "subs_in t = (subs_in ?t)[nat i := (sub_columns g item (fst (subs_in ?t ! nat i)), ?cs)]"
    proof (rule nth_equalityI)
      fix j
      assume "j < length (subs_in t)"
      then have j: "j < length (tb_subs ?t)" using t(4) by simp
      have "sb_id (tb_subs ?t ! j) = sb_id ?r \<longleftrightarrow> j = nat i"
        using nth_eq_iff_index_eq [OF ok(4), of j "nat i"] j assms(3,4) by simp
      with j nth [OF j] assms(3,4) show "subs_in t ! j = (subs_in ?t)[nat i := (sub_columns g item (fst (subs_in ?t ! nat i)), ?cs)] ! j"
        by (simp add: subs_in_def t(4) mem nth_list_update)
    qed (simp add: t(4))
    moreover have "same_rest ?t t"
      using t(6) by (simp add: same_rest_def drop_members_def)
    ultimately show thesis
      using that [of t] t(2,3) by simp
  qed (use assms drop_members_ok [OF ok1] none ok(5) [OF row] in simp_all)
qed

section \<open>Removal\<close>

definition remove_at :: "int list \<Rightarrow> 'a list \<Rightarrow> 'a list" where
  "remove_at is xs = nths xs {j. int j \<notin> set is}"

lemma remove_at_map: "remove_at is (map f xs) = map f (remove_at is xs)"
  by (simp add: remove_at_def nths_map)

lemma strict_sorted_filter: "sorted_wrt (<) (map f xs) \<Longrightarrow> sorted_wrt (<) (map f (filter P xs))"
  by (induction xs) auto

lemma fold_delete_server:
  "fold delete_server is t = t\<lparr>tb_servers := filter (\<lambda>r. \<not> (is_server r \<and> rw_sort r \<in> set is)) (tb_servers t)\<rparr>"
  by (induction "is" arbitrary: t)
    (auto simp: delete_server_def is_server_at_def intro!: filter_cong arg_cong [where f = "\<lambda>x. tables.tb_servers_update x _"])

lemma renumber_servers_rows:
  "filter is_server (tb_servers (renumber_servers t)) =
     map (\<lambda>r. r\<lparr>rw_sort := rank_in (map rw_sort (filter is_server (tb_servers t))) (rw_sort r)\<rparr>)
       (filter is_server (tb_servers t))"
  "filter (is_member_of i) (tb_servers (renumber_servers t)) = filter (is_member_of i) (tb_servers t)"
proof -
  have "filter is_server (map (\<lambda>r. if is_server r then r\<lparr>rw_sort := h r\<rparr> else r) rs) =
      map (\<lambda>r. r\<lparr>rw_sort := h r\<rparr>) (filter is_server rs)" for h :: "server_row \<Rightarrow> int" and rs
    by (induction rs) (auto simp: is_server_def)
  then show "filter is_server (tb_servers (renumber_servers t)) =
     map (\<lambda>r. r\<lparr>rw_sort := rank_in (map rw_sort (filter is_server (tb_servers t))) (rw_sort r)\<rparr>)
       (filter is_server (tb_servers t))"
    by (simp add: renumber_servers_def)
  have "filter (is_member_of i) (map (\<lambda>r. if is_server r then r\<lparr>rw_sort := h r\<rparr> else r) rs) =
      filter (is_member_of i) rs" for h :: "server_row \<Rightarrow> int" and rs
    by (induction rs) (auto simp: is_server_def is_member_of_def)
  then show "filter (is_member_of i) (tb_servers (renumber_servers t)) = filter (is_member_of i) (tb_servers t)"
    by (simp add: renumber_servers_def)
qed

lemma renumber_servers_frame [simp]:
  "servers_in (renumber_servers t) = servers_in t" "members_in (renumber_servers t) i = members_in t i"
  "tb_subs (renumber_servers t) = tb_subs t" "tb_sub_seq (renumber_servers t) = tb_sub_seq t"
  "same_rest t (renumber_servers t)"
  by (simp_all add: servers_in_def members_in_def renumber_servers_rows comp_def)
    (simp_all add: renumber_servers_def same_rest_def)

lemma serversRemove_run:
  assumes "calm s" and "catalog_ok (st_tables s)" and "is \<noteq> []"
  obtains t where "serversRemove is s = (Inr (), with_tables s t)" and "catalog_ok t"
    and "servers_in t = remove_at is (servers_in (st_tables s))" and "subs_in t = subs_in (st_tables s)"
    and "same_rest (st_tables s) t"
proof -
  let ?t = "st_tables s"
  let ?d = "?t\<lparr>tb_servers := filter (\<lambda>r. \<not> (is_server r \<and> rw_sort r \<in> set is)) (tb_servers ?t)\<rparr>"
  let ?u = "renumber_servers ?d"
  note ok = catalog_okD [OF assms(2)]
  have srv: "filter is_server (tb_servers ?d) = filter (\<lambda>r. rw_sort r \<notin> set is) (filter is_server (tb_servers ?t))"
    by (auto intro: filter_cong)
  have mem: "filter (is_member_of i) (tb_servers ?d) = filter (is_member_of i) (tb_servers ?t)" for i
    by (auto dest: member_not_server intro: filter_cong)
  have sorted: "sorted_wrt (<) (map rw_sort (filter is_server (tb_servers ?d)))"
    unfolding srv by (rule strict_sorted_filter) (simp only: ok(1) sorted_ordinals)
  have list: "servers_in ?u = remove_at is (servers_in ?t)"
  proof -
    have "servers_in ?u = map rw_config (filter is_server (tb_servers ?d))"
      by (subst renumber_servers_frame(1)) (rule servers_in_def)
    then show ?thesis
      unfolding srv filter_ordinal [OF ok(1), of "\<lambda>k. k \<notin> set is"]
      by (simp add: remove_at_def nths_map servers_in_def)
  qed
  have "catalog_ok ?u"
    using ok rank_sorted [OF sorted] mem
    by (intro catalog_okI) (simp_all add: renumber_servers_rows comp_def,
      simp_all add: members_in_def servers_in_def renumber_servers_def)
  moreover have "serversRemove is s = (Inr (), with_tables s ?u)"
    using assms(1,3) by (simp add: serversRemove_def and_then_def fold_delete_server)
  moreover have "subs_in ?u = subs_in ?t"
    by (simp add: subs_in_def) (simp add: members_in_def mem [simplified])
  moreover have "same_rest ?t ?u"
    by (simp add: same_rest_def renumber_servers_def)
  ultimately show thesis using that [of ?u] list by simp
qed

text \<open>Removing subscriptions: first the rows, with their servers, then the renumbering.\<close>

definition remove_sub_rows :: "int \<Rightarrow> tables \<Rightarrow> tables" where
  "remove_sub_rows idx t =
     (case find (\<lambda>r. sb_sort r = idx) (tb_subs t) of
        None \<Rightarrow> t
      | Some r \<Rightarrow> (drop_members (sb_id r) t)\<lparr>tb_subs := filter (\<lambda>x. sb_id x \<noteq> sb_id r) (tb_subs t)\<rparr>)"

lemma remove_sub_run:
  "calm s \<Longrightarrow> remove_sub idx s = (Inr (), with_tables s (remove_sub_rows idx (st_tables s)))"
  by (simp add: remove_sub_def remove_sub_rows_def drop_members_def split: option.splits)

lemma for_each_remove_sub:
  "calm s \<Longrightarrow> for_each remove_sub is s = (Inr (), with_tables s (fold remove_sub_rows is (st_tables s)))"
  by (induction "is" arbitrary: s) (simp_all add: remove_sub_run)

lemma remove_sub_rows_frame [simp]:
  "servers_in (remove_sub_rows idx t) = servers_in t" "same_rest t (remove_sub_rows idx t)"
  "tb_sub_seq (remove_sub_rows idx t) = tb_sub_seq t"
  "filter is_server (tb_servers (remove_sub_rows idx t)) = filter is_server (tb_servers t)"
  by (simp_all add: remove_sub_rows_def same_rest_def drop_members_rows split: option.splits)
    (simp_all add: drop_members_def)

lemma remove_sub_rows_subs:
  assumes "distinct (map sb_id (tb_subs t))" and "distinct (map sb_sort (tb_subs t))"
  shows "tb_subs (remove_sub_rows idx t) = filter (\<lambda>r. sb_sort r \<noteq> idx) (tb_subs t)"
    and "filter (is_member_of i) (tb_servers (remove_sub_rows idx t)) =
      (if i \<in> sb_id ` {r \<in> set (tb_subs t). sb_sort r = idx} then [] else filter (is_member_of i) (tb_servers t))"
proof -
  have "tb_subs (remove_sub_rows idx t) = filter (\<lambda>r. sb_sort r \<noteq> idx) (tb_subs t) \<and>
    filter (is_member_of i) (tb_servers (remove_sub_rows idx t)) =
      (if i \<in> sb_id ` {r \<in> set (tb_subs t). sb_sort r = idx} then [] else filter (is_member_of i) (tb_servers t))"
  proof (cases "find (\<lambda>r. sb_sort r = idx) (tb_subs t)")
    case None
    then have "\<forall>r \<in> set (tb_subs t). sb_sort r \<noteq> idx" by (simp add: find_None_iff)
    then have "filter (\<lambda>r. sb_sort r \<noteq> idx) (tb_subs t) = tb_subs t" "{r \<in> set (tb_subs t). sb_sort r = idx} = {}"
      by (auto simp: filter_id_conv)
    with None show ?thesis by (simp only: remove_sub_rows_def) auto
  next
    case (Some r)
    then have r: "r \<in> set (tb_subs t)" "sb_sort r = idx" by (auto dest: find_Some_conv)
    have same: "sb_id x = sb_id r \<longleftrightarrow> sb_sort x = idx" if "x \<in> set (tb_subs t)" for x
      using assms r that by (metis distinct_map inj_onD)
    then have "filter (\<lambda>x. sb_id x \<noteq> sb_id r) (tb_subs t) = filter (\<lambda>r. sb_sort r \<noteq> idx) (tb_subs t)"
      by (intro filter_cong) auto
    moreover have "{x \<in> set (tb_subs t). sb_sort x = idx} = {x \<in> set (tb_subs t). sb_id x = sb_id r}"
      using same by auto
    then have "i \<in> sb_id ` {x \<in> set (tb_subs t). sb_sort x = idx} \<longleftrightarrow> i = sb_id r"
      using r by auto
    ultimately show ?thesis
      using Some by (simp add: remove_sub_rows_def drop_members_rows)
  qed
  then show "tb_subs (remove_sub_rows idx t) = filter (\<lambda>r. sb_sort r \<noteq> idx) (tb_subs t)"
    and "filter (is_member_of i) (tb_servers (remove_sub_rows idx t)) =
      (if i \<in> sb_id ` {r \<in> set (tb_subs t). sb_sort r = idx} then [] else filter (is_member_of i) (tb_servers t))"
    by blast+
qed

lemma fold_remove_sub:
  assumes "distinct (map sb_id (tb_subs t))" and "distinct (map sb_sort (tb_subs t))"
  shows "tb_subs (fold remove_sub_rows is t) = filter (\<lambda>r. sb_sort r \<notin> set is) (tb_subs t)
    \<and> filter (is_member_of i) (tb_servers (fold remove_sub_rows is t)) =
      (if i \<in> sb_id ` {r \<in> set (tb_subs t). sb_sort r \<in> set is} then [] else filter (is_member_of i) (tb_servers t))
    \<and> filter is_server (tb_servers (fold remove_sub_rows is t)) = filter is_server (tb_servers t)
    \<and> tb_sub_seq (fold remove_sub_rows is t) = tb_sub_seq t \<and> same_rest t (fold remove_sub_rows is t)"
  using assms
proof (induction "is" arbitrary: t)
  case (Cons idx "is")
  let ?t = "remove_sub_rows idx t"
  note one = remove_sub_rows_subs [OF Cons.prems]
  have "distinct (map sb_id (tb_subs ?t))" "distinct (map sb_sort (tb_subs ?t))"
    unfolding one(1) using Cons.prems by (simp_all add: distinct_map_filter)
  note ih = Cons.IH [OF this]
  have "same_rest t (fold remove_sub_rows is ?t)"
    using ih same_rest_trans [of t ?t] by simp
  moreover have "tb_subs (fold remove_sub_rows is ?t) = filter (\<lambda>r. sb_sort r \<notin> set (idx # is)) (tb_subs t)"
    using ih one(1) by (auto intro: filter_cong)
  moreover have "filter (is_member_of i) (tb_servers (fold remove_sub_rows is ?t)) =
      (if i \<in> sb_id ` {r \<in> set (tb_subs t). sb_sort r \<in> set (idx # is)} then [] else filter (is_member_of i) (tb_servers t))"
  proof -
    have "i \<in> sb_id ` {r \<in> set (tb_subs t). sb_sort r \<in> set (idx # is)} \<longleftrightarrow>
       i \<in> sb_id ` {r \<in> set (tb_subs ?t). sb_sort r \<in> set is} \<or> i \<in> sb_id ` {r \<in> set (tb_subs t). sb_sort r = idx}"
      unfolding one(1) by auto
    with ih one(2) [of i] show ?thesis by (auto split: if_splits)
  qed
  ultimately show ?case using ih by simp
qed simp

lemma renumber_subs_frame [simp]:
  "tb_servers (renumber_subs t) = tb_servers t" "servers_in (renumber_subs t) = servers_in t"
  "members_in (renumber_subs t) i = members_in t i" "tb_sub_seq (renumber_subs t) = tb_sub_seq t"
  "same_rest t (renumber_subs t)" "subs_in (renumber_subs t) = subs_in t"
  by (simp_all add: renumber_subs_def servers_in_def members_in_def same_rest_def subs_in_def comp_def)

lemma subscriptionsRemove_run:
  assumes "calm s" and "catalog_ok (st_tables s)" and "is \<noteq> []"
  obtains t where "subscriptionsRemove is s = (Inr (), with_tables s t)" and "catalog_ok t"
    and "servers_in t = servers_in (st_tables s)" and "subs_in t = remove_at is (subs_in (st_tables s))"
    and "same_rest (st_tables s) t"
proof -
  let ?t = "st_tables s" and ?d = "fold remove_sub_rows is (st_tables s)"
  let ?u = "renumber_subs ?d"
  note ok = catalog_okD [OF assms(2)]
  have ids: "distinct (map sb_id (tb_subs ?t))" "distinct (map sb_sort (tb_subs ?t))"
    using ok(2,4) by simp_all
  note del = fold_remove_sub [OF ids, of "is"]
  have subs: "tb_subs ?d = filter (\<lambda>r. sb_sort r \<notin> set is) (tb_subs ?t)" using del by blast
  have mem: "members_in ?d i = (if i \<in> sb_id ` {r \<in> set (tb_subs ?t). sb_sort r \<in> set is} then [] else members_in ?t i)" for i
    using del [of i] by (simp add: members_in_def)
  have sorted: "sorted_wrt (<) (map sb_sort (tb_subs ?d))"
    unfolding subs by (rule strict_sorted_filter) (simp only: ok(2) sorted_ordinals)
  have "catalog_ok ?u"
  proof (rule catalog_okI)
    show "map rw_sort (filter is_server (tb_servers ?u)) = ordinals (length (servers_in ?u))"
      using ok(1) del by (simp add: servers_in_def)
    show "map sb_sort (tb_subs ?u) = ordinals (length (tb_subs ?u))"
      using rank_sorted [OF sorted] by (simp add: renumber_subs_def comp_def)
    show "map rw_sort (filter (is_member_of i) (tb_servers ?u)) = ordinals (length (members_in ?u i))" for i
      using ok(3) [of i] del [of i] by (simp add: members_in_def)
    show "distinct (map sb_id (tb_subs ?u))"
      using ids(1) subs by (simp add: renumber_subs_def comp_def distinct_map_filter)
    show "sb_id r \<le> tb_sub_seq ?u" if "r \<in> set (tb_subs ?u)" for r
      using ok(5) that subs del by (auto simp: renumber_subs_def)
    show "members_in ?u i = []" if "tb_sub_seq ?u < i" for i
      using ok(6) [of i] that del mem [of i] by simp
    show "distinct (map fst (tb_config ?u))" "distinct (map fst (tb_names ?u))"
      using ok(7,8) del by (simp_all add: same_rest_def renumber_subs_def)
  qed
  moreover have "subscriptionsRemove is s = (Inr (), with_tables s ?u)"
    using assms(1,3) by (simp add: subscriptionsRemove_def and_then_def for_each_remove_sub)
  moreover have "subs_in ?u = remove_at is (subs_in ?t)"
  proof -
    have "members_in ?d (sb_id r) = members_in ?t (sb_id r)" if "r \<in> set (tb_subs ?d)" for r
    proof -
      have "r \<in> set (tb_subs ?t)" "sb_sort r \<notin> set is" using that subs by auto
      then have "sb_id r \<notin> sb_id ` {r \<in> set (tb_subs ?t). sb_sort r \<in> set is}"
        using ids by (metis (no_types, lifting) CollectD distinct_map imageE inj_onD)
      then show ?thesis using mem by simp
    qed
    then have "subs_in ?d = map (\<lambda>r. (r\<lparr>sb_sort := 0\<rparr>, members_in ?t (sb_id r))) (tb_subs ?d)"
      by (simp add: subs_in_def)
    also have "\<dots> = remove_at is (subs_in ?t)"
      unfolding subs filter_ordinal [OF ok(2), of "\<lambda>k. k \<notin> set is"]
      by (simp add: subs_in_def remove_at_def nths_map)
    finally show ?thesis by simp
  qed
  moreover have "same_rest ?t ?u"
    using del same_rest_trans [of ?t ?d ?u] by simp
  moreover have "servers_in ?u = servers_in ?t"
    using del by (simp add: servers_in_def)
  ultimately show thesis using that [of ?u] by blast
qed

section \<open>Reading\<close>

lemma sort_servers:
  assumes "catalog_ok t"
  shows "map rw_config (sort_key rw_sort (filter is_server (tb_servers t))) = servers_in t"
    and "member_configs i t = members_in t i" and "sort_key sb_sort (tb_subs t) = tb_subs t"
  using catalog_okD [OF assms]
  by (simp_all add: sort_key_ordinals [OF catalog_okD(1) [OF assms]] sort_key_ordinals [OF catalog_okD(2) [OF assms]]
      sort_key_ordinals [OF catalog_okD(3) [OF assms]] servers_in_def member_configs_def members_in_def)

definition sub_json :: "sub_row \<times> json list \<Rightarrow> json" where
  "sub_json p = subscriptionJSON (fst p) (snd p)"

lemma subscriptionJSON_sort [simp]: "subscriptionJSON (r\<lparr>sb_sort := k\<rparr>) cs = subscriptionJSON r cs"
  by (simp add: subscriptionJSON_def)

lemma reads:
  assumes "calm s" and "catalog_ok (st_tables s)"
  shows "ServersGetAll s = (Inr (servers_in (st_tables s)), s)"
    and "SubscriptionsGetAll s = (Inr (map sub_json (subs_in (st_tables s))), s)"
    and "ServersLen s = (Inr (int (length (servers_in (st_tables s)))), s)"
    and "SubscriptionsLen s = (Inr (int (length (subs_in (st_tables s)))), s)"
    and "SubscriptionsGet i s =
      (if 0 \<le> i \<and> i < int (length (subs_in (st_tables s)))
       then Inr (sub_json (subs_in (st_tables s) ! nat i)) else Inl EmptyList, s)"
    and "serversGet i s =
      (if 0 \<le> i \<and> i < int (length (servers_in (st_tables s)))
       then Inr (servers_in (st_tables s) ! nat i) else Inl EmptyList, s)"
proof -
  note sorted = sort_servers [OF assms(2)]
  show "ServersGetAll s = (Inr (servers_in (st_tables s)), s)"
    using assms(1) sorted(1) by (simp add: ServersGetAll_def)
  show "SubscriptionsGetAll s = (Inr (map sub_json (subs_in (st_tables s))), s)"
    using assms(1) sorted(2,3)
    by (simp add: SubscriptionsGetAll_def collect_query subs_in_def sub_json_def)
  show "ServersLen s = (Inr (int (length (servers_in (st_tables s)))), s)"
    "SubscriptionsLen s = (Inr (int (length (subs_in (st_tables s)))), s)"
    using assms(1) by (simp_all add: ServersLen_def SubscriptionsLen_def servers_in_def)
  show "SubscriptionsGet i s =
      (if 0 \<le> i \<and> i < int (length (subs_in (st_tables s)))
       then Inr (sub_json (subs_in (st_tables s) ! nat i)) else Inl EmptyList, s)"
    using assms(1) sorted(2) find_ordinal [OF catalog_okD(2) [OF assms(2)], of i]
    by (auto simp: SubscriptionsGet_def subs_in_def sub_json_def)
  have "find (is_server_at i) rs = find (\<lambda>r. rw_sort r = i) (filter is_server rs)" for rs
    by (induction rs) (auto simp: is_server_at_def)
  then show "serversGet i s =
      (if 0 \<le> i \<and> i < int (length (servers_in (st_tables s)))
       then Inr (servers_in (st_tables s) ! nat i) else Inl EmptyList, s)"
    using assms(1) find_ordinal [OF catalog_okD(1) [OF assms(2)], of i]
    by (auto simp: serversGet_def servers_in_def)
qed

end
