(* ===== verification/Catalog_Correct.thy ===== *)
theory Catalog_Correct
  imports Catalog_Groups Sql_Lists_Correct
begin

text \<open>
  Properties of the catalog: what is stored is read back, the group operations change exactly the
  list of one outbound, a removal is atomic under faults, and the lists of a store without faults
  are functions of its tables.
\<close>

section \<open>Reading back references\<close>

definition small :: "int \<Rightarrow> bool" where
  "small i \<longleftrightarrow> - (2 ^ 63) \<le> i \<and> i < 2 ^ 63"

definition small_ref :: "node_ref \<Rightarrow> bool" where
  "small_ref r \<longleftrightarrow> small (nr_ID r) \<and> small (nr_Sub r)"

lemmas json_name_simps = is_field_def ToLower_def to_lower_simps Let_def

lemma dec_ref_json: "small_ref r \<Longrightarrow> dec_ref (ref_json r) = Some r"
  by (simp add: dec_ref_def ref_json_def ref_field_def zero_ref_def small_ref_def small_def json_name_simps)

lemma dec_refs_json:
  assumes "list_all small_ref rs"
  shows "dec_refs (refs_json rs) = Some rs"
proof -
  have "those (map (dec_ref \<circ> ref_json) rs) = Some (map id rs)"
    using assms by (intro those_map_Some) (auto simp: list_all_iff dec_ref_json)
  then show ?thesis
    by (simp add: dec_refs_def refs_json_def refs_field_def json_name_simps)
qed

lemma dec_refs_null [simp]: "dec_refs JNull = Some []"
  by (simp add: dec_refs_def)

lemma dec_nil_refs_json:
  assumes "list_all small_ref rs"
  shows "dec_refs (nil_refs_json rs) = Some rs"
  using dec_refs_json [OF assms]
  by (auto simp: nil_refs_json_def) (simp add: dec_refs_def refs_field_def json_name_simps)

lemma dec_outbound_json: "dec_struct outbound_field zero_outbound (outbound_json st) = Some st"
  by (cases "os_Selected st = []"; cases "os_StickyCurrent st = []")
    (simp_all add: outbound_json_def outbound_field_def zero_outbound_def omit_empty_def json_name_simps)

section \<open>Keys\<close>

lemma conn_key_eq [simp]: "makeKey (conn_bucket a) connKey = makeKey (conn_bucket b) connKey \<longleftrightarrow> a = b"
  by (simp add: makeKey_def conn_bucket_def)

lemma setting_key_eq [simp]: "makeKey (conn_bucket a) ''setting'' = makeKey (conn_bucket b) ''setting'' \<longleftrightarrow> a = b"
  by (simp add: makeKey_def conn_bucket_def)

lemma conn_bucket_not_accounts [simp]: "conn_bucket a \<noteq> ''accounts''" "''accounts'' \<noteq> conn_bucket a"
  by (simp_all add: conn_bucket_def)

lemma last_neq_append: "last x \<noteq> last y \<Longrightarrow> x \<noteq> [] \<Longrightarrow> y \<noteq> [] \<Longrightarrow> a @ x \<noteq> b @ y"
  by (metis last_appendR)

lemma conn_key_setting [simp]:
  "makeKey (conn_bucket a) connKey \<noteq> makeKey (conn_bucket b) ''setting''"
  "makeKey (conn_bucket b) ''setting'' \<noteq> makeKey (conn_bucket a) connKey"
proof -
  show ne: "makeKey (conn_bucket a) connKey \<noteq> makeKey (conn_bucket b) ''setting''"
    unfolding makeKey_def by (rule last_neq_append) simp_all
  from ne show "makeKey (conn_bucket b) ''setting'' \<noteq> makeKey (conn_bucket a) connKey" by (rule not_sym)
qed

lemma conn_key_system [simp]: "makeKey (conn_bucket a) k \<noteq> makeKey ''system'' k'"
  "makeKey ''system'' k' \<noteq> makeKey (conn_bucket a) k"
  by (simp_all add: makeKey_def conn_bucket_def)

section \<open>The lists of the tables\<close>

definition config_in :: "tables \<Rightarrow> string \<Rightarrow> json option" where
  "config_in t k = map_of (tb_config t) k"

definition group_in :: "tables \<Rightarrow> string \<Rightarrow> node_ref list option" where
  "group_in t out = Option.bind (config_in t (makeKey (conn_bucket out) connKey)) dec_refs"

definition outs_in :: "tables \<Rightarrow> string list" where
  "outs_in t = DefaultOutboundName # sort (filter (\<lambda>m. m \<noteq> DefaultOutboundName) (map fst (sort_key snd (tb_names t))))"

definition connected_in :: "tables \<Rightarrow> node_ref list" where
  "connected_in t = concat (map (\<lambda>out. refs_of (group_in t (or_proxy out))) (outs_in t))"

definition setting_in :: "tables \<Rightarrow> string \<Rightarrow> outbound_setting" where
  "setting_in t out =
     (case Option.bind (config_in t (makeKey (conn_bucket out) ''setting'')) (dec_struct outbound_field zero_outbound) of
        None \<Rightarrow> DefaultOutboundSetting | Some st \<Rightarrow> st)"

text \<open>Every stored reference carries the name of the group it is stored in.\<close>

definition groups_ok :: "tables \<Rightarrow> bool" where
  "groups_ok t \<longleftrightarrow> [] \<notin> fst ` set (tb_names t)
     \<and> (\<forall>out \<in> set (outs_in t). \<forall>r \<in> set (refs_of (group_in t out)). nr_Outbound r = out \<and> small_ref r)"

lemma attempt_Get:
  assumes "calm s" and "b \<noteq> ''accounts''"
  shows "attempt (Get d b k) s =
     (Inr (case config_in (st_tables s) (makeKey b k) of
         None \<Rightarrow> Inl KeyNotFound
       | Some v \<Rightarrow> (case d v of None \<Rightarrow> Inl DecodeError | Some x \<Rightarrow> Inr x)), s)"
  using assms by (auto simp: attempt_def Get_def config_in_def and_then_def split: option.splits)

lemma and_then_attempt: "attempt m s = (Inr r, s') \<Longrightarrow> and_then (attempt m) k s = k r s'"
  by (simp add: and_then_def)

lemma GetConnectedServersByOutbound_calm:
  "calm s \<Longrightarrow> GetConnectedServersByOutbound out s = (Inr (group_in (st_tables s) (or_proxy out)), s)"
  by (simp add: GetConnectedServersByOutbound_def and_then_attempt [OF attempt_Get] group_in_def split: option.splits)

lemma GetOutboundSetting_calm:
  "calm s \<Longrightarrow> GetOutboundSetting out s = (Inr (setting_in (st_tables s) out), s)"
  by (simp add: GetOutboundSetting_def and_then_attempt [OF attempt_Get] setting_in_def split: option.splits)

lemma GetOutbounds_calm: "calm s \<Longrightarrow> GetOutbounds s = (Inr (outs_in (st_tables s)), s)"
  by (simp add: GetOutbounds_def and_then_def attempt_def SetMembers_def is_names_def outs_in_def)

lemma GetConnectedServers_calm:
  "calm s \<Longrightarrow> GetConnectedServers s =
     (Inr (if connected_in (st_tables s) = [] then None else Some (connected_in (st_tables s))), s)"
  using collect_pure [of "outs_in (st_tables s)" GetConnectedServersByOutbound s "\<lambda>out. group_in (st_tables s) (or_proxy out)"]
  by (simp add: GetConnectedServers_def and_then_def GetOutbounds_calm GetConnectedServersByOutbound_calm
      connected_in_def refs_of_def comp_def Let_def)

lemma refs_of_connected [simp]: "refs_of (if xs = [] then None else Some xs) = xs"
  by (simp add: refs_of_def)

lemma outs_in_mem [simp]: "out \<in> set (outs_in t) \<longleftrightarrow> out = DefaultOutboundName \<or> out \<in> fst ` set (tb_names t)"
  by (auto simp: outs_in_def)

lemma groups_ok_outs: "groups_ok t \<Longrightarrow> out \<in> set (outs_in t) \<Longrightarrow> or_proxy out = out"
  by (auto simp: groups_ok_def or_proxy_def)

lemma connected_in_groups:
  assumes "groups_ok t"
  shows "connected_in t = concat (map (\<lambda>out. refs_of (group_in t out)) (outs_in t))"
  unfolding connected_in_def
  by (intro arg_cong [where f = concat] map_cong refl) (simp only: groups_ok_outs [OF assms])

lemma group_of_connected:
  assumes "groups_ok t" and "distinct (outs_in t)" and "out \<in> set (outs_in t)"
  shows "group_of (connected_in t) out = refs_of (group_in t out)"
proof -
  have own: "group_of (refs_of (group_in t o')) out = (if o' = out then refs_of (group_in t o') else [])"
    if "o' \<in> set (outs_in t)" for o'
    using assms(1) that by (auto simp: groups_ok_def group_of_def filter_empty_conv)
  have "group_of (concat (map (\<lambda>o'. refs_of (group_in t o')) os)) out =
      (if out \<in> set os then refs_of (group_in t out) else [])" if "set os \<subseteq> set (outs_in t)" "distinct os" for os
    using that
  proof (induction os)
    case (Cons o' os)
    then show ?case using own [of o'] by (auto simp: group_of_def)
  qed (simp add: group_of_def)
  from this [of "outs_in t"] assms show ?thesis
    by (simp add: connected_in_groups)
qed

section \<open>Writing groups\<close>

text \<open>Ranging over a map visits every key once.\<close>

definition range_ok :: "'o cat_env \<Rightarrow> bool" where
  "range_ok env \<longleftrightarrow>
     (\<forall>xs. distinct xs \<longrightarrow> set (ca_range env xs) = set xs \<and> distinct (ca_range env xs))
   \<and> (\<forall>xs. distinct xs \<longrightarrow> set (ca_range_refs env xs) = set xs \<and> distinct (ca_range_refs env xs))"

lemma range_okD:
  "range_ok env \<Longrightarrow> distinct xs \<Longrightarrow> set (ca_range env xs) = set xs"
  "range_ok env \<Longrightarrow> distinct ys \<Longrightarrow> set (ca_range_refs env ys) = set ys"
  "range_ok env \<Longrightarrow> distinct ys \<Longrightarrow> distinct (ca_range_refs env ys)"
  by (auto simp: range_ok_def)

lemma put_config_frame [simp]:
  "tb_servers (put_config k v t) = tb_servers t" "tb_subs (put_config k v t) = tb_subs t"
  "tb_names (put_config k v t) = tb_names t" "tb_sub_seq (put_config k v t) = tb_sub_seq t"
  "tb_server_seq (put_config k v t) = tb_server_seq t"
  "servers_in (put_config k v t) = servers_in t" "members_in (put_config k v t) i = members_in t i"
  "subs_in (put_config k v t) = subs_in t"
  by (simp_all add: put_config_def servers_in_def members_in_def subs_in_def)

lemma config_in_put [simp]: "config_in (put_config k v t) k' = (if k' = k then Some v else config_in t k')"
  by (simp add: put_config_def config_in_def update_conv')

lemma put_config_ok [simp]: "catalog_ok t \<Longrightarrow> catalog_ok (put_config k v t)"
  using catalog_okD [of t] by (intro catalog_okI) (simp_all add: put_config_def distinct_update)

lemma fold_put:
  assumes "\<And>a b. key a = key b \<longleftrightarrow> a = b"
  shows "config_in (fold (\<lambda>x. put_config (key x) (val x)) xs t) (key a)
      = (if a \<in> set xs then Some (val a) else config_in t (key a))"
    and "k \<notin> range key \<Longrightarrow> config_in (fold (\<lambda>x. put_config (key x) (val x)) xs t) k = config_in t k"
    and "catalog_ok t \<Longrightarrow> catalog_ok (fold (\<lambda>x. put_config (key x) (val x)) xs t)"
    and "servers_in (fold (\<lambda>x. put_config (key x) (val x)) xs t) = servers_in t"
    and "subs_in (fold (\<lambda>x. put_config (key x) (val x)) xs t) = subs_in t"
    and "tb_names (fold (\<lambda>x. put_config (key x) (val x)) xs t) = tb_names t"
  by (induction xs arbitrary: t) (auto simp: assms)

definition with_groups :: "(string \<Rightarrow> json) \<Rightarrow> string list \<Rightarrow> tables \<Rightarrow> tables" where
  "with_groups val outs t = fold (\<lambda>out. put_config (makeKey (conn_bucket out) connKey) (val out)) outs t"

lemma with_groups_simps [simp]:
  "config_in (with_groups val outs t) (makeKey (conn_bucket out) connKey)
     = (if out \<in> set outs then Some (val out) else config_in t (makeKey (conn_bucket out) connKey))"
  "config_in (with_groups val outs t) (makeKey (conn_bucket out) ''setting'')
     = config_in t (makeKey (conn_bucket out) ''setting'')"
  "catalog_ok t \<Longrightarrow> catalog_ok (with_groups val outs t)"
  "servers_in (with_groups val outs t) = servers_in t" "subs_in (with_groups val outs t) = subs_in t"
  "tb_names (with_groups val outs t) = tb_names t" "outs_in (with_groups val outs t) = outs_in t"
  "setting_in (with_groups val outs t) = setting_in t"
proof -
  note key = fold_put [where key = "\<lambda>out. makeKey (conn_bucket out) connKey", OF conn_key_eq]
  show "config_in (with_groups val outs t) (makeKey (conn_bucket out) connKey)
     = (if out \<in> set outs then Some (val out) else config_in t (makeKey (conn_bucket out) connKey))"
    unfolding with_groups_def by (rule key(1))
  show set: "config_in (with_groups val outs t) (makeKey (conn_bucket out) ''setting'')
     = config_in t (makeKey (conn_bucket out) ''setting'')" for out
    unfolding with_groups_def by (rule key(2)) auto
  show "catalog_ok t \<Longrightarrow> catalog_ok (with_groups val outs t)"
    "servers_in (with_groups val outs t) = servers_in t" "subs_in (with_groups val outs t) = subs_in t"
    and names: "tb_names (with_groups val outs t) = tb_names t"
    unfolding with_groups_def by (simp_all add: key(3-6))
  from names show "outs_in (with_groups val outs t) = outs_in t" by (simp add: outs_in_def)
  from set show "setting_in (with_groups val outs t) = setting_in t" by (simp add: setting_in_def fun_eq_iff)
qed

lemma group_in_with_groups:
  "group_in (with_groups val outs t) out = (if out \<in> set outs then dec_refs (val out) else group_in t out)"
  by (simp add: group_in_def)

lemma set_groups_calm:
  "calm s \<Longrightarrow> set_groups groups outs s =
     (Inr (), with_tables s (with_groups
        (\<lambda>out. refs_json (case map_of groups out of None \<Rightarrow> [] | Some refs \<Rightarrow> refs)) outs (st_tables s)))"
  by (simp add: set_groups_def setValue_def with_groups_def)

lemma map_of_byOutbound: "map_of (byOutbound ws) out = (if out \<in> nr_Outbound ` set ws then Some (group_of ws out) else None)"
proof -
  have "map_of (map (\<lambda>x. (x, f x)) xs) out = (if out \<in> set xs then Some (f out) else None)" for f :: "string \<Rightarrow> node_ref list" and xs
    by (induction xs) auto
  from this [of "group_of ws" "remdups (map nr_Outbound ws)"] show ?thesis by (simp add: byOutbound_def)
qed

lemma group_value: "(case map_of (byOutbound ws) out of None \<Rightarrow> [] | Some refs \<Rightarrow> refs) = group_of ws out"
proof (cases "out \<in> nr_Outbound ` set ws")
  case False
  then have "group_of ws out = []" by (auto simp: group_of_def filter_empty_conv)
  with False show ?thesis by (simp add: map_of_byOutbound)
qed (simp add: map_of_byOutbound)

lemma OverwriteConnects_calm:
  assumes "calm s"
  shows "OverwriteConnects env ws s = (Inr (), with_tables s
     (with_groups (\<lambda>out. refs_json (group_of ws out)) (ca_range env (remdups (map nr_Outbound ws))) (st_tables s)))"
  using set_groups_calm [OF assms, of "byOutbound ws"]
  by (simp add: OverwriteConnects_def group_value) (simp add: byOutbound_def comp_def)

lemma catalog_same_rest:
  "same_rest t t' \<Longrightarrow> config_in t' = config_in t \<and> outs_in t' = outs_in t \<and> group_in t' = group_in t \<and> setting_in t' = setting_in t"
  by (simp add: same_rest_def config_in_def fun_eq_iff outs_in_def group_in_def setting_in_def)

lemma remove_at_Nil [simp]: "remove_at [] xs = xs"
  by (simp add: remove_at_def nths_all)

lemma RemoveTx_calm:
  assumes "calm s" and "catalog_ok (st_tables s)"
    and "refs s = (Inr (), with_tables s t)" and "catalog_ok t"
    and "servers_in t = servers_in (st_tables s)" and "subs_in t = subs_in (st_tables s)"
  obtains t' where "RemoveTx subs servers refs s = (Inr (), with_tables s t')" and "catalog_ok t'"
    and "servers_in t' = remove_at servers (servers_in (st_tables s))"
    and "subs_in t' = remove_at subs (subs_in (st_tables s))" and "same_rest t t'"
proof -
  obtain u where u: "(if subs = [] then ret () else subscriptionsRemove subs) (with_tables s t) = (Inr (), with_tables s u)"
    "catalog_ok u" "servers_in u = servers_in t" "subs_in u = remove_at subs (subs_in t)" "same_rest t u"
  proof (cases "subs = []")
    case True
    then show thesis using that [of t] assms(4) by simp
  next
    case False
    show thesis
      by (rule subscriptionsRemove_run [of "with_tables s t" subs], use assms False in \<open>simp_all\<close>) (rule that, use False in simp_all)
  qed
  obtain w where w: "(if servers = [] then ret () else serversRemove servers) (with_tables s u) = (Inr (), with_tables s w)"
    "catalog_ok w" "servers_in w = remove_at servers (servers_in u)" "subs_in w = subs_in u" "same_rest u w"
  proof (cases "servers = []")
    case True
    then show thesis using that [of u] u(2) by simp
  next
    case False
    show thesis
      by (rule serversRemove_run [of "with_tables s u" servers], use assms u(2) False in \<open>simp_all\<close>) (rule that, use False in simp_all)
  qed
  let ?body = "and_then refs (\<lambda>_. and_then (if subs = [] then ret () else subscriptionsRemove subs)
      (\<lambda>_. if servers = [] then ret () else serversRemove servers))"
  have "?body s = (Inr (), with_tables s w)"
    using assms(3) u(1) w(1) by (simp add: and_then_def)
  then have "RemoveTx subs servers refs s = (Inr (), with_tables s w)"
    using ReadModifyWrite_calm [OF assms(1), of ?body "Inr ()" "with_tables s w"] assms(1) by (simp add: RemoveTx_def)
  then show thesis
    using that [of w] w u assms(5,6) same_rest_trans [OF u(5) w(5)] by simp
qed

lemma RemoveNodes_calm:
  assumes "calm s" and "catalog_ok (st_tables s)" and "range_ok env"
  obtains t' where "RemoveNodes env subs servers conns s = (Inr (), with_tables s t')" and "catalog_ok t'"
    and "servers_in t' = remove_at servers (servers_in (st_tables s))"
    and "subs_in t' = remove_at subs (subs_in (st_tables s))"
    and "outs_in t' = outs_in (st_tables s)" and "tb_names t' = tb_names (st_tables s)"
    and "setting_in t' = setting_in (st_tables s)"
    and "\<forall>out \<in> set (outs_in (st_tables s)). group_in t' out = dec_refs (refs_json (group_of conns out))"
proof -
  let ?t = "st_tables s" and ?names = "ca_range env (remdups (map nr_Outbound conns @ outs_in (st_tables s)))"
  let ?u = "with_groups (\<lambda>out. refs_json (group_of conns out)) ?names ?t"
  have names: "set ?names = set (map nr_Outbound conns @ outs_in ?t)"
    using range_okD(1) [OF assms(3), of "remdups (map nr_Outbound conns @ outs_in ?t)"] by simp
  have "set_groups (byOutbound conns) ?names s = (Inr (), with_tables s ?u)"
    using set_groups_calm [OF assms(1), of "byOutbound conns" ?names] by (simp add: group_value)
  then obtain t' where t': "RemoveTx subs servers (set_groups (byOutbound conns) ?names) s = (Inr (), with_tables s t')"
    "catalog_ok t'" "servers_in t' = remove_at servers (servers_in ?t)" "subs_in t' = remove_at subs (subs_in ?t)" "same_rest ?u t'"
    by (rule RemoveTx_calm [OF assms(1,2)]) (use assms(2) in simp_all)
  have "RemoveNodes env subs servers conns s = (Inr (), with_tables s t')"
    using t'(1) by (simp add: RemoveNodes_def and_then_def GetOutbounds_calm [OF assms(1)])
  moreover have "\<forall>out \<in> set (outs_in ?t). group_in t' out = dec_refs (refs_json (group_of conns out))"
    using catalog_same_rest [OF t'(5)] names by (simp add: group_in_with_groups del: outs_in_mem)
  moreover have "tb_names t' = tb_names ?t"
    using t'(5) by (simp add: same_rest_def)
  ultimately show thesis
    using that [of t'] t' catalog_same_rest [OF t'(5)] by (simp del: outs_in_mem)
qed

end
