(* ===== verification/Catalog_Store.thy ===== *)
theory Catalog_Store
  imports Catalog_Correct
begin

text \<open>
  What the database promises to the catalog: a removal is one transaction, whatever statement of
  it fails, and nodes that were stored are read back.
\<close>

section \<open>Removal is a transaction\<close>

lemma strict_option [strict]: "strict_op m \<Longrightarrow> (\<And>x. strict_op (k x)) \<Longrightarrow> strict_op (case o' of None \<Rightarrow> m | Some x \<Rightarrow> k x)"
  by (cases o') simp_all

lemma strict_RemoveTx:
  assumes "strict_op refs"
  shows "strict_op (RemoveTx subs servers refs)"
  unfolding RemoveTx_def subscriptionsRemove_def serversRemove_def remove_sub_def
  by (intro strict assms)

lemma strict_set_groups: "strict_op (set_groups groups outs)"
  unfolding set_groups_def setValue_def by (intro strict)

lemma calm_strip: "calm (s\<lparr>st_faults := []\<rparr>)"
  by (simp add: calm_def)

text \<open>
  (C18) Deleting nodes from the database is atomic. Whichever statement fails, the tables are as
  before; if the deletion reports success, exactly the requested rows are gone, the rest is
  numbered without gaps, and the groups are the ones written with it.
\<close>

theorem removal_atomic:
  assumes "catalog_ok (st_tables s)"
    and "RemoveTx subs servers (set_groups groups outs) s = (r, s')"
  shows "case r of
      Inl _ \<Rightarrow> st_tables s' = st_tables s
    | Inr _ \<Rightarrow> catalog_ok (st_tables s')
        \<and> servers_in (st_tables s') = remove_at servers (servers_in (st_tables s))
        \<and> subs_in (st_tables s') = remove_at subs (subs_in (st_tables s))
        \<and> (\<forall>out. group_in (st_tables s') out =
             (if out \<in> set outs then dec_refs (refs_json (case map_of groups out of None \<Rightarrow> [] | Some refs \<Rightarrow> refs))
              else group_in (st_tables s) out))"
proof (cases r)
  case (Inl e)
  with assms(2) ReadModifyWrite_error show ?thesis by (auto simp: RemoveTx_def)
next
  case (Inr x)
  let ?s = "s\<lparr>st_faults := []\<rparr>" and ?t = "st_tables s"
  let ?u = "with_groups (\<lambda>out. refs_json (case map_of groups out of None \<Rightarrow> [] | Some refs \<Rightarrow> refs)) outs ?t"
  have run: "RemoveTx subs servers (set_groups groups outs) ?s = (Inr x, s'\<lparr>st_faults := []\<rparr>)"
    using strict_opD [OF strict_RemoveTx [OF strict_set_groups]] assms(2) Inr by blast
  have refs: "set_groups groups outs ?s = (Inr (), with_tables ?s ?u)"
    using set_groups_calm [OF calm_strip, of groups outs s] by simp
  obtain t' where t': "RemoveTx subs servers (set_groups groups outs) ?s = (Inr (), with_tables ?s t')" "catalog_ok t'"
    "servers_in t' = remove_at servers (servers_in (st_tables ?s))" "subs_in t' = remove_at subs (subs_in (st_tables ?s))" "same_rest ?u t'"
    by (rule RemoveTx_calm [where refs = "set_groups groups outs", OF calm_strip _ refs]) (use assms(1) in simp_all)
  have "s'\<lparr>st_faults := []\<rparr> = with_tables ?s t'" using run t'(1) by simp
  from arg_cong [OF this, of st_tables] have "st_tables s' = t'" by simp
  then show ?thesis
    using Inr t' catalog_same_rest [OF t'(5)] by (simp add: group_in_with_groups)
qed

section \<open>Stored nodes are read back\<close>

text \<open>
  What the catalog relies on from the object of a node: its stored form names its protocol, an
  empty object of that protocol can be made, and loading the stored form into it gives the object.
\<close>

definition storable :: "'o cat_env \<Rightarrow> 'o \<Rightarrow> bool" where
  "storable env x \<longleftrightarrow>
     ca_Marshal env x \<noteq> JNull
   \<and> (\<exists>p y. gjson_String (ca_gjson env) (gjson_get (ca_Marshal env x) ''protocol'') = p \<and> p \<noteq> []
        \<and> serverObj_New env p = Some y \<and> ca_Unmarshal env y (ca_Marshal env x) = Some x)"

lemma server_round_trip:
  assumes "sw_Obj r = Some x" and "storable env x"
  shows "Bytes2ServerRaw env (server_json env r) = Some r"
proof -
  obtain y where y: "gjson_String (ca_gjson env) (gjson_get (ca_Marshal env x) ''protocol'') \<noteq> []"
    "serverObj_New env (gjson_String (ca_gjson env) (gjson_get (ca_Marshal env x) ''protocol'')) = Some y"
    "ca_Unmarshal env y (ca_Marshal env x) = Some x" and "ca_Marshal env x \<noteq> JNull"
    using assms(2) by (auto simp: storable_def)
  from this(4) have "dec_object env (Some y) (ca_Marshal env x) = Some (Some x)"
    using y(3) by (cases "ca_Marshal env x") simp_all
  then show ?thesis
    using y(1,2) assms(1)
    by (simp add: Bytes2ServerRaw_def stored_protocol_def server_json_def server_field_def json_name_simps)
qed

lemma map_filter_Some: "(\<And>x. x \<in> set xs \<Longrightarrow> f (g x) = Some x) \<Longrightarrow> List.map_filter f (map g xs) = xs"
  by (induction xs) (simp_all add: map_filter_simps)

text \<open>
  (C20) Nodes appended to the list of servers are read back behind the ones that were there, in
  order and unchanged, and every server that was there keeps its place.
\<close>

theorem appended_servers_read:
  assumes "calm s" and "catalog_ok (st_tables s)" and "\<forall>r \<in> set servers. \<exists>x. sw_Obj r = Some x \<and> storable env x"
  shows "\<exists>s'. AppendServers env servers s = (Inr (), s')
    \<and> GetServers env s' = (Inr (List.map_filter (Bytes2ServerRaw env) (servers_in (st_tables s)) @ servers), s')"
proof -
  obtain t where t: "for_each append_server (map (server_json env) servers) s = (Inr (), with_tables s t)" "catalog_ok t"
    "servers_in t = servers_in (st_tables s) @ map (server_json env) servers"
    by (rule append_servers [OF assms(1,2)]) blast
  have "List.map_filter (Bytes2ServerRaw env) (map (server_json env) servers) = servers"
    by (rule map_filter_Some) (use assms(3) server_round_trip in fastforce)
  moreover have "GetServers env (with_tables s t) = (Inr (List.map_filter (Bytes2ServerRaw env) (servers_in t)), with_tables s t)"
    using reads(1) [of "with_tables s t"] assms(1) t(2) by (simp add: GetServers_def and_then_def attempt_def)
  ultimately show ?thesis
    using t by (intro exI [of _ "with_tables s t"]) (simp add: AppendServers_def ServersAppend_def map_filter_def)
qed

definition sample_store_tables :: tables where
  "sample_store_tables =
     \<lparr>tb_servers = [\<lparr>rw_id = 1, rw_type = ''server'', rw_sub_id = None, rw_config = JNull, rw_sort = 0\<rparr>], tb_subs = [],
      tb_config = [], tb_names = [], tb_server_seq = 1, tb_sub_seq = 0\<rparr>"

lemma sample_store_ok: "catalog_ok sample_store_tables"
  by (rule catalog_okI)
    (auto simp: sample_store_tables_def servers_in_def members_in_def is_server_def is_member_of_def ordinals_def)

theorem removal_atomic_witness:
  "case RemoveTx [] [0] (set_groups [] [''proxy'']) \<lparr>st_tables = sample_store_tables, st_faults = [False, False, True]\<rparr> of (r, s') \<Rightarrow>
    (case r of
      Inl _ \<Rightarrow> st_tables s' = sample_store_tables
    | Inr _ \<Rightarrow> catalog_ok (st_tables s') \<and> servers_in (st_tables s') = remove_at [0] (servers_in sample_store_tables))"
proof -
  let ?s = "\<lparr>st_tables = sample_store_tables, st_faults = [False, False, True]\<rparr>"
  obtain r s' where run: "RemoveTx [] [0] (set_groups [] [''proxy'']) ?s = (r, s')" by fastforce
  from removal_atomic [OF _ run] sample_store_ok show ?thesis
    unfolding run by (cases r) simp_all
qed

definition sample_codec :: "string cat_env" where
  "sample_codec =
     \<lparr>ca_gjson = \<lparr>gj_String = (\<lambda>j. []), gj_Bool = (\<lambda>j. j = JBool True), gj_Int = (\<lambda>j. 0)\<rparr>,
      ca_emptyCreators = [(''vless'', [])], ca_PluginManager = [], ca_PluginManagerScheme = ''ext'',
      ca_Marshal = (\<lambda>x. JObj [(''protocol'', JStr ''vless''), (''link'', JStr x)]),
      ca_Unmarshal = (\<lambda>_ j. case j of JObj [_, (_, JStr x)] \<Rightarrow> Some x | _ \<Rightarrow> None),
      ca_ExportToURL = (\<lambda>x. x), ca_GetProtocol = (\<lambda>x. ''vless''), ca_GetHostname = (\<lambda>x. x), ca_GetPort = (\<lambda>x. 443),
      ca_GetName = (\<lambda>x. x), ca_range = (\<lambda>xs. xs), ca_range_refs = (\<lambda>xs. xs)\<rparr>"

theorem appended_servers_read_witness:
  "\<exists>s'. AppendServers sample_codec [\<lparr>sw_Obj = Some ''a'', sw_Latency = []\<rparr>] \<lparr>st_tables = sample_store_tables, st_faults = []\<rparr> = (Inr (), s')
    \<and> GetServers sample_codec s' =
        (Inr (List.map_filter (Bytes2ServerRaw sample_codec) (servers_in sample_store_tables) @ [\<lparr>sw_Obj = Some ''a'', sw_Latency = []\<rparr>]), s')"
proof -
  have "storable sample_codec ''a''" by (simp add: storable_def sample_codec_def serverObj_New_def)
  then show ?thesis
    using appended_servers_read [of "\<lparr>st_tables = sample_store_tables, st_faults = []\<rparr>" "[\<lparr>sw_Obj = Some ''a'', sw_Latency = []\<rparr>]" sample_codec]
    by (simp add: calm_def sample_store_ok)
qed

end
