(* ===== verification/Core_Process.thy ===== *)
theory Core_Process
  imports Catalog_Groups Svc_Dns
begin

text \<open>
  The process of the core and its manager (\<open>processManager.go\<close>, \<open>process.go\<close> under
  \<open>service/kernel/v2ray\<close>). The state of the service is the database, the fields of the manager and
  the host as far as the manager changes it: whether the packet filter rules of the transparent
  proxy are installed, and a log of what was run. What the host does is given in advance: each
  hook, command or start takes the next element of \<open>ho_outcomes\<close>. The manager releases its lock
  while it changes the host; what other goroutines do at such a point, the goroutine that waits
  for the core to exit or a request to stop, is the next element of \<open>ho_intrusions\<close>. A process is
  known by the generation it was started with.
\<close>

section \<open>State\<close>

record full_setting = svc_setting +
  se_LogLevel :: string
  se_RulePortMode :: string
  se_ProxyModeWhenSubscribe :: string
  se_GFWListAutoUpdateMode :: string
  se_GFWListAutoUpdateIntervalHour :: int
  se_SubscriptionAutoUpdateMode :: string
  se_SubscriptionAutoUpdateIntervalHour :: int
  se_TcpFastOpen :: string
  se_MuxOn :: string
  se_Mux :: int
  se_InboundSniffing :: string
  se_RouteOnly :: bool
  se_TproxyExcludedInterfaces :: string
  se_TunAutoRoute :: bool
  se_TunRouteShellType :: string
  se_TunRouteShellPath :: string
  se_TunSetupScript :: string
  se_TunTeardownScript :: string
  se_TunExcludeProcesses :: string
  se_SsBackend :: string
  se_TrojanBackend :: string

record template =
  tp_Setting :: full_setting
  tp_ApiPort :: int

record core_proc =
  cp_generation :: int
  cp_template :: template

datatype host_event =
    CoreHook string
  | TransparentHook string
  | DeleteRules
  | WriteRules
  | RecoverHost
  | Launch int
  | Kill int

datatype launch_result =
    ConfigNotWritten
  | PortsOccupied
  | HookRefuses
  | LaunchFails
  | ExitsEarly
  | NeverOpensPort
  | Launched

datatype intrusion = NoIntrusion | CoreExits | UserStops bool

record service =
  sv_store :: store
  mg_p :: "core_proc option"
  mg_generation :: int
  mg_testing :: bool
  mg_networkPaused :: bool
  mg_shuttingDown :: bool
  mg_monitor :: bool
  mg_transparentOn :: bool
  mg_retaining :: bool
  mg_retainedSetting :: "full_setting option"
  ho_rules :: bool
  ho_log :: "host_event list"
  ho_outcomes :: "bool list"
  ho_launches :: "launch_result list"
  ho_intrusions :: "intrusion list"
  ho_templates :: "int set"
  ho_cores :: "int set"

text \<open>\<open>ho_cores\<close> are the core processes that run, \<open>ho_templates\<close> the templates whose API
  producers run, both by generation.\<close>

type_synonym 'a svc_op = "(service, store_error, 'a) op"

record proc_env =
  pe_svc :: svc_env
  pe_TransparentHook :: string
  pe_CoreHook :: string
  pe_siteDat :: bool

definition on_store :: "'a db_op \<Rightarrow> 'a svc_op" where
  "on_store m v = (case m (sv_store v) of (r, s) \<Rightarrow> (r, v\<lparr>sv_store := s\<rparr>))"

definition change :: "(service \<Rightarrow> service) \<Rightarrow> unit svc_op" where
  "change f v = (Inr (), f v)"

definition read :: "(service \<Rightarrow> 'a) \<Rightarrow> 'a svc_op" where
  "read f v = (Inr (f v), v)"

text \<open>A command on the host: it is logged, and fails when the next outcome says so.\<close>

definition host_run :: "host_event \<Rightarrow> (service \<Rightarrow> service) \<Rightarrow> unit svc_op" where
  "host_run e f v =
     (let v1 = f (v\<lparr>ho_log := ho_log v @ [e], ho_outcomes := drop 1 (ho_outcomes v)\<rparr>)
      in (if ho_outcomes v \<noteq> [] \<and> hd (ho_outcomes v) then Inl (Failed ''host'') else Inr (), v1))"

definition ignore :: "'a svc_op \<Rightarrow> unit svc_op" where
  "ignore m v = (case m v of (_, v') \<Rightarrow> (Inr (), v'))"

definition run_hook :: "string \<Rightarrow> host_event \<Rightarrow> unit svc_op" where
  "run_hook configured e = (if configured = [] then ret () else host_run e id)"

section \<open>Stored status\<close>

definition SetRunning :: "bool \<Rightarrow> unit db_op" where
  "SetRunning running = setValue ''system'' ''running'' (JBool running)"

definition GetRunning :: "bool db_op" where
  "GetRunning = and_then (attempt (Get (dec_bool False) ''system'' ''running'')) (\<lambda>r. ret
     (case r of Inl _ \<Rightarrow> False | Inr b \<Rightarrow> b))"

definition SetLastKernelExitStatus :: "string \<Rightarrow> unit db_op" where
  "SetLastKernelExitStatus status = setValue ''system'' ''lastKernelExit'' (JStr status)"

definition GetLastKernelExitStatus :: "string db_op" where
  "GetLastKernelExitStatus = and_then (attempt (Get (dec_str []) ''system'' ''lastKernelExit'')) (\<lambda>r. ret
     (case r of Inl _ \<Rightarrow> [] | Inr st \<Rightarrow> st))"

record host_state =
  hs_TransparentType :: string
  hs_APIPort :: int
  hs_TunAutoRoute :: bool
  hs_TunTeardownScript :: string

definition host_state_json :: "host_state \<Rightarrow> json" where
  "host_state_json h =
     JObj [(''transparentType'', JStr (hs_TransparentType h)), (''apiPort'', json_int (hs_APIPort h)),
           (''tunAutoRoute'', JBool (hs_TunAutoRoute h)), (''tunTeardownScript'', JStr (hs_TunTeardownScript h))]"

definition host_state_field :: "string \<Rightarrow> json \<Rightarrow> host_state \<Rightarrow> host_state option" where
  "host_state_field k v h =
     (if is_field k ''transparenttype'' then map_option (\<lambda>x. h\<lparr>hs_TransparentType := x\<rparr>) (dec_str (hs_TransparentType h) v)
      else if is_field k ''apiport'' then map_option (\<lambda>x. h\<lparr>hs_APIPort := x\<rparr>) (dec_int64 (hs_APIPort h) v)
      else if is_field k ''tunautoroute'' then map_option (\<lambda>x. h\<lparr>hs_TunAutoRoute := x\<rparr>) (dec_bool (hs_TunAutoRoute h) v)
      else if is_field k ''tunteardownscript''
        then map_option (\<lambda>x. h\<lparr>hs_TunTeardownScript := x\<rparr>) (dec_str (hs_TunTeardownScript h) v)
      else Some h)"

definition SetHostState :: "host_state option \<Rightarrow> unit db_op" where
  "SetHostState st =
     (case st of
        None \<Rightarrow> Delete ''system'' ''hostState''
      | Some h \<Rightarrow> setValue ''system'' ''hostState'' (host_state_json h))"

definition getRecoveryState :: "(json \<Rightarrow> 'a option) \<Rightarrow> string \<Rightarrow> 'a option db_op" where
  "getRecoveryState unmarshal key =
     and_then (query (\<lambda>t. map_of (tb_config t) (''system:'' @ key))) (\<lambda>raw.
       case raw of
         None \<Rightarrow> ret None
       | Some v \<Rightarrow> (case unmarshal v of None \<Rightarrow> fail DecodeError | Some x \<Rightarrow> ret (Some x)))"

definition GetHostState :: "host_state option db_op" where
  "GetHostState =
     getRecoveryState
       (dec_struct host_state_field
          \<lparr>hs_TransparentType = [], hs_APIPort = 0, hs_TunAutoRoute = False, hs_TunTeardownScript = []\<rparr>)
       ''hostState''"

definition host_state_of :: "template \<Rightarrow> host_state" where
  "host_state_of t =
     \<lparr>hs_TransparentType = se_TransparentType (tp_Setting t), hs_APIPort = tp_ApiPort t,
      hs_TunAutoRoute = se_TunAutoRoute (tp_Setting t), hs_TunTeardownScript = se_TunTeardownScript (tp_Setting t)\<rparr>"

section \<open>Stopping\<close>

definition transparent_on :: "proc_env \<Rightarrow> full_setting \<Rightarrow> bool" where
  "transparent_on env s = IsTransparentOn (pe_svc env) (svc_setting.truncate s)"

definition deleteTransparentProxyRules :: "unit svc_op" where
  "deleteTransparentProxyRules = change (\<lambda>v. v\<lparr>ho_rules := False, ho_log := ho_log v @ [DeleteRules]\<rparr>)"

definition checkAndStopTransparentProxy :: "proc_env \<Rightarrow> full_setting option \<Rightarrow> unit svc_op" where
  "checkAndStopTransparentProxy env setting =
     and_then (read mg_transparentOn) (\<lambda>on.
       if \<not> on then ret ()
       else (case setting of
          None \<Rightarrow> ret ()
        | Some st \<Rightarrow>
            and_then (change (\<lambda>v. v\<lparr>mg_transparentOn := False\<rparr>)) (\<lambda>_.
            if se_Transparent st = ''close'' then ret ()
            else and_then (ignore (run_hook (pe_TransparentHook env) (TransparentHook ''pre-stop''))) (\<lambda>_.
                 and_then deleteTransparentProxyRules (\<lambda>_.
                 ignore (run_hook (pe_TransparentHook env) (TransparentHook ''post-stop'')))))))"

definition cleanupRetainedInterceptionLocked :: "proc_env \<Rightarrow> unit svc_op" where
  "cleanupRetainedInterceptionLocked env =
     and_then (read mg_retainedSetting) (\<lambda>kept.
       case kept of
         None \<Rightarrow> ret ()
       | Some st \<Rightarrow>
           and_then (checkAndStopTransparentProxy env (Some st)) (\<lambda>_.
           change (\<lambda>v. v\<lparr>mg_retainedSetting := None\<rparr>)))"

definition beforeStop :: "proc_env \<Rightarrow> core_proc \<Rightarrow> unit svc_op" where
  "beforeStop env p =
     and_then (read mg_retaining) (\<lambda>retaining.
     and_then (if retaining then ret () else checkAndStopTransparentProxy env (Some (tp_Setting (cp_template p)))) (\<lambda>_.
     ignore (run_hook (pe_CoreHook env) (CoreHook ''pre-stop''))))"

text \<open>\<open>Process.Close\<close> cancels the process and closes its template.\<close>

definition close_proc :: "core_proc \<Rightarrow> unit svc_op" where
  "close_proc p =
     change (\<lambda>v. v\<lparr>ho_cores := ho_cores v - {cp_generation p}, ho_templates := ho_templates v - {cp_generation p},
       ho_log := ho_log v @ [Kill (cp_generation p)]\<rparr>)"

definition mgr_stop :: "proc_env \<Rightarrow> bool \<Rightarrow> unit svc_op" where
  "mgr_stop env saveRunning =
     and_then (read mg_p) (\<lambda>cur.
       case cur of
         None \<Rightarrow> ret ()
       | Some p \<Rightarrow>
           and_then (change (\<lambda>v. v\<lparr>mg_monitor := False, mg_networkPaused := False\<rparr>)) (\<lambda>_.
           and_then (beforeStop env p) (\<lambda>_.
           and_then (close_proc p) (\<lambda>_.
           and_then (if saveRunning then ignore (on_store (SetRunning False)) else ret ()) (\<lambda>_.
           and_then (ignore (run_hook (pe_CoreHook env) (CoreHook ''post-stop''))) (\<lambda>_.
           change (\<lambda>v. v\<lparr>mg_p := None\<rparr>)))))))"

definition Mgr_Stop :: "proc_env \<Rightarrow> bool \<Rightarrow> unit svc_op" where
  "Mgr_Stop env saveRunning =
     and_then (change (\<lambda>v. v\<lparr>mg_retaining := False\<rparr>)) (\<lambda>_.
     and_then (read mg_p) (\<lambda>cur.
       if cur = None then cleanupRetainedInterceptionLocked env
       else
         and_then (mgr_stop env saveRunning) (\<lambda>_.
         and_then (change (\<lambda>v. v\<lparr>mg_retainedSetting := None\<rparr>)) (\<lambda>_.
         ignore (on_store (SetLastKernelExitStatus (if saveRunning then ''stopped'' else ''running'')))))))"

definition handleUnexpectedStop :: "proc_env \<Rightarrow> int \<Rightarrow> unit svc_op" where
  "handleUnexpectedStop env gen =
     and_then (read (\<lambda>v. map_option cp_generation (mg_p v) = Some gen)) (\<lambda>current.
     and_then (read mg_shuttingDown) (\<lambda>down.
       if \<not> current then ret ()
       else if down then mgr_stop env False
       else and_then (mgr_stop env True) (\<lambda>_. ignore (on_store (SetLastKernelExitStatus ''crashed'')))))"

text \<open>What the other goroutines do at a point where the lock is free.\<close>

definition intrude :: "proc_env \<Rightarrow> int \<Rightarrow> unit svc_op" where
  "intrude env gen v =
     (case ho_intrusions v of
        CoreExits # rest \<Rightarrow> handleUnexpectedStop env gen (v\<lparr>ho_intrusions := rest, ho_cores := ho_cores v - {gen}\<rparr>)
      | UserStops b # rest \<Rightarrow> Mgr_Stop env b (v\<lparr>ho_intrusions := rest\<rparr>)
      | rest \<Rightarrow> (Inr (), v\<lparr>ho_intrusions := drop 1 rest\<rparr>))"

section \<open>Starting\<close>

text \<open>
  \<open>NewProcess\<close>. The deferred clean-up looks at the variable \<open>err\<close> of the function; the two failures
  while it waits for the API port return an error of their own and leave that variable nil. A core
  that does not open its port is sent a signal to terminate, and is taken to obey it.
\<close>

definition NewProcess :: "proc_env \<Rightarrow> int \<Rightarrow> template \<Rightarrow> core_proc svc_op" where
  "NewProcess env gen t v0 =
     (let r = (case ho_launches v0 of [] \<Rightarrow> Launched | x # _ \<Rightarrow> x);
          v = v0\<lparr>ho_launches := drop 1 (ho_launches v0), ho_templates := insert gen (ho_templates v0)\<rparr>;
          closed = v\<lparr>ho_templates := ho_templates v - {gen}\<rparr>
      in case r of
           ConfigNotWritten \<Rightarrow> (Inl (Failed ''config''), closed)
         | PortsOccupied \<Rightarrow> (Inl (Failed ''ports''), closed)
         | HookRefuses \<Rightarrow> (Inl (Failed ''pre-start hook''), closed\<lparr>ho_log := ho_log v @ [CoreHook ''pre-start'']\<rparr>)
         | LaunchFails \<Rightarrow> (Inl (Coded ''CORE_START_FAILED''), closed)
         | ExitsEarly \<Rightarrow> (Inl (Coded ''CORE_START_FAILED''), v\<lparr>ho_log := ho_log v @ [Launch gen]\<rparr>)
         | NeverOpensPort \<Rightarrow> (Inl (Coded ''CORE_START_FAILED''), v\<lparr>ho_log := ho_log v @ [Launch gen, Kill gen]\<rparr>)
         | Launched \<Rightarrow>
             (Inr \<lparr>cp_generation = gen, cp_template = t\<rparr>,
              v\<lparr>ho_log := ho_log v @ [Launch gen], ho_cores := insert gen (ho_cores v)\<rparr>))"

definition owns :: "int \<Rightarrow> service \<Rightarrow> bool" where
  "owns gen v \<longleftrightarrow> map_option cp_generation (mg_p v) = Some gen \<and> mg_generation v = gen"

definition checkProcessOwner :: "int \<Rightarrow> unit svc_op" where
  "checkProcessOwner gen =
     and_then (read (owns gen)) (\<lambda>b. if b then ret () else fail (Failed ''replaced''))"

definition mutateHost :: "proc_env \<Rightarrow> int \<Rightarrow> unit svc_op \<Rightarrow> unit svc_op" where
  "mutateHost env gen act =
     and_then (checkProcessOwner gen) (\<lambda>_.
     and_then (attempt act) (\<lambda>r.
     and_then (intrude env gen) (\<lambda>_.
     and_then (checkProcessOwner gen) (\<lambda>_. case r of Inl e \<Rightarrow> fail e | Inr _ \<Rightarrow> ret ()))))"

text \<open>A failed write takes back what it had written.\<close>

definition write_rules :: "unit svc_op" where
  "write_rules =
     and_then (change (\<lambda>v. v\<lparr>mg_transparentOn := True\<rparr>)) (\<lambda>_.
     and_then (attempt (host_run WriteRules (\<lambda>v. v\<lparr>ho_rules := True\<rparr>))) (\<lambda>r.
       case r of
         Inl e \<Rightarrow> and_then deleteTransparentProxyRules (\<lambda>_. fail e)
       | Inr _ \<Rightarrow> ret ()))"

definition setupTransparentProxy :: "proc_env \<Rightarrow> int \<Rightarrow> full_setting \<Rightarrow> unit svc_op" where
  "setupTransparentProxy env gen setting =
     (if \<not> transparent_on env setting then ret ()
      else
        and_then (mutateHost env gen deleteTransparentProxyRules) (\<lambda>_.
        and_then (mutateHost env gen (run_hook (pe_TransparentHook env) (TransparentHook ''pre-start''))) (\<lambda>_.
        and_then (intrude env gen) (\<lambda>_.
        and_then (checkProcessOwner gen) (\<lambda>_.
        and_then (mutateHost env gen write_rules) (\<lambda>_.
        mutateHost env gen (run_hook (pe_TransparentHook env) (TransparentHook ''post-start''))))))))"

definition startConnectivityMonitor :: "proc_env \<Rightarrow> int \<Rightarrow> full_setting \<Rightarrow> unit svc_op" where
  "startConnectivityMonitor env gen setting =
     (if \<not> transparent_on env setting \<or> se_TransparentType setting = ''system_proxy'' then ret ()
      else change (\<lambda>v. if mg_testing v \<or> \<not> owns gen v then v else v\<lparr>mg_monitor := True\<rparr>))"

definition afterStart :: "proc_env \<Rightarrow> int \<Rightarrow> full_setting \<Rightarrow> bool \<Rightarrow> unit svc_op" where
  "afterStart env gen setting retained =
     and_then (if retained then ret () else setupTransparentProxy env gen setting) (\<lambda>_.
     and_then (startConnectivityMonitor env gen setting) (\<lambda>_.
     and_then (intrude env gen) (\<lambda>_.
     and_then (checkProcessOwner gen) (\<lambda>_.
     and_then (run_hook (pe_CoreHook env) (CoreHook ''post-start'')) (\<lambda>_.
     and_then (intrude env gen) (\<lambda>_.
     checkProcessOwner gen))))))"

definition canRetainInterception :: "proc_env \<Rightarrow> full_setting option \<Rightarrow> full_setting \<Rightarrow> bool" where
  "canRetainInterception env before after \<longleftrightarrow>
     before = Some after \<and> transparent_on env after \<and> pe_TransparentHook env = [] \<and> pe_CoreHook env = []
     \<and> (se_TransparentType after = ''tproxy'' \<or> se_TransparentType after = ''redirect'')"

definition RecoverHostState :: "unit svc_op" where
  "RecoverHostState =
     and_then (host_run RecoverHost id) (\<lambda>_. change (\<lambda>v. v\<lparr>ho_rules := False\<rparr>))"

definition recover_pending :: "unit svc_op" where
  "recover_pending =
     and_then (attempt (on_store GetHostState)) (\<lambda>r.
       case r of
         Inr (Some _) \<Rightarrow>
           and_then (ignore RecoverHostState) (\<lambda>_. ignore (on_store (SetHostState None)))
       | _ \<Rightarrow> ret ())"

text \<open>The part of \<open>start\<close> under the lock, up to the new process.\<close>

definition start_locked :: "proc_env \<Rightarrow> template \<Rightarrow> bool \<Rightarrow> (core_proc \<times> int \<times> bool) svc_op" where
  "start_locked env t preserve =
     and_then (read (\<lambda>v. case mg_p v of Some p \<Rightarrow> Some (tp_Setting (cp_template p)) | None \<Rightarrow> mg_retainedSetting v)) (\<lambda>previous.
     and_then (read (\<lambda>v. preserve \<and> \<not> mg_networkPaused v \<and> mg_transparentOn v
         \<and> canRetainInterception env previous (tp_Setting t))) (\<lambda>retained.
     and_then (change (\<lambda>v. v\<lparr>mg_retainedSetting := (if retained then previous else mg_retainedSetting v),
         mg_retaining := retained\<rparr>)) (\<lambda>_.
     and_then (mgr_stop env True) (\<lambda>_.
     and_then (if retained then ret () else recover_pending) (\<lambda>_.
     and_then (change (\<lambda>v. v\<lparr>mg_generation := mg_generation v + 1\<rparr>)) (\<lambda>_.
     and_then (read mg_generation) (\<lambda>gen.
     and_then (attempt (NewProcess env gen t)) (\<lambda>r.
       case r of
         Inl e \<Rightarrow>
           and_then (if retained then cleanupRetainedInterceptionLocked env else ret ()) (\<lambda>_. fail e)
       | Inr p \<Rightarrow>
           and_then (change (\<lambda>v. v\<lparr>mg_p := Some p\<rparr>)) (\<lambda>_. ret (p, gen, retained))))))))))"

text \<open>The part after the lock is released, and the final commit.\<close>

definition start_commit :: "proc_env \<Rightarrow> template \<Rightarrow> int \<Rightarrow> bool \<Rightarrow> unit svc_op" where
  "start_commit env t gen retained =
     and_then (on_store (SetHostState (Some (host_state_of t)))) (\<lambda>_.
     and_then (intrude env gen) (\<lambda>_.
     and_then (afterStart env gen (tp_Setting t) retained) (\<lambda>_.
     and_then (intrude env gen) (\<lambda>_.
     and_then (checkProcessOwner gen) (\<lambda>_.
     and_then (on_store (SetRunning True)) (\<lambda>_.
     and_then (on_store (SetLastKernelExitStatus ''running'')) (\<lambda>_.
     and_then (on_store (SetHostState None)) (\<lambda>_.
     change (\<lambda>v. v\<lparr>mg_retainedSetting := None\<rparr>)))))))))"

definition start_undo :: "proc_env \<Rightarrow> int \<Rightarrow> bool \<Rightarrow> unit svc_op" where
  "start_undo env gen retained =
     and_then (intrude env gen) (\<lambda>_.
     and_then (read (owns gen)) (\<lambda>mine.
     and_then (read (\<lambda>v. mg_generation v = gen \<and> mg_p v = None)) (\<lambda>gone.
     and_then
       (if mine then and_then (mgr_stop env True) (\<lambda>_. ignore (on_store (SetHostState None)))
        else if gone \<and> \<not> retained then
          and_then (attempt (on_store GetHostState)) (\<lambda>r.
            case r of
              Inr (Some _) \<Rightarrow>
                and_then (attempt RecoverHostState) (\<lambda>ok.
                  case ok of Inl _ \<Rightarrow> ret () | Inr _ \<Rightarrow> ignore (on_store (SetHostState None)))
            | _ \<Rightarrow> ret ())
        else ret ()) (\<lambda>_.
     if retained then cleanupRetainedInterceptionLocked env else ret ()))))"

definition mgr_start :: "proc_env \<Rightarrow> template \<Rightarrow> bool \<Rightarrow> unit svc_op" where
  "mgr_start env t preserve v =
     (if (se_Transparent (tp_Setting t) = ''gfwlist'' \<or> se_RulePortMode (tp_Setting t) = ''gfwlist'') \<and> \<not> pe_siteDat env
      then (Inl (Failed ''gfwlist''), v)
      else
        (case start_locked env t preserve v of
           (Inl e, v1) \<Rightarrow> (Inl e, v1\<lparr>mg_retaining := False\<rparr>)
         | (Inr (p, gen, retained), v1) \<Rightarrow>
             (case start_commit env t gen retained v1 of
                (Inl e, v2) \<Rightarrow>
                  (case start_undo env gen retained v2 of (_, v3) \<Rightarrow> (Inl e, v3\<lparr>mg_retaining := False\<rparr>))
              | (Inr _, v2) \<Rightarrow> (Inr (), v2\<lparr>mg_retaining := False\<rparr>))))"

definition Running :: "service \<Rightarrow> bool" where
  "Running v \<longleftrightarrow> mg_p v \<noteq> None"

definition ServiceRunning :: "service \<Rightarrow> bool" where
  "ServiceRunning v \<longleftrightarrow> mg_p v \<noteq> None \<and> \<not> mg_testing v \<and> \<not> mg_networkPaused v"

definition MarkShuttingDown :: "unit svc_op" where
  "MarkShuttingDown = change (\<lambda>v. v\<lparr>mg_shuttingDown := True\<rparr>)"

definition SetLatencyTesting :: "bool \<Rightarrow> unit svc_op" where
  "SetLatencyTesting testing = change (\<lambda>v. v\<lparr>mg_testing := testing\<rparr>)"

section \<open>The connectivity monitor\<close>

text \<open>Delays in seconds.\<close>

abbreviation connectivityCheckInterval :: int where "connectivityCheckInterval \<equiv> 15"
abbreviation connectivityBackoffBase :: int where "connectivityBackoffBase \<equiv> 30"
abbreviation connectivityBackoffMax :: int where "connectivityBackoffMax \<equiv> 120"

text \<open>The loop with \<open>n\<close> rounds to go.\<close>

fun backoff_loop :: "nat \<Rightarrow> int \<Rightarrow> int" where
  "backoff_loop 0 delay = delay"
| "backoff_loop (Suc n) delay =
     (let d = delay * 2 in if connectivityBackoffMax \<le> d then connectivityBackoffMax else backoff_loop n d)"

definition connectivityBackoffDelay :: "int \<Rightarrow> int" where
  "connectivityBackoffDelay consecutiveFailures = backoff_loop (nat (consecutiveFailures - 1)) connectivityBackoffBase"

text \<open>The counter and the delay of the loop after one check.\<close>

definition connectivity_round :: "bool \<Rightarrow> int \<Rightarrow> int \<times> int" where
  "connectivity_round healthy failureCount =
     (if \<not> healthy then (failureCount + 1, connectivityBackoffDelay (failureCount + 1))
      else (0, connectivityCheckInterval))"

text \<open>
  One check of the monitor of process \<open>p\<close>: \<open>dead\<close> is the outcome of \<open>tunDataPathDead\<close>, \<open>reachable\<close>
  that of \<open>probePhysicalConnectivity\<close>, during which the lock is free.
\<close>

definition syncConnectivityState :: "proc_env \<Rightarrow> core_proc \<Rightarrow> bool \<Rightarrow> bool \<Rightarrow> (bool \<times> bool) svc_op" where
  "syncConnectivityState env p dead reachable =
     (let gen = cp_generation p; setting = tp_Setting (cp_template p); healthy = (\<not> dead \<and> reachable)
      in and_then (read (\<lambda>v. \<not> owns gen v \<or> mg_testing v)) (\<lambda>gone.
         if gone then ret (True, False)
         else and_then (read mg_networkPaused) (\<lambda>paused.
           if se_TransparentType setting = ''system_proxy'' \<or> \<not> transparent_on env setting then ret (False, True)
           else and_then (intrude env gen) (\<lambda>_.
             and_then (attempt (checkProcessOwner gen)) (\<lambda>owner.
             if isl owner then ret (True, False)
             else if \<not> healthy then
               (if paused then ret (False, False)
                else and_then (attempt (mutateHost env gen deleteTransparentProxyRules)) (\<lambda>r.
                  if isl r then ret (True, False)
                  else and_then (read (\<lambda>v. owns gen v \<and> \<not> mg_testing v)) (\<lambda>mine.
                    if mine then and_then (change (\<lambda>v. v\<lparr>mg_networkPaused := True\<rparr>)) (\<lambda>_. ret (dead, False))
                    else ret (True, False))))
             else if \<not> paused then ret (False, True)
             else and_then (attempt (setupTransparentProxy env gen setting)) (\<lambda>r.
               if isl r then and_then (read (owns gen)) (\<lambda>still. ret (\<not> still, True))
               else and_then (read (\<lambda>v. owns gen v \<and> \<not> mg_testing v)) (\<lambda>mine.
                 if mine then and_then (change (\<lambda>v. v\<lparr>mg_networkPaused := False\<rparr>)) (\<lambda>_. ret (False, True))
                 else ret (True, True))))))))"

end
