(* ===== verification/Node_Ops.thy ===== *)
theory Node_Ops
  imports Core_Process
begin

text \<open>
  Operations of the service on nodes and groups (\<open>connect.go\<close>, \<open>touch.go\<close>, \<open>core_config.go\<close>,
  \<open>subscription.go\<close>, \<open>import.go\<close> under \<open>service/server/service\<close>, and the part of
  \<open>service/kernel/v2ray/process.go\<close> that turns the connected nodes into a template). The builder
  of the template, the parser of a link, the digest of a link and the presence of the asset files
  are parameters. Log lines, the IP forward switch of the host and messages to the front end are
  left out.
\<close>

section \<open>From the connected nodes to the core\<close>

record 'o server_info =
  si_Info :: 'o
  si_OutboundName :: string

record 'o node_env =
  ne_cat :: "'o cat_env"
  ne_proc :: proc_env
  ne_assets :: bool
  ne_Fingerprint :: "string \<Rightarrow> string"
  ne_NewTemplate :: "tables \<Rightarrow> 'o server_info list \<Rightarrow> template option"
  ne_now :: string

definition firsts :: "'a list \<Rightarrow> 'a list" where
  "firsts xs = rev (remdups (rev xs))"

text \<open>Choice of the member a group routes through: the one the user pinned, if it is a member; in a
  group that keeps its current member that one only; otherwise all.\<close>

definition link_of :: "'o node_env \<Rightarrow> 'o server_info \<Rightarrow> string" where
  "link_of env info = ca_ExportToURL (ne_cat env) (si_Info info)"

definition is_manual :: "'o node_env \<Rightarrow> (string \<Rightarrow> outbound_setting) \<Rightarrow> 'o server_info \<Rightarrow> bool" where
  "is_manual env settings info \<longleftrightarrow>
     (let st = settings (si_OutboundName info) in os_Selected st \<noteq> [] \<and> link_of env info = os_Selected st)"

definition is_sticky :: "'o node_env \<Rightarrow> (string \<Rightarrow> outbound_setting) \<Rightarrow> 'o server_info \<Rightarrow> bool" where
  "is_sticky env settings info \<longleftrightarrow>
     (let st = settings (si_OutboundName info)
      in os_Type st = KeepCurrent \<and> os_StickyCurrent st \<noteq> []
         \<and> ne_Fingerprint env (link_of env info) = os_StickyCurrent st)"

fun keep_loop ::
    "'o node_env \<Rightarrow> (string \<Rightarrow> outbound_setting) \<Rightarrow> 'o server_info list \<Rightarrow> string list \<Rightarrow> 'o server_info list
      \<Rightarrow> 'o server_info list" where
  "keep_loop env settings all chosen [] = []"
| "keep_loop env settings all chosen (info # infos) =
     (let out = si_OutboundName info; st = settings out;
          manualMatched = (\<exists>i \<in> set all. si_OutboundName i = out \<and> is_manual env settings i);
          stickyMatched = (\<exists>i \<in> set all. si_OutboundName i = out \<and> is_sticky env settings i)
      in if manualMatched then
           (if link_of env info = os_Selected st \<and> out \<notin> set chosen
            then info # keep_loop env settings all (out # chosen) infos
            else keep_loop env settings all chosen infos)
         else if os_Type st = KeepCurrent then
           (if stickyMatched \<and> ne_Fingerprint env (link_of env info) = os_StickyCurrent st \<and> out \<notin> set chosen
            then info # keep_loop env settings all (out # chosen) infos
            else keep_loop env settings all chosen infos)
         else info # keep_loop env settings all chosen infos)"

definition applySelection :: "'o node_env \<Rightarrow> (string \<Rightarrow> outbound_setting) \<Rightarrow> 'o server_info list \<Rightarrow> 'o server_info list" where
  "applySelection env settings infos = keep_loop env settings infos [] infos"

text \<open>A reference that cannot be located is an error; a nil object is one, too: its methods panic.\<close>

fun locate_all :: "'o cat_env \<Rightarrow> 'o locator \<Rightarrow> node_ref list \<Rightarrow> 'o server_info list db_op" where
  "locate_all env l [] s = (Inr [], s)"
| "locate_all env l (cs # css) s =
     (case Locate env l cs s of
        (Inl e, s') \<Rightarrow> (Inl e, s')
      | (Inr (Inl code, _), s') \<Rightarrow> (Inl (Coded code), s')
      | (Inr (Inr sr, l'), s') \<Rightarrow>
          (case sw_Obj sr of
             None \<Rightarrow> (Inl (Failed ''nil object''), s')
           | Some x \<Rightarrow>
               (case locate_all env l' css s' of
                  (Inl e, s'') \<Rightarrow> (Inl e, s'')
                | (Inr infos, s'') \<Rightarrow> (Inr (\<lparr>si_Info = x, si_OutboundName = nr_Outbound cs\<rparr> # infos), s''))))"

definition getConnectedServerObjs :: "'o node_env \<Rightarrow> 'o server_info list db_op" where
  "getConnectedServerObjs env =
     and_then GetConnectedServers (\<lambda>css.
       if refs_of css = [] then ret []
       else
         and_then (locate_all (ne_cat env) NewLocator (refs_of css)) (\<lambda>infos.
         let outs = firsts (map si_OutboundName infos)
         in and_then (collect GetOutboundSetting outs) (\<lambda>settings. ret
              (applySelection env (\<lambda>out. case map_of (zip outs settings) out of Some st \<Rightarrow> st | None \<Rightarrow> zero_outbound) infos))))"

definition NewTemplateFromConnectedServers :: "'o node_env \<Rightarrow> template db_op" where
  "NewTemplateFromConnectedServers env =
     and_then (getConnectedServerObjs env) (\<lambda>infos.
     and_then (if infos = [] then HasFailClosedGroup else ret True) (\<lambda>go.
       if \<not> go then fail (Coded ''NO_SERVER_SELECTED'')
       else
         and_then (query (\<lambda>t. ne_NewTemplate env t infos)) (\<lambda>tmpl.
           case tmpl of None \<Rightarrow> fail (Failed ''template'') | Some t \<Rightarrow> ret t)))"

definition updateV2RayConfig :: "'o node_env \<Rightarrow> bool \<Rightarrow> unit svc_op" where
  "updateV2RayConfig env preserve v =
     (case on_store (NewTemplateFromConnectedServers env) v of
        (Inl e, v') \<Rightarrow> if e = Coded ''NO_SERVER_SELECTED'' then Mgr_Stop (ne_proc env) True v' else (Inl e, v')
      | (Inr t, v') \<Rightarrow> mgr_start (ne_proc env) t preserve v')"

abbreviation UpdateV2RayConfig :: "'o node_env \<Rightarrow> unit svc_op" where
  "UpdateV2RayConfig env \<equiv> updateV2RayConfig env False"

abbreviation UpdateGroupConfig :: "'o node_env \<Rightarrow> unit svc_op" where
  "UpdateGroupConfig env \<equiv> updateV2RayConfig env True"

section \<open>Connecting and disconnecting\<close>

definition automatic_group :: store_error where
  "automatic_group = Failed ''automatic group''"

definition StartV2ray :: "'o node_env \<Rightarrow> unit svc_op" where
  "StartV2ray env =
     (if \<not> ne_assets env then fail (Failed ''assets'')
      else
        and_then (on_store GetConnectedServers) (\<lambda>css.
        and_then (if refs_of css = [] then on_store HasFailClosedGroup else ret True) (\<lambda>go.
          if \<not> go then fail (Coded ''NO_SERVER_SELECTED'') else UpdateV2RayConfig env)))"

definition restore_members :: "'o node_env \<Rightarrow> string \<Rightarrow> node_ref list option \<Rightarrow> unit svc_op" where
  "restore_members env outbound backup =
     (if refs_of backup \<noteq> [] then ignore (on_store (OverwriteConnects (ne_cat env) (refs_of backup)))
      else ignore (on_store (ClearConnects outbound)))"

definition Connect :: "'o node_env \<Rightarrow> node_ref \<Rightarrow> unit svc_op" where
  "Connect env which0 =
     (let w = normal_ref which0
      in and_then (on_store (GetOutboundSetting (nr_Outbound w))) (\<lambda>setting.
         if os_AutoAdd setting then fail automatic_group
         else
           and_then (on_store (LocateServerRaw (ne_cat env) w)) (\<lambda>_.
           if \<not> ne_assets env then fail (Failed ''assets'')
           else
             and_then (on_store (GetConnectedServersByOutbound (nr_Outbound w))) (\<lambda>currentConnected.
             and_then
               (attempt (and_then (on_store (AddConnect w)) (\<lambda>_. UpdateV2RayConfig env)))
               (\<lambda>r. case r of
                  Inr _ \<Rightarrow> ret ()
                | Inl e \<Rightarrow>
                    and_then (restore_members env (nr_Outbound w) currentConnected) (\<lambda>_.
                    and_then (read Running) (\<lambda>running.
                    and_then (if running then ignore (UpdateV2RayConfig env) else ret ()) (\<lambda>_. fail e))))))))"

definition Disconnect :: "'o node_env \<Rightarrow> node_ref \<Rightarrow> bool \<Rightarrow> unit svc_op" where
  "Disconnect env which0 clearOutbound =
     (let w = normal_ref which0
      in and_then (on_store (GetOutboundSetting (nr_Outbound w))) (\<lambda>setting.
         if os_AutoAdd setting then fail automatic_group
         else
           and_then (on_store (GetConnectedServersByOutbound (nr_Outbound w))) (\<lambda>lastConnected.
           and_then (on_store (if clearOutbound then ClearConnects (nr_Outbound w) else RemoveConnect w)) (\<lambda>_.
           and_then (read Running) (\<lambda>running.
             if \<not> running then ret ()
             else
               and_then (attempt (UpdateV2RayConfig env)) (\<lambda>r.
                 case r of
                   Inr _ \<Rightarrow> ret ()
                 | Inl e \<Rightarrow>
                     and_then (read Running) (\<lambda>still.
                     and_then
                       (if lastConnected \<noteq> None \<and> still then
                          and_then (ignore (on_store (OverwriteConnects (ne_cat env) (refs_of lastConnected)))) (\<lambda>_.
                            ignore (UpdateV2RayConfig env))
                        else ret ()) (\<lambda>_. fail e))))))))"

fun normalize_touches :: "string \<Rightarrow> (string \<times> int \<times> int) list \<Rightarrow> node_ref list \<Rightarrow> store_error + node_ref list" where
  "normalize_touches outbound seen [] = Inr []"
| "normalize_touches outbound seen (wt0 # wts) =
     (let wt1 = wt0\<lparr>nr_Outbound := outbound\<rparr>
      in if nr_ID wt1 \<le> 0 then Inl (Failed ''touch id'')
         else if nr_TYPE wt1 \<noteq> ServerType \<and> nr_TYPE wt1 \<noteq> SubscriptionServerType then Inl (Failed ''touch type'')
         else if nr_TYPE wt1 = SubscriptionServerType \<and> nr_Sub wt1 < 0 then Inl (Failed ''subscription index'')
         else
           let wt = (if nr_TYPE wt1 = ServerType then wt1\<lparr>nr_Sub := 0\<rparr> else wt1);
               key = (nr_TYPE wt, nr_ID wt, nr_Sub wt)
           in if key \<in> set seen then normalize_touches outbound seen wts
              else (case normalize_touches outbound (key # seen) wts of
                      Inl e \<Rightarrow> Inl e
                    | Inr rest \<Rightarrow> Inr (wt # rest)))"

definition replaceOutboundConnections :: "'o node_env \<Rightarrow> string \<Rightarrow> node_ref list \<Rightarrow> bool \<Rightarrow> unit svc_op" where
  "replaceOutboundConnections env outbound0 touches managed =
     (let outbound = or_proxy outbound0
      in and_then (on_store (GetOutboundSetting outbound)) (\<lambda>setting.
         if os_AutoAdd setting \<noteq> managed then fail automatic_group
         else (case normalize_touches outbound [] touches of
           Inl e \<Rightarrow> fail e
         | Inr normalized \<Rightarrow>
             and_then (on_store (GetConnectedServersByOutbound outbound)) (\<lambda>backup.
             and_then
               (attempt (on_store (if normalized = [] then ClearConnects outbound
                                   else OverwriteConnects (ne_cat env) normalized)))
               (\<lambda>r. case r of
                  Inl e \<Rightarrow> and_then (restore_members env outbound backup) (\<lambda>_. fail e)
                | Inr _ \<Rightarrow>
                    and_then (read Running) (\<lambda>running.
                      if \<not> running then ret ()
                      else
                        and_then (attempt (UpdateGroupConfig env)) (\<lambda>u.
                          case u of
                            Inr _ \<Rightarrow> ret ()
                          | Inl e \<Rightarrow>
                              and_then (restore_members env outbound backup) (\<lambda>_.
                              and_then (ignore (UpdateGroupConfig env)) (\<lambda>_. fail e)))))))))"

section \<open>Changing the configuration of the core\<close>

text \<open>The error tells whether the previous value was stored again and the core restarted with it.\<close>

definition applyCoreConfig :: "unit svc_op \<Rightarrow> unit svc_op \<Rightarrow> unit svc_op \<Rightarrow> unit svc_op" where
  "applyCoreConfig restore stores update =
     and_then stores (\<lambda>_.
     and_then (read Running) (\<lambda>running.
       if \<not> running then ret ()
       else
         and_then (attempt update) (\<lambda>r.
           case r of
             Inr _ \<Rightarrow> ret ()
           | Inl e \<Rightarrow>
               and_then (attempt restore) (\<lambda>u.
                 case u of
                   Inl _ \<Rightarrow> fail (Failed ''not restored'')
                 | Inr _ \<Rightarrow>
                     and_then (attempt update) (\<lambda>u2.
                       case u2 of Inl _ \<Rightarrow> fail (Failed ''core not restarted'') | Inr _ \<Rightarrow> fail e)))))"

section \<open>Deleting servers and subscriptions\<close>

definition drop_sub :: "int \<Rightarrow> node_ref \<Rightarrow> node_ref list" where
  "drop_sub ind cs =
     (if nr_TYPE cs = SubscriptionServerType then
        (if ind = nr_Sub cs then []
         else if ind < nr_Sub cs then [cs\<lparr>nr_Sub := nr_Sub cs - 1\<rparr>]
         else [cs])
      else [cs])"

definition drop_server :: "int \<Rightarrow> node_ref \<Rightarrow> node_ref list" where
  "drop_server i cs =
     (if nr_TYPE cs = ServerType then
        (if i = nr_ID cs then []
         else if i < nr_ID cs then [cs\<lparr>nr_ID := nr_ID cs - 1\<rparr>]
         else [cs])
      else [cs])"

text \<open>One item of the request: the references after it, the subscriptions and servers to delete.\<close>

definition delete_step :: "which \<Rightarrow> node_ref list \<times> int list \<times> int list \<Rightarrow> node_ref list \<times> int list \<times> int list" where
  "delete_step v st =
     (case st of (css, subs, servers) \<Rightarrow>
        if nr_TYPE v = SubscriptionType then
          (concat (map (drop_sub (nr_ID v - 1)) css), subs @ [nr_ID v - 1], servers)
        else if nr_TYPE v = ServerType then
          (concat (map (drop_server (nr_ID v)) css), subs, servers @ [nr_ID v - 1])
        else (css, subs, servers))"

definition DeleteWhich :: "'o node_env \<Rightarrow> which list \<Rightarrow> unit svc_op" where
  "DeleteWhich env ws =
     and_then (on_store (GetNonDuplicated (ne_cat env) ws)) (\<lambda>kept.
     and_then (on_store GetConnectedServers) (\<lambda>cssRaw.
       case fold delete_step (SortSameTypeReverse kept) (refs_of cssRaw, [], []) of
         (cssAfter, subs, servers) \<Rightarrow>
           and_then (on_store (RemoveNodes (ne_cat env) subs servers cssAfter)) (\<lambda>_.
           and_then (read Running) (\<lambda>running. if running then UpdateGroupConfig env else ret ()))))"

section \<open>Updating a subscription\<close>

fun unique_match :: "('o \<Rightarrow> bool) \<Rightarrow> nat \<Rightarrow> int \<Rightarrow> 'o list \<Rightarrow> int" where
  "unique_match m i found [] = found"
| "unique_match m i found (n # ns) =
     (if m n then (if found \<noteq> 0 then -1 else unique_match m (Suc i) (int i + 1) ns)
      else unique_match m (Suc i) found ns)"

fun exact_match :: "'o cat_env \<Rightarrow> string \<Rightarrow> nat \<Rightarrow> 'o list \<Rightarrow> int option" where
  "exact_match env url i [] = None"
| "exact_match env url i (n # ns) = (if ca_ExportToURL env n = url then Some (int i + 1) else exact_match env url (Suc i) ns)"

definition same_endpoint :: "'o cat_env \<Rightarrow> 'o \<Rightarrow> 'o \<Rightarrow> bool" where
  "same_endpoint env x n \<longleftrightarrow>
     ca_GetProtocol env n = ca_GetProtocol env x \<and> ca_GetHostname env n = ca_GetHostname env x
     \<and> ca_GetPort env n = ca_GetPort env x"

definition same_name :: "'o cat_env \<Rightarrow> 'o \<Rightarrow> 'o \<Rightarrow> bool" where
  "same_name env x n \<longleftrightarrow>
     ca_GetName env x \<noteq> [] \<and> ca_GetName env n = ca_GetName env x \<and> ca_GetProtocol env n = ca_GetProtocol env x"

definition remapSubscriptionNodeDetailed :: "'o cat_env \<Rightarrow> 'o option \<Rightarrow> 'o list \<Rightarrow> int \<times> bool" where
  "remapSubscriptionNodeDetailed env old nodes =
     (case old of
        None \<Rightarrow> (0, False)
      | Some x \<Rightarrow>
          (case exact_match env (ca_ExportToURL env x) 0 nodes of
             Some i \<Rightarrow> (i, True)
           | None \<Rightarrow>
               let a = unique_match (same_endpoint env x) 0 0 nodes;
                   b = unique_match (same_name env x) 0 0 nodes
               in if 0 < a then (a, False) else if 0 < b then (b, False) else (0, False)))"

definition of_subscription :: "int \<Rightarrow> node_ref \<Rightarrow> bool" where
  "of_subscription index ref \<longleftrightarrow> nr_TYPE ref = SubscriptionServerType \<and> nr_Sub ref = index"

text \<open>The new number of each connected server, and how many different ones claim a number without an exact match.\<close>

definition mapped_ids :: "'o cat_env \<Rightarrow> int \<Rightarrow> 'o server_raw list \<Rightarrow> 'o list \<Rightarrow> node_ref list \<Rightarrow> (int \<times> int \<times> bool) list" where
  "mapped_ids env index old nodes refs =
     map (\<lambda>i. (i, remapSubscriptionNodeDetailed env (sw_Obj (old ! nat (i - 1))) nodes))
       (firsts (map nr_ID (filter (\<lambda>r. of_subscription index r \<and> 0 < nr_ID r \<and> nr_ID r \<le> int (length old)) refs)))"

definition fallback_claims :: "(int \<times> int \<times> bool) list \<Rightarrow> int \<Rightarrow> nat" where
  "fallback_claims mapped k = length (filter (\<lambda>(i, m, exact). m = k \<and> m \<noteq> 0 \<and> \<not> exact) mapped)"

record 'o remap =
  rm_servers :: "'o server_raw list"
  rm_retained :: "(int \<times> int) list"
  rm_updated :: "node_ref list"
  rm_affected :: bool

definition url_of :: "'o cat_env \<Rightarrow> 'o server_raw \<Rightarrow> string option" where
  "url_of env r = map_option (ca_ExportToURL env) (sw_Obj r)"

text \<open>One connected reference of the subscription; \<open>drop\<close> says whether a lost node is dropped from its group.\<close>

definition remap_ref ::
    "'o cat_env \<Rightarrow> 'o server_raw list \<Rightarrow> (int \<times> int \<times> bool) list \<Rightarrow> bool \<Rightarrow> node_ref \<Rightarrow> 'o remap \<Rightarrow> 'o remap" where
  "remap_ref env old mapped drops ref st =
     (let raw = old ! nat (nr_ID ref - 1);
          (m, exact) = (case map_of mapped (nr_ID ref) of Some p \<Rightarrow> p | None \<Rightarrow> (0, False));
          k = (if \<not> exact \<and> 1 < fallback_claims mapped m then 0 else m)
      in if k = 0 \<and> drops then st\<lparr>rm_affected := True\<rparr>
         else
           let (k', st') =
                 (if k \<noteq> 0 then (k, st)
                  else case map_of (rm_retained st) (nr_ID ref) of
                         Some j \<Rightarrow> (j, st)
                       | None \<Rightarrow>
                           (int (length (rm_servers st)) + 1,
                            st\<lparr>rm_servers := rm_servers st @ [raw],
                              rm_retained := (nr_ID ref, int (length (rm_servers st)) + 1) # rm_retained st\<rparr>))
           in st'\<lparr>rm_affected := rm_affected st' \<or> k' \<noteq> nr_ID ref
                     \<or> url_of env (rm_servers st' ! nat (k' - 1)) \<noteq> url_of env raw,
                  rm_updated := rm_updated st' @ [ref\<lparr>nr_ID := k'\<rparr>]\<rparr>)"

fun remap_refs ::
    "'o cat_env \<Rightarrow> int \<Rightarrow> 'o server_raw list \<Rightarrow> (int \<times> int \<times> bool) list \<Rightarrow> bool \<Rightarrow> node_ref list \<Rightarrow> 'o remap
      \<Rightarrow> 'o remap db_op" where
  "remap_refs env index old mapped disconnect [] st s = (Inr st, s)"
| "remap_refs env index old mapped disconnect (ref # refs) st s =
     (if of_subscription index ref then
        (if nr_ID ref \<le> 0 \<or> int (length old) < nr_ID ref then (Inl (Failed ''invalid reference''), s)
         else
           let (m, exact) = (case map_of mapped (nr_ID ref) of Some p \<Rightarrow> p | None \<Rightarrow> (0, False));
               lost = (m = 0 \<or> (\<not> exact \<and> 1 < fallback_claims mapped m))
           in if lost \<and> \<not> disconnect then
                (case GetOutboundSetting (nr_Outbound ref) s of
                   (Inl e, s') \<Rightarrow> (Inl e, s')
                 | (Inr setting, s') \<Rightarrow>
                     remap_refs env index old mapped disconnect refs
                       (remap_ref env old mapped (os_AutoAdd setting) ref st) s')
              else remap_refs env index old mapped disconnect refs (remap_ref env old mapped disconnect ref st) s)
      else remap_refs env index old mapped disconnect refs (st\<lparr>rm_updated := rm_updated st @ [ref]\<rparr>) s)"

definition storeSubscriptionUpdate ::
    "'o node_env \<Rightarrow> int \<Rightarrow> 'o subscription_raw \<Rightarrow> 'o list \<Rightarrow> string \<Rightarrow> bool \<Rightarrow> unit svc_op" where
  "storeSubscriptionUpdate env index old nodes info disconnect =
     (let cat = ne_cat env
      in and_then (on_store GetConnectedServers) (\<lambda>previous.
         and_then
           (on_store (remap_refs cat index (su_Servers old)
              (mapped_ids cat index (su_Servers old) nodes (refs_of previous)) disconnect (refs_of previous)
              \<lparr>rm_servers = map (\<lambda>n. \<lparr>sw_Obj = Some n, sw_Latency = []\<rparr>) nodes, rm_retained = [],
               rm_updated = [], rm_affected = False\<rparr>))
           (\<lambda>st.
             let next_sub = old\<lparr>su_Servers := rm_servers st, su_Status := ne_now env, su_Info := info\<rparr>
             in and_then (on_store (SetSubscriptionAndConnects cat index next_sub (rm_updated st))) (\<lambda>_.
                and_then (read Running) (\<lambda>running.
                  if \<not> rm_affected st \<or> \<not> running then ret ()
                  else
                    and_then (attempt (UpdateV2RayConfig env)) (\<lambda>r.
                      case r of
                        Inr _ \<Rightarrow> ret ()
                      | Inl e \<Rightarrow>
                          and_then (ignore (on_store (SetSubscriptionAndConnects cat index old (refs_of previous)))) (\<lambda>_.
                          and_then (ignore (UpdateV2RayConfig env)) (\<lambda>_. fail e))))))))"

record sub_request =
  rq_ID :: int
  rq_Remarks :: string
  rq_Address :: string
  rq_UpdateMode :: "string option"
  rq_UpdateInterval :: "int option"
  rq_FailureInterval :: "int option"
  rq_AllowDirect :: "bool option"

definition policy_ok :: "sub_request \<Rightarrow> string \<Rightarrow> int \<Rightarrow> int \<Rightarrow> bool" where
  "policy_ok rq mode regular failure \<longleftrightarrow>
     mode = ''disabled'' \<or> mode = ''on_start''
   \<or> (mode = ''at_interval'' \<and> \<not> (rq_UpdateMode rq \<noteq> None \<and> rq_UpdateInterval rq = None)
        \<and> 1 \<le> regular \<and> regular \<le> 525600)
   \<or> (mode = ''interval_failsafe''
        \<and> \<not> (rq_UpdateMode rq \<noteq> None \<and> (rq_UpdateInterval rq = None \<or> rq_FailureInterval rq = None))
        \<and> 1 \<le> regular \<and> regular \<le> 525600 \<and> 1 \<le> failure \<and> failure \<le> 525600)"

definition or_old :: "'a option \<Rightarrow> 'a \<Rightarrow> 'a" where
  "or_old x old = (case x of None \<Rightarrow> old | Some y \<Rightarrow> y)"

definition ModifySubscriptionRemark :: "'o cat_env \<Rightarrow> sub_request \<Rightarrow> unit db_op" where
  "ModifySubscriptionRemark env rq =
     and_then (GetSubscription env (rq_ID rq - 1)) (\<lambda>got.
       case got of
         None \<Rightarrow> fail (Coded ''SUBSCRIPTION_NOT_FOUND'')
       | Some raw \<Rightarrow>
           let mode = or_old (rq_UpdateMode rq) (su_UpdateMode raw);
               regular = or_old (rq_UpdateInterval rq) (su_UpdateInterval raw);
               failure0 = or_old (rq_FailureInterval rq) (su_FailureInterval raw);
               failure = (if failure0 = 0 \<and> mode \<noteq> ''interval_failsafe'' then 1 else failure0)
           in if \<not> policy_ok rq mode regular failure then fail (Failed ''update policy'')
              else SetSubscription env (rq_ID rq - 1)
                     (raw\<lparr>su_Remarks := rq_Remarks rq, su_Address := rq_Address rq, su_UpdateMode := mode,
                          su_UpdateInterval := regular, su_FailureInterval := failure,
                          su_AllowDirect := or_old (rq_AllowDirect rq) (su_AllowDirect raw)\<rparr>))"

end
