(* ===== verification/Core_Process_Correct.thy ===== *)
theory Core_Process_Correct
  imports Core_Process Catalog_Correct
begin

text \<open>
  The manager of the core process: whatever the host, the database and the other goroutines do
  during a start, the packet filter rules of the transparent proxy are installed only while a
  core runs that serves them, and no core is left running without an owner. Everything the
  manager stores lies under the keys of the system, so the catalog of nodes and groups is kept.
\<close>

section \<open>Operations of the service\<close>

lemma keeps_on_store [keep]: "keeps I m \<Longrightarrow> keeps (\<lambda>v. I (sv_store v)) (on_store m)"
  by (simp add: keeps_def on_store_def case_prod_beta)

lemma keeps_read [keep]: "keeps I (read f)"
  by (simp add: keeps_def read_def)

lemma keeps_change: "(\<And>v. I v \<Longrightarrow> I (f v)) \<Longrightarrow> keeps I (change f)"
  by (simp add: keeps_def change_def)

lemma keeps_ignore [keep]: "keeps I m \<Longrightarrow> keeps I (ignore m)"
  by (simp add: keeps_def ignore_def case_prod_beta)

lemma keeps_host_run: "(\<And>v l xs. I v \<Longrightarrow> I (f (v\<lparr>ho_log := l, ho_outcomes := xs\<rparr>))) \<Longrightarrow> keeps I (host_run e f)"
  by (simp add: keeps_def host_run_def Let_def)

lemma keeps_run_hook: "(\<And>v l xs. I v \<Longrightarrow> I (v\<lparr>ho_log := l, ho_outcomes := xs\<rparr>)) \<Longrightarrow> keeps I (run_hook c e)"
  by (simp add: run_hook_def keep keeps_host_run)

section \<open>What the manager keeps of the database\<close>

text \<open>A property of the database that reading keeps and so does every write under a key of the system.\<close>

locale store_frame =
  fixes I :: "store \<Rightarrow> bool"
  assumes read_keeps: "keeps I (query (\<lambda>t. t))"
    and system_keeps: "keeps I (setValue ''system'' k x)"
    and system_delete_keeps: "keeps I (Delete ''system'' k)"
begin

abbreviation kept :: "service \<Rightarrow> bool" where
  "kept v \<equiv> I (sv_store v)"

lemma query_keeps [keep]: "keeps I (query f)"
proof -
  have "snd (query f s) = snd (query (\<lambda>t. t) s)" for s
    by (simp add: query_def sql_def split: list.split bool.split)
  with read_keeps show ?thesis by (simp add: keeps_def)
qed

lemma stored_status [keep]:
  "keeps I (SetRunning b)" "keeps I (SetLastKernelExitStatus st)" "keeps I (SetHostState h)" "keeps I GetHostState"
  by (auto simp: SetRunning_def SetLastKernelExitStatus_def SetHostState_def GetHostState_def getRecoveryState_def
      intro!: system_keeps system_delete_keeps keep split: option.splits)

lemma on_host [keep]:
  "keeps kept (run_hook c e)" "keeps kept deleteTransparentProxyRules" "keeps kept RecoverHostState"
  "keeps kept (close_proc p)" "keeps kept (startConnectivityMonitor env gen st)" "keeps kept (NewProcess env gen t)"
  by (auto simp: deleteTransparentProxyRules_def RecoverHostState_def close_proc_def
      startConnectivityMonitor_def intro!: keeps_run_hook keeps_change keeps_host_run keep)
    (simp add: keeps_def NewProcess_def Let_def split: launch_result.split list.split)

lemma write_rules_keeps [keep]: "keeps kept write_rules"
  by (auto simp: write_rules_def intro!: keeps_change keeps_host_run keep)

lemma stops [keep]:
  "keeps kept (checkAndStopTransparentProxy env s)" "keeps kept (cleanupRetainedInterceptionLocked env)"
  "keeps kept (mgr_stop env b)" "keeps kept (Mgr_Stop env b)" "keeps kept (handleUnexpectedStop env gen)"
proof -
  show a: "keeps kept (checkAndStopTransparentProxy env s)" for s
    by (auto simp: checkAndStopTransparentProxy_def intro!: keep keeps_change)
  then show b: "keeps kept (cleanupRetainedInterceptionLocked env)"
    by (auto simp: cleanupRetainedInterceptionLocked_def intro!: keep keeps_change)
  from a show c: "keeps kept (mgr_stop env b)" for b
    by (auto simp: mgr_stop_def beforeStop_def intro!: keep keeps_change)
  with b show "keeps kept (Mgr_Stop env b)"
    by (auto simp: Mgr_Stop_def intro!: keep keeps_change)
  from c show "keeps kept (handleUnexpectedStop env gen)"
    by (auto simp: handleUnexpectedStop_def intro!: keep)
qed

lemma intrude_keeps [keep]: "keeps kept (intrude env gen)"
proof (rule keepsI)
  fix v r v'
  assume v: "kept v" "intrude env gen v = (r, v')"
  have start: "kept (v\<lparr>ho_intrusions := xs\<rparr>)" "kept (v\<lparr>ho_intrusions := xs, ho_cores := c\<rparr>)" for xs c
    using v(1) by simp_all
  show "kept v'"
  proof (cases "ho_intrusions v")
    case (Cons x xs)
    then show ?thesis
      using v(2) keepsD [OF stops(4) start(1)] keepsD [OF stops(5) start(2)] start(1)
      by (cases x) (auto simp: intrude_def)
  qed (use v in \<open>simp add: intrude_def, use start in auto\<close>)
qed

lemma mgr_start_keeps [keep]: "keeps kept (mgr_start env t preserve)"
proof (rule keepsI)
  fix v r v'
  assume v: "kept v" "mgr_start env t preserve v = (r, v')"
  have lock: "keeps kept (start_locked env t preserve)"
    by (auto simp: start_locked_def recover_pending_def intro!: keep keeps_change)
  have mut: "keeps kept act \<Longrightarrow> keeps kept (mutateHost env gen act)" for act gen
    by (auto simp: mutateHost_def checkProcessOwner_def intro!: keep)
  have com: "keeps kept (start_commit env t gen retained)" for gen retained
    by (auto simp: start_commit_def afterStart_def setupTransparentProxy_def checkProcessOwner_def
        intro!: keep mut keeps_change)
  have undo: "keeps kept (start_undo env gen retained)" for gen retained
    by (auto simp: start_undo_def intro!: keep)
  obtain r1 v1 where one: "start_locked env t preserve v = (r1, v1)" by (cases "start_locked env t preserve v")
  note kept1 = keepsD [OF lock v(1) one]
  show "kept v'"
  proof (cases r1)
    case (Inl e)
    then show ?thesis using v one kept1 by (auto simp: mgr_start_def split: if_splits)
  next
    case (Inr q)
    obtain p gen retained where q: "q = (p, gen, retained)" by (cases q)
    obtain r2 v2 where two: "start_commit env t gen retained v1 = (r2, v2)" by (cases "start_commit env t gen retained v1")
    obtain r3 v3 where three: "start_undo env gen retained v2 = (r3, v3)" by (cases "start_undo env gen retained v2")
    note kept2 = keepsD [OF com kept1 two]
    note kept3 = keepsD [OF undo kept2 three]
    show ?thesis
      using v one Inr q two three kept2 kept3 by (cases r2) (auto simp: mgr_start_def split: if_splits)
  qed
qed

end

text \<open>The catalog of nodes and groups a store holds.\<close>

definition same_catalog :: "tables \<Rightarrow> store \<Rightarrow> bool" where
  "same_catalog t s \<longleftrightarrow>
     (let u = st_tables s
      in catalog_ok u \<and> servers_in u = servers_in t \<and> subs_in u = subs_in t \<and> outs_in u = outs_in t
         \<and> group_in u = group_in t \<and> setting_in u = setting_in t)"

lemma keeps_exec:
  assumes "\<And>s fs. I s \<Longrightarrow> I (s\<lparr>st_faults := fs\<rparr>)" and "\<And>s fs. I s \<Longrightarrow> I (s\<lparr>st_tables := f (st_tables s), st_faults := fs\<rparr>)"
  shows "keeps I (exec f)"
  using assms by (auto simp: keeps_def exec_def sql_def split: list.split bool.split)

lemma system_put_catalog:
  "group_in (put_config (makeKey ''system'' k) x t) = group_in t"
  "setting_in (put_config (makeKey ''system'' k) x t) = setting_in t"
  "outs_in (put_config k' x t) = outs_in t"
  by (auto simp: group_in_def setting_in_def outs_in_def fun_eq_iff conn_key_system)

lemma map_of_filter_key: "map_of (filter (\<lambda>(k', _). k' \<noteq> k) xs) k' = (if k' = k then None else map_of xs k')"
  by (induction xs) auto

interpretation catalog_frame: store_frame "same_catalog t" for t
proof
  show "keeps (same_catalog t) (query (\<lambda>t. t))"
    by (auto simp: keeps_def query_def sql_def same_catalog_def Let_def split: list.split bool.split)
  show "keeps (same_catalog t) (setValue ''system'' k x)" for k x
    unfolding setValue_def by (rule keeps_exec) (auto simp: same_catalog_def Let_def system_put_catalog)
  let ?del = "\<lambda>k u. u\<lparr>tb_config := filter (\<lambda>(k', _). k' \<noteq> makeKey ''system'' k) (tb_config u)\<rparr>"
  have at: "config_in (?del k u) k' = (if k' = makeKey ''system'' k then None else config_in u k')" for k k' u
    by (simp add: config_in_def map_of_filter_key)
  have gone: "group_in (?del k u) = group_in u" "setting_in (?del k u) = setting_in u" "outs_in (?del k u) = outs_in u"
    "subs_in (?del k u) = subs_in u" for k u
    by (auto simp: subs_in_def group_in_def setting_in_def outs_in_def fun_eq_iff conn_key_system at)
  have "catalog_ok u \<Longrightarrow> catalog_ok (?del k u)" for u k
    using catalog_okD [of u] by (intro catalog_okI) (auto simp: distinct_map_filter)
  then show "keeps (same_catalog t) (Delete ''system'' k)" for k
    unfolding Delete_def by (intro keeps_exec) (auto simp: same_catalog_def Let_def gone)
qed

interpretation calm_frame: store_frame calm
proof
  have exec: "keeps calm (exec f)" for f
    by (auto simp: keeps_def calm_def exec_def sql_def)
  then show "keeps calm (setValue ''system'' k x)" "keeps calm (Delete ''system'' k)" for k x
    by (simp_all add: setValue_def Delete_def)
  show "keeps calm (query (\<lambda>t. t))" by (auto simp: keeps_def calm_def query_def sql_def)
qed

section \<open>Starting and stopping\<close>

text \<open>
  Between two operations of the manager: rules are installed only for a current core whose setting
  asks for them, that core is the only one, nothing is retained.
\<close>

definition settled :: "service \<Rightarrow> bool" where
  "settled v \<longleftrightarrow>
     \<not> mg_retaining v \<and> mg_retainedSetting v = None \<and> (ho_rules v \<longrightarrow> mg_transparentOn v)
   \<and> (case mg_p v of
        None \<Rightarrow> \<not> mg_transparentOn v \<and> ho_cores v = {}
      | Some p \<Rightarrow> cp_generation p = mg_generation v \<and> ho_cores v \<subseteq> {cp_generation p}
          \<and> (mg_transparentOn v \<longrightarrow> se_Transparent (tp_Setting (cp_template p)) \<noteq> ''close''))"

text \<open>During a start of generation \<open>gen\<close> with the template \<open>t\<close>.\<close>

definition underway :: "int \<Rightarrow> template \<Rightarrow> bool \<Rightarrow> service \<Rightarrow> bool" where
  "underway gen t retained v \<longleftrightarrow>
     mg_generation v = gen
   \<and> (mg_p v = None \<or> mg_p v = Some \<lparr>cp_generation = gen, cp_template = t\<rparr>)
   \<and> (ho_rules v \<longrightarrow> mg_transparentOn v)
   \<and> (mg_transparentOn v \<longrightarrow> se_Transparent (tp_Setting t) \<noteq> ''close'' \<and> (mg_p v = None \<longrightarrow> mg_retainedSetting v \<noteq> None))
   \<and> (mg_retainedSetting v = None \<or> (retained \<and> mg_retainedSetting v = Some (tp_Setting t)))
   \<and> (mg_retaining v \<longrightarrow> mg_retainedSetting v \<noteq> None)
   \<and> ho_cores v \<subseteq> (if mg_p v = None then {} else {gen})"

text \<open>What the invariant looks at; hooks and stores leave it alone.\<close>

definition view :: "service \<Rightarrow> core_proc option \<times> int \<times> bool \<times> bool \<times> full_setting option \<times> bool \<times> int set" where
  "view v = (mg_p v, mg_generation v, mg_transparentOn v, mg_retaining v, mg_retainedSetting v, ho_rules v, ho_cores v)"

lemma view_eq: "view v' = view v \<Longrightarrow>
   mg_p v' = mg_p v \<and> mg_generation v' = mg_generation v \<and> mg_transparentOn v' = mg_transparentOn v
 \<and> mg_retaining v' = mg_retaining v \<and> mg_retainedSetting v' = mg_retainedSetting v \<and> ho_rules v' = ho_rules v
 \<and> ho_cores v' = ho_cores v"
  by (simp add: view_def)

lemma underway_view: "view v' = view v \<Longrightarrow> underway gen t r v' = underway gen t r v"
  by (drule view_eq) (simp add: underway_def)

lemma view_run [simp]:
  "view (snd (on_store m v)) = view v" "view (snd (run_hook c e v)) = view v"
  "view (snd (ignore m' v)) = view (snd (m' v))"
  by (simp_all add: view_def on_store_def run_hook_def host_run_def ignore_def Let_def case_prod_beta)

lemma and_then_ignore [simp]: "and_then (ignore m) k v = k () (snd (m v))"
  by (simp add: and_then_def ignore_def case_prod_beta)

lemma and_then_change [simp]: "and_then (change f) k v = k () (f v)"
  by (simp add: and_then_def change_def)

lemma and_then_read [simp]: "and_then (read f) k v = k (f v) v"
  by (simp add: and_then_def read_def)

lemma ignore_run: "ignore m v = (Inr (), snd (m v))"
  by (simp add: ignore_def case_prod_beta)

lemma settled_underway:
  assumes "settled v"
  obtains t where "underway (mg_generation v) t False v" and "\<And>p. mg_p v = Some p \<Longrightarrow> cp_template p = t"
proof (cases "mg_p v")
  case None
  with assms have "underway (mg_generation v) undefined False v" unfolding settled_def underway_def by auto
  with None show thesis by (intro that) simp_all
next
  case (Some p)
  then obtain t where p: "mg_p v = Some \<lparr>cp_generation = mg_generation v, cp_template = t\<rparr>"
    using assms by (cases p) (simp add: settled_def)
  with assms have "underway (mg_generation v) t False v"
    unfolding settled_def underway_def by simp
  with p show thesis by (intro that) simp_all
qed

lemma underway_settled:
  "underway gen t retained v \<Longrightarrow> mg_retainedSetting v = None \<Longrightarrow> settled v"
  by (auto simp: settled_def underway_def)

lemma underway_idle:
  "mg_p v = None \<Longrightarrow> underway gen t retained v \<longleftrightarrow>
     mg_generation v = gen \<and> (ho_rules v \<longrightarrow> mg_transparentOn v)
   \<and> (mg_transparentOn v \<longrightarrow> se_Transparent (tp_Setting t) \<noteq> ''close'' \<and> mg_retainedSetting v \<noteq> None)
   \<and> (mg_retainedSetting v = None \<or> (retained \<and> mg_retainedSetting v = Some (tp_Setting t)))
   \<and> (mg_retaining v \<longrightarrow> mg_retainedSetting v \<noteq> None) \<and> ho_cores v = {}"
  by (simp add: underway_def)

lemma underway_off:
  "underway gen t retained v \<Longrightarrow> mg_p v = None \<Longrightarrow> \<not> mg_transparentOn v \<Longrightarrow> mg_generation v = gen \<and> \<not> ho_rules v \<and> ho_cores v = {}"
  by (auto simp: underway_def)

lemma stop_proxy:
  assumes "underway gen t retained v" and "checkAndStopTransparentProxy env (Some (tp_Setting t)) v = (r, v')"
  shows "r = Inr () \<and> underway gen t retained v' \<and> \<not> mg_transparentOn v' \<and> mg_p v' = mg_p v
    \<and> mg_retaining v' = mg_retaining v \<and> mg_retainedSetting v' = mg_retainedSetting v"
proof (cases "mg_transparentOn v")
  case False
  then show ?thesis using assms by (auto simp: checkAndStopTransparentProxy_def)
next
  case True
  let ?a = "v\<lparr>mg_transparentOn := False\<rparr>"
  let ?b = "snd (run_hook (pe_TransparentHook env) (TransparentHook ''pre-stop'') ?a)"
  let ?c = "?b\<lparr>ho_rules := False, ho_log := ho_log ?b @ [DeleteRules]\<rparr>"
  have open_: "se_Transparent (tp_Setting t) \<noteq> ''close''" using assms(1) True by (simp add: underway_def)
  then have run: "r = Inr ()" "v' = snd (run_hook (pe_TransparentHook env) (TransparentHook ''post-stop'') ?c)"
    using assms(2) True by (simp_all add: checkAndStopTransparentProxy_def deleteTransparentProxyRules_def ignore_run)
  have c: "view v' = view ?c" "view ?b = view ?a" unfolding run(2) by simp_all
  show ?thesis
    using assms(1) run(1) view_eq [OF c(1)] view_eq [OF c(2)] by (auto simp: underway_def)
qed

lemma before_stop:
  assumes "underway gen t retained v" and "beforeStop env p v = (r, v')" and "tp_Setting (cp_template p) = tp_Setting t"
  shows "r = Inr () \<and> underway gen t retained v' \<and> mg_p v' = mg_p v
    \<and> mg_retaining v' = mg_retaining v \<and> mg_retainedSetting v' = mg_retainedSetting v
    \<and> (\<not> mg_retaining v \<longrightarrow> \<not> mg_transparentOn v')"
proof -
  let ?hook = "\<lambda>w. snd (run_hook (pe_CoreHook env) (CoreHook ''pre-stop'') w)"
  obtain w where w: "underway gen t retained w" "mg_p w = mg_p v" "mg_retaining w = mg_retaining v"
    "mg_retainedSetting w = mg_retainedSetting v" "\<not> mg_retaining v \<longrightarrow> \<not> mg_transparentOn w" and run: "(r, v') = (Inr (), ?hook w)"
  proof (cases "mg_retaining v")
    case True
    then show thesis using that [of v] assms(1,2) by (simp add: beforeStop_def ignore_run and_then_def [of "ret _"])
  next
    case False
    obtain r1 w where one: "checkAndStopTransparentProxy env (Some (tp_Setting t)) v = (r1, w)" by fastforce
    note stop = stop_proxy [OF assms(1) one]
    with False one assms(2,3) have "(r, v') = (Inr (), ?hook w)"
      by (auto simp: beforeStop_def ignore_run and_then_def [of "checkAndStopTransparentProxy _ _"])
    with that [of w] stop show thesis by simp
  qed
  from run have v': "r = Inr ()" "v' = ?hook w" by simp_all
  have "view v' = view w" unfolding v'(2) by simp
  with w v' view_eq [OF this] underway_view [OF this] show ?thesis by simp
qed

lemma mgr_stop_underway:
  assumes "underway gen t retained v" and "mgr_stop env b v = (r, v')"
  shows "r = Inr () \<and> underway gen t retained v' \<and> mg_p v' = None
    \<and> mg_retaining v' = mg_retaining v \<and> mg_retainedSetting v' = mg_retainedSetting v
    \<and> (\<not> mg_retaining v \<longrightarrow> mg_p v \<noteq> None \<longrightarrow> \<not> mg_transparentOn v')"
proof (cases "mg_p v")
  case None
  then show ?thesis using assms by (simp add: mgr_stop_def)
next
  case (Some p)
  then have p: "p = \<lparr>cp_generation = gen, cp_template = t\<rparr>" using assms(1) by (simp add: underway_def)
  let ?a = "v\<lparr>mg_monitor := False, mg_networkPaused := False\<rparr>"
  have a: "view ?a = view v" by (simp add: view_def)
  obtain r1 w where one: "beforeStop env p ?a = (r1, w)" by fastforce
  note bef = before_stop [OF _ one, of gen t retained] underway_view [OF a, of gen t retained] view_eq [OF a]
  let ?c = "w\<lparr>ho_cores := ho_cores w - {gen}, ho_templates := ho_templates w - {gen}, ho_log := ho_log w @ [Kill gen]\<rparr>"
  let ?d = "if b then snd (on_store (SetRunning False) ?c) else ?c"
  let ?e = "snd (run_hook (pe_CoreHook env) (CoreHook ''post-stop'') ?d)"
  have run: "r = Inr ()" "v' = ?e\<lparr>mg_p := None\<rparr>"
    using assms(2) Some p bef assms(1) one
    by (auto simp: mgr_stop_def close_proc_def change_def and_then_def [of "beforeStop _ _"] and_then_def [of "ret _"] split: if_splits)
  have w: "underway gen t retained w" "mg_retaining w = mg_retaining v" "mg_retainedSetting w = mg_retainedSetting v"
    "\<not> mg_retaining v \<Longrightarrow> \<not> mg_transparentOn w"
    using bef p assms(1) by simp_all
  have e: "view ?e = view ?c" by simp
  have "underway gen t retained v'"
    using w(1,4) view_eq [OF e] unfolding run underway_def by (cases "mg_retaining w") (auto simp: w(2) split: if_splits)
  then show ?thesis
    using w view_eq [OF e] run by simp
qed

lemma cleanup_underway:
  assumes "underway gen t retained v" and "mg_p v = None" and "cleanupRetainedInterceptionLocked env v = (r, v')"
  shows "r = Inr () \<and> underway gen t retained (v'\<lparr>mg_retaining := False\<rparr>) \<and> mg_p v' = None \<and> mg_retaining v' = mg_retaining v
    \<and> mg_retainedSetting v' = None \<and> \<not> mg_transparentOn v'"
proof (cases "mg_retainedSetting v")
  case None
  then show ?thesis using assms by (simp add: cleanupRetainedInterceptionLocked_def underway_def) auto
next
  case (Some st)
  then have st: "st = tp_Setting t" using assms(1) by (simp add: underway_def)
  obtain r1 w where one: "checkAndStopTransparentProxy env (Some (tp_Setting t)) v = (r1, w)" by fastforce
  note stop = stop_proxy [OF assms(1) one]
  with one Some st assms(3) have run: "r = Inr ()" "v' = w\<lparr>mg_retainedSetting := None\<rparr>"
    by (auto simp: cleanupRetainedInterceptionLocked_def change_def and_then_def [of "checkAndStopTransparentProxy _ _"])
  show ?thesis
    using stop assms(2) underway_off [of gen t retained w] unfolding run by (simp add: underway_idle)
qed

lemma Mgr_Stop_underway:
  assumes "underway gen t retained v" and "Mgr_Stop env b v = (r, v')"
  shows "r = Inr () \<and> underway gen t retained v' \<and> mg_p v' = None \<and> mg_retainedSetting v' = None \<and> \<not> mg_transparentOn v'"
proof -
  let ?v = "v\<lparr>mg_retaining := False\<rparr>"
  have u: "underway gen t retained ?v" using assms(1) by (simp add: underway_def)
  show ?thesis
  proof (cases "mg_p v")
    case None
    then have "cleanupRetainedInterceptionLocked env ?v = (r, v')" using assms(2) by (simp add: Mgr_Stop_def)
    note c = cleanup_underway [OF u _ this]
    have "v'\<lparr>mg_retaining := False\<rparr> = v'" using c None by simp
    with c None show ?thesis by simp
  next
    case (Some p)
    obtain r1 w where one: "mgr_stop env b ?v = (r1, w)" by fastforce
    note stop = mgr_stop_underway [OF u one]
    let ?w = "w\<lparr>mg_retainedSetting := None\<rparr>"
    have run: "r = Inr ()" "v' = snd (on_store (SetLastKernelExitStatus (if b then ''stopped'' else ''running'')) ?w)"
      using assms(2) Some one stop by (auto simp: Mgr_Stop_def ignore_run and_then_def [of "mgr_stop _ _"])
    have e: "view v' = view ?w" unfolding run by simp
    have "underway gen t retained ?w"
      using stop Some underway_off [of gen t retained w] by (simp add: underway_idle)
    with stop Some run(1) view_eq [OF e] underway_view [OF e] show ?thesis by simp
  qed
qed

lemma unexpected_underway:
  assumes "underway gen t retained v" and "handleUnexpectedStop env g v = (r, v')"
  shows "r = Inr () \<and> underway gen t retained v'"
proof -
  have stop: "r1 = Inr () \<and> underway gen t retained w" if "mgr_stop env b v = (r1, w)" for b r1 w
    using mgr_stop_underway [OF assms(1) that] by simp
  obtain r1 w where one: "mgr_stop env True v = (r1, w)" by fastforce
  have "view (snd (on_store m w)) = view w" for m :: "unit db_op" by simp
  then have u: "underway gen t retained (snd (on_store m w))" for m :: "unit db_op"
    using stop [OF one] underway_view by blast
  show ?thesis
    using assms stop [OF one] stop [of False] one u
    by (auto simp: handleUnexpectedStop_def ignore_run and_then_def [of "mgr_stop _ _"] split: if_splits)
qed

lemma intrude_run:
  assumes v: "underway gen t retained v" "intrude env g v = (r, v')"
  shows "r = Inr () \<and> underway gen t retained v'"
proof -
  have start: "underway gen t retained (v\<lparr>ho_intrusions := xs\<rparr>)"
    "underway gen t retained (v\<lparr>ho_intrusions := xs, ho_cores := ho_cores v - {g}\<rparr>)" for xs
    using v(1) unfolding underway_def by (auto split: if_splits)
  show ?thesis
  proof (cases "ho_intrusions v")
    case Nil
    then show ?thesis using v start(1) [of "[]"] by (simp add: intrude_def)
  next
    case (Cons x xs)
    show ?thesis
    proof (cases x)
      case NoIntrusion
      then show ?thesis using v Cons start(1) by (auto simp: intrude_def)
    next
      case CoreExits
      then show ?thesis using v Cons unexpected_underway [OF start(2)] by (auto simp: intrude_def)
    next
      case (UserStops b)
      then show ?thesis using v Cons Mgr_Stop_underway [OF start(1)] by (auto simp: intrude_def)
    qed
  qed
qed

lemma intrude_underway [keep]: "keeps (underway gen t retained) (intrude env g)"
  by (rule keepsI) (blast dest: intrude_run)

lemma keeps_view: "(\<And>v. view (snd (m v)) = view v) \<Longrightarrow> keeps (underway gen t retained) m"
  unfolding keeps_def using underway_view by blast

lemma host_underway [keep]:
  "keeps (underway gen t retained) (on_store m)" "keeps (underway gen t retained) (run_hook c e)"
  "keeps (underway gen t retained) (startConnectivityMonitor env g st)"
  "keeps (underway gen t retained) deleteTransparentProxyRules" "keeps (underway gen t retained) RecoverHostState"
proof -
  show "keeps (underway gen t retained) (on_store m)" "keeps (underway gen t retained) (run_hook c e)"
    by (rule keeps_view, simp)+
  show "keeps (underway gen t retained) (startConnectivityMonitor env g st)"
    by (rule keeps_view) (simp add: startConnectivityMonitor_def change_def view_def)
  show "keeps (underway gen t retained) deleteTransparentProxyRules"
    unfolding deleteTransparentProxyRules_def by (intro keeps_change) (simp add: underway_def)
  have "keeps (underway gen t retained) (host_run RecoverHost id)"
    by (rule keeps_view) (simp add: host_run_def view_def)
  then show "keeps (underway gen t retained) RecoverHostState"
    unfolding RecoverHostState_def by (intro keep keeps_change) (simp_all add: underway_def)
qed

lemma mutateHost_underway:
  assumes "\<And>v. underway gen t retained v \<Longrightarrow> owns gen v \<Longrightarrow> underway gen t retained (snd (act v))"
  shows "keeps (underway gen t retained) (mutateHost env gen act)"
proof (rule keepsI)
  fix v r v'
  assume v: "underway gen t retained v" "mutateHost env gen act v = (r, v')"
  let ?tail = "\<lambda>r. and_then (intrude env gen) (\<lambda>_. and_then (checkProcessOwner gen) (\<lambda>_. case r of Inl e \<Rightarrow> fail e | Inr _ \<Rightarrow> ret ()))"
  show "underway gen t retained v'"
  proof (cases "owns gen v")
    case True
    have "keeps (underway gen t retained) (?tail r)" for r
      by (auto simp: checkProcessOwner_def intro!: keep)
    moreover have "?tail (fst (act v)) (snd (act v)) = (r, v')"
      using v(2) True by (simp add: mutateHost_def checkProcessOwner_def and_then_def [of "ret _"]
        and_then_def [of "attempt _"] attempt_def case_prod_beta and_then_def [of "and_then _ _"])
    ultimately show ?thesis using assms [OF v(1) True] by (blast intro: keepsD)
  next
    case False
    then show ?thesis using v by (simp add: mutateHost_def checkProcessOwner_def and_then_def [of "and_then _ _"])
  qed
qed

lemma owns_underway: "underway gen t retained v \<Longrightarrow> owns gen v \<longleftrightarrow> mg_p v \<noteq> None"
  by (auto simp: underway_def owns_def)

lemma write_rules_underway:
  assumes "transparent_on env (tp_Setting t)" and "underway gen t retained v" and "owns gen v"
  shows "underway gen t retained (snd (write_rules v))"
proof -
  have "se_Transparent (tp_Setting t) \<noteq> ''close''"
    using assms(1) by (auto simp: transparent_on_def IsTransparentOn_def svc_setting.defs)
  moreover have "mg_p v \<noteq> None" using assms(2,3) owns_underway by blast
  ultimately show ?thesis
    using assms(2) by (auto simp add: write_rules_def host_run_def deleteTransparentProxyRules_def change_def attempt_def and_then_def
        Let_def underway_def)
qed

lemma setup_underway [keep]: "keeps (underway gen t retained) (setupTransparentProxy env gen (tp_Setting t))"
proof -
  have act: "keeps (underway gen t retained) (mutateHost env gen deleteTransparentProxyRules)"
    "keeps (underway gen t retained) (mutateHost env gen (run_hook c e))" for c e
    by (rule mutateHost_underway, simp add: host_underway [unfolded keeps_def])+
  have rules: "keeps (underway gen t retained) (mutateHost env gen write_rules)" if "transparent_on env (tp_Setting t)"
    by (rule mutateHost_underway) (rule write_rules_underway [OF that])
  show ?thesis
    by (auto simp: setupTransparentProxy_def checkProcessOwner_def intro!: keep act rules)
qed

lemma afterStart_underway [keep]: "keeps (underway gen t retained) (afterStart env gen (tp_Setting t) b)"
  by (auto simp: afterStart_def checkProcessOwner_def intro!: keep)

lemma monitor_underway:
  assumes "cp_generation p = gen" and "cp_template p = t"
  shows "keeps (underway gen t retained) (syncConnectivityState env p dead reachable)"
proof -
  have delete: "keeps (underway gen t retained) (mutateHost env gen deleteTransparentProxyRules)"
    by (rule mutateHost_underway) (simp add: host_underway [unfolded keeps_def])
  have pause: "keeps (underway gen t retained) (change (\<lambda>v. v\<lparr>mg_networkPaused := b\<rparr>))" for b
    by (rule keeps_view) (simp add: change_def view_def)
  show ?thesis
    unfolding syncConnectivityState_def Let_def assms by (auto simp: checkProcessOwner_def intro!: keep delete pause)
qed

text \<open>What a successful start leaves in the database.\<close>

definition marked_running :: "tables \<Rightarrow> bool" where
  "marked_running t \<longleftrightarrow> config_in t ''system:running'' = Some (JBool True)
     \<and> config_in t ''system:lastKernelExit'' = Some (JStr ''running'') \<and> config_in t ''system:hostState'' = None"

definition commit_store :: "unit db_op" where
  "commit_store =
     and_then (SetRunning True) (\<lambda>_. and_then (SetLastKernelExitStatus ''running'') (\<lambda>_. SetHostState None))"

lemma exec_Inr: "exec f s = (Inr x, s') \<Longrightarrow> st_tables s' = f (st_tables s)"
  by (auto simp: exec_def sql_def split: list.splits bool.splits)

lemma commit_store_run: "commit_store s = (Inr x, s') \<Longrightarrow> marked_running (st_tables s')"
  by (auto simp: commit_store_def and_then_Inr SetRunning_def SetLastKernelExitStatus_def SetHostState_def setValue_def
      Delete_def marked_running_def makeKey_def config_in_def put_config_def update_conv' map_of_filter_key dest!: exec_Inr)

lemma on_store_and_then: "on_store (and_then m k) = and_then (on_store m) (\<lambda>x. on_store (k x))"
  by (rule ext) (simp add: on_store_def and_then_def split: prod.split sum.split)

lemma start_commit_split:
  "start_commit env t gen retained =
     and_then
       (and_then (on_store (SetHostState (Some (host_state_of t)))) (\<lambda>_.
        and_then (intrude env gen) (\<lambda>_.
        and_then (afterStart env gen (tp_Setting t) retained) (\<lambda>_. intrude env gen)))) (\<lambda>_.
     and_then (checkProcessOwner gen) (\<lambda>_.
     and_then (on_store commit_store) (\<lambda>_. change (\<lambda>v. v\<lparr>mg_retainedSetting := None\<rparr>))))"
  by (simp add: start_commit_def commit_store_def and_then_assoc on_store_and_then)

lemma start_commit_run:
  assumes "underway gen t retained v" and "start_commit env t gen retained v = (r, v')"
  shows "case r of
      Inl _ \<Rightarrow> underway gen t retained v'
    | Inr _ \<Rightarrow> mg_p v' = Some \<lparr>cp_generation = gen, cp_template = t\<rparr> \<and> settled (v'\<lparr>mg_retaining := False\<rparr>)
        \<and> mg_generation v' = gen \<and> marked_running (st_tables (sv_store v'))"
proof -
  let ?first = "and_then (on_store (SetHostState (Some (host_state_of t)))) (\<lambda>_. and_then (intrude env gen) (\<lambda>_.
     and_then (afterStart env gen (tp_Setting t) retained) (\<lambda>_. intrude env gen)))"
  obtain r1 w where one: "?first v = (r1, w)" by fastforce
  have "keeps (underway gen t retained) ?first" by (intro keep)
  with assms(1) one have u: "underway gen t retained w" by (blast intro: keepsD)
  obtain r2 x where two: "on_store commit_store w = (r2, x)" by fastforce
  have x: "view x = view w" using view_run(1) [of commit_store w] two by simp
  show ?thesis
  proof (cases "\<exists>y z. r1 = Inr y \<and> owns gen w \<and> r2 = Inr z")
    case True
    then have run: "r = Inr ()" "v' = x\<lparr>mg_retainedSetting := None\<rparr>" and own: "owns gen w"
      using assms(2) one two by (auto simp: start_commit_split and_then_def checkProcessOwner_def read_def change_def)
    have p: "mg_p w = Some \<lparr>cp_generation = gen, cp_template = t\<rparr>"
      using own u owns_underway [OF u] by (auto simp: underway_def)
    have "marked_running (st_tables (sv_store x))"
      using two True commit_store_run by (auto simp: on_store_def split: prod.splits)
    then show ?thesis
      using u p view_eq [OF x] unfolding run by (auto simp: settled_def underway_def)
  next
    case False
    then have "isl r" "v' = w \<or> v' = x"
      using assms(2) one two by (auto simp: start_commit_split and_then_def checkProcessOwner_def read_def change_def
          split: sum.splits if_splits)
    then show ?thesis
      using u underway_view [OF x] by (auto simp: isl_def)
  qed
qed

lemma start_undo_run:
  assumes "underway gen t retained v" and "start_undo env gen retained v = (r, v')"
  shows "underway gen t retained (v'\<lparr>mg_retaining := False\<rparr>) \<and> mg_p v' = None \<and> \<not> mg_transparentOn v' \<and> mg_retainedSetting v' = None"
proof -
  obtain r1 w where one: "intrude env gen v = (r1, w)" by fastforce
  note in_w = intrude_run [OF assms(1) one]
  let ?mid = "if owns gen w then and_then (mgr_stop env True) (\<lambda>_. ignore (on_store (SetHostState None)))
      else if (mg_generation w = gen \<and> mg_p w = None) \<and> \<not> retained then
        and_then (attempt (on_store GetHostState)) (\<lambda>r. case r of
            Inr (Some _) \<Rightarrow> and_then (attempt RecoverHostState) (\<lambda>ok. case ok of Inl _ \<Rightarrow> ret () | Inr _ \<Rightarrow> ignore (on_store (SetHostState None)))
          | _ \<Rightarrow> ret ())
      else ret ()"
  obtain r2 x where two: "?mid w = (r2, x)" by fastforce
  have x: "r2 = Inr () \<and> underway gen t retained x \<and> mg_p x = None"
  proof (cases "owns gen w")
    case True
    obtain r3 y where three: "mgr_stop env True w = (r3, y)" by fastforce
    note stop = mgr_stop_underway [OF _ three, of gen t retained]
    have "view (snd (on_store (SetHostState None) y)) = view y" by simp
    with stop in_w two three True view_eq [OF this] underway_view [OF this] show ?thesis
      by (auto simp: and_then_def [of "mgr_stop _ _"] ignore_run)
  next
    case False
    have idle: "mg_p w = None" using False in_w owns_underway by blast
    obtain a b where host: "on_store GetHostState w = (a, b)" by fastforce
    have vb: "view b = view w" using view_run(1) [of GetHostState w] host by simp
    obtain c d where rec: "RecoverHostState b = (c, d)" by fastforce
    have ub: "underway gen t retained b" "mg_p b = None" using underway_view [OF vb] in_w view_eq [OF vb] idle by simp_all
    then have d: "underway gen t retained d" "mg_p d = None"
      using keepsD [OF host_underway(5) _ rec] rec by (auto simp: RecoverHostState_def host_run_def Let_def change_def and_then_def split: if_splits)
    have vd: "view (snd (on_store (SetHostState None) d)) = view d" by simp
    show ?thesis
      using two False idle in_w host rec ub d underway_view [OF vd] view_eq [OF vd]
      by (auto simp: and_then_def [of "attempt _"] attempt_def ignore_run split: if_splits sum.splits option.splits)
  qed
  have last: "(if retained then cleanupRetainedInterceptionLocked env else ret ()) x = (r, v')"
    using assms(2) one in_w two x by (simp add: start_undo_def and_then_def [of "intrude _ _"] and_then_def [of ?mid])
  show ?thesis
  proof (cases retained)
    case True
    then show ?thesis using last cleanup_underway [of gen t True x env r v'] x by simp
  next
    case False
    then show ?thesis using last x by (auto simp: underway_def)
  qed
qed

lemma recover_pending_run:
  assumes "underway gen t retained v" and "mg_p v = None"
  obtains v' where "recover_pending v = (Inr (), v')" and "underway gen t retained v'" and "mg_p v' = None"
    and "mg_retaining v' = mg_retaining v" and "mg_retainedSetting v' = mg_retainedSetting v"
proof -
  obtain a b where host: "on_store GetHostState v = (a, b)" by fastforce
  have vb: "view b = view v" using view_run(1) [of GetHostState v] host by simp
  obtain c d where rec: "RecoverHostState b = (c, d)" by fastforce
  have d: "underway gen t retained d" "mg_p d = None" "mg_retaining d = mg_retaining v" "mg_retainedSetting d = mg_retainedSetting v"
    using keepsD [OF host_underway(5) _ rec, of gen t retained] rec view_eq [OF vb] underway_view [OF vb] assms
    by (auto simp: RecoverHostState_def host_run_def Let_def change_def and_then_def split: if_splits)
  let ?e = "snd (on_store (SetHostState None) d)"
  have ve: "view ?e = view d" by simp
  have "recover_pending v = (Inr (), if \<exists>h. a = Inr (Some h) then ?e else b)"
    using host rec by (auto simp: recover_pending_def and_then_def [of "attempt _"] attempt_def ignore_run split: sum.split option.split)
  then show thesis
    by (rule that) (use d underway_view [OF ve] view_eq [OF ve] underway_view [OF vb] view_eq [OF vb] assms in simp_all)
qed

lemma NewProcess_run:
  assumes "underway gen t retained v" and "mg_p v = None" and "NewProcess env gen t v = (r, v')"
  shows "case r of
      Inl _ \<Rightarrow> view v' = view v
    | Inr p \<Rightarrow> p = \<lparr>cp_generation = gen, cp_template = t\<rparr> \<and> underway gen t retained (v'\<lparr>mg_p := Some p\<rparr>)"
  using assms by (auto simp: NewProcess_def Let_def underway_def view_def split: launch_result.splits list.splits)

lemma start_locked_run:
  assumes "settled v" and "start_locked env t preserve v = (r, v')"
  shows "case r of
      Inl _ \<Rightarrow> settled (v'\<lparr>mg_retaining := False\<rparr>) \<and> mg_p v' = None
    | Inr (p, gen, retained) \<Rightarrow> gen = mg_generation v + 1 \<and> underway gen t retained v'"
proof -
  let ?g = "mg_generation v"
  obtain t0 where t0: "underway ?g t0 False v" "\<And>p. mg_p v = Some p \<Longrightarrow> cp_template p = t0"
    using settled_underway [OF assms(1)] by blast
  define previous where "previous = (case mg_p v of Some p \<Rightarrow> Some (tp_Setting (cp_template p)) | None \<Rightarrow> mg_retainedSetting v)"
  define retained where "retained = (preserve \<and> \<not> mg_networkPaused v \<and> mg_transparentOn v \<and> canRetainInterception env previous (tp_Setting t))"
  define a where "a = v\<lparr>mg_retainedSetting := (if retained then previous else mg_retainedSetting v), mg_retaining := retained\<rparr>"
  have none: "mg_retainedSetting v = None" "\<not> mg_retaining v" using assms(1) by (simp_all add: settled_def)
  have same: "tp_Setting t0 = tp_Setting t \<and> previous = Some (tp_Setting t0)" if retained
    using that t0(2) none by (auto simp: retained_def previous_def canRetainInterception_def split: option.splits)
  have a: "underway ?g t0 retained a"
    using t0(1) same none unfolding a_def underway_def by auto
  obtain r1 b where one: "mgr_stop env True a = (r1, b)" by fastforce
  note b = mgr_stop_underway [OF a one]
  have idle: "mg_p v = None \<Longrightarrow> \<not> mg_transparentOn v" using assms(1) by (simp add: settled_def)
  obtain c where two: "(if retained then ret () else recover_pending) b = (Inr (), c)"
    and c: "underway ?g t0 retained c" "mg_p c = None" "mg_retaining c = retained"
      "mg_retainedSetting c = (if retained then Some (tp_Setting t) else None)"
  proof (cases retained)
    case True
    then show thesis using that [of b] b same by (simp add: a_def)
  next
    case False
    obtain c where "recover_pending b = (Inr (), c)" "underway ?g t0 retained c" "mg_p c = None"
        "mg_retaining c = mg_retaining b" "mg_retainedSetting c = mg_retainedSetting b"
      by (rule recover_pending_run [of ?g t0 retained b]) (use b in simp_all)
    with False that [of c] b none show thesis by (simp add: a_def)
  qed
  let ?gen = "?g + 1" and ?d = "c\<lparr>mg_generation := ?g + 1\<rparr>"
  have d: "underway ?gen t retained ?d" "mg_p ?d = None"
    using c same by (auto simp: underway_def)
  obtain r2 e where three: "NewProcess env ?gen t ?d = (r2, e)" by fastforce
  note new = NewProcess_run [OF d three]
  let ?fin = "\<lambda>r. case r of Inl e \<Rightarrow> and_then (if retained then cleanupRetainedInterceptionLocked env else ret ()) (\<lambda>_. fail e)
      | Inr p \<Rightarrow> and_then (change (\<lambda>v. v\<lparr>mg_p := Some p\<rparr>)) (\<lambda>_. ret (p, ?gen, retained))"
  have gen: "mg_generation c = ?g" using c(1) by (simp add: underway_def)
  have "r1 = Inr ()" using b by simp
  then have run: "?fin r2 e = (r, v')"
    using assms(2) one two three gen unfolding start_locked_def and_then_read previous_def [symmetric] retained_def [symmetric] and_then_change
      a_def [symmetric] by (cases r2) (simp_all add: and_then_def [of "mgr_stop _ _"] and_then_def [of "if retained then _ else _"]
        and_then_def [of "attempt _"] attempt_def)
  show ?thesis
  proof (cases r2)
    case (Inr p)
    with run new show ?thesis by (auto simp: change_def)
  next
    case (Inl err)
    with new have ve: "view e = view ?d" by simp
    have ue: "underway ?gen t retained e" "mg_p e = None" "mg_retainedSetting e = mg_retainedSetting c"
      using d underway_view [OF ve] view_eq [OF ve] by simp_all
    obtain r4 f where four: "cleanupRetainedInterceptionLocked env e = (r4, f)" by fastforce
    note f = cleanup_underway [OF ue(1,2) four]
    show ?thesis
    proof (cases retained)
      case True
      with run Inl four f have "r = Inl err" "v' = f" by (auto simp: and_then_def)
      with f underway_settled [of ?gen t retained "f\<lparr>mg_retaining := False\<rparr>"] show ?thesis by simp
    next
      case False
      with run Inl have v': "r = Inl err" "v' = e" by (auto simp: and_then_def)
      from ue(1) have "underway ?gen t retained (e\<lparr>mg_retaining := False\<rparr>)" by (simp add: underway_def)
      with v' underway_settled [OF this] ue False c(4) show ?thesis by simp
    qed
  qed
qed

lemma stop_settled:
  assumes "settled v" and "Mgr_Stop env b v = (r, v')"
  shows "r = Inr () \<and> settled v' \<and> mg_p v' = None"
proof -
  obtain t where "underway (mg_generation v) t False v" using settled_underway [OF assms(1)] by blast
  from Mgr_Stop_underway [OF this assms(2)] show ?thesis using underway_settled by blast
qed

lemma exit_settled:
  assumes "settled v"
  shows "settled (snd (handleUnexpectedStop env g (v\<lparr>ho_cores := ho_cores v - {g}\<rparr>)))"
proof -
  let ?v = "v\<lparr>ho_cores := ho_cores v - {g}\<rparr>"
  obtain r v' where run: "handleUnexpectedStop env g ?v = (r, v')" by fastforce
  have "settled ?v" using assms by (auto simp: settled_def split: option.splits)
  then obtain t where "underway (mg_generation ?v) t False ?v" using settled_underway by blast
  from unexpected_underway [OF this run] have u: "underway (mg_generation ?v) t False v'" by simp
  moreover from u have "mg_retainedSetting v' = None" unfolding underway_def by simp
  ultimately show ?thesis using run underway_settled by fastforce
qed

lemma monitor_settled:
  assumes "settled v" and "mg_p v = Some p"
  shows "settled (snd (syncConnectivityState env p dead reachable v))"
proof -
  obtain t where t: "underway (mg_generation v) t False v" "\<And>p. mg_p v = Some p \<Longrightarrow> cp_template p = t"
    using settled_underway [OF assms(1)] by blast
  have p: "cp_generation p = mg_generation v" "cp_template p = t"
    using t assms by (simp_all add: settled_def)
  have "underway (mg_generation v) t False (snd (syncConnectivityState env p dead reachable v))"
    using monitor_underway [OF p, of False env dead reachable] t(1) by (simp add: keeps_def)
  moreover from this have "mg_retainedSetting (snd (syncConnectivityState env p dead reachable v)) = None"
    unfolding underway_def by simp
  ultimately show ?thesis by (rule underway_settled)
qed

lemma start_settled:
  assumes "settled v" and "mgr_start env t preserve v = (r, v')"
  shows "settled v' \<and>
    (case r of
       Inl _ \<Rightarrow> v' = v \<or> mg_p v' = None
     | Inr _ \<Rightarrow> mg_p v' = Some \<lparr>cp_generation = mg_generation v + 1, cp_template = t\<rparr>
         \<and> marked_running (st_tables (sv_store v')))"
proof (cases "(se_Transparent (tp_Setting t) = ''gfwlist'' \<or> se_RulePortMode (tp_Setting t) = ''gfwlist'') \<and> \<not> pe_siteDat env")
  case True
  then show ?thesis using assms by (auto simp: mgr_start_def)
next
  case False
  obtain r1 v1 where one: "start_locked env t preserve v = (r1, v1)" by fastforce
  note lock = start_locked_run [OF assms(1) one]
  show ?thesis
  proof (cases r1)
    case (Inl e)
    then show ?thesis using assms(2) one lock False by (auto simp: mgr_start_def)
  next
    case (Inr q)
    obtain p gen retained where q: "q = (p, gen, retained)" by (cases q)
    with Inr lock have u: "gen = mg_generation v + 1" "underway gen t retained v1" by auto
    obtain r2 v2 where two: "start_commit env t gen retained v1 = (r2, v2)" by fastforce
    note com = start_commit_run [OF u(2) two]
    obtain r3 v3 where three: "start_undo env gen retained v2 = (r3, v3)" by fastforce
    show ?thesis
    proof (cases r2)
      case (Inr y)
      then show ?thesis using assms(2) one q \<open>r1 = Inr q\<close> two com u False by (auto simp: mgr_start_def)
    next
      case (Inl e)
      with com have "underway gen t retained v2" by simp
      note undo = start_undo_run [OF this three]
      with underway_settled [of gen t retained "v3\<lparr>mg_retaining := False\<rparr>"] Inl assms(2) one q \<open>r1 = Inr q\<close> two three False
      show ?thesis by (auto simp: mgr_start_def)
    qed
  qed
qed

lemma settled_idle: "settled v \<Longrightarrow> mg_p v = None \<Longrightarrow> \<not> ho_rules v \<and> ho_cores v = {}"
  by (auto simp: settled_def)

text \<open>
  (C2) A start of the core is all or nothing. Whatever the launch, the hooks, the writes to the
  database and the other goroutines do, the manager ends in a settled state: either the new core
  is current, marked as running and the recovery marker is gone, or the start was refused before
  it changed anything, or no core runs and no packet filter rule is left.
\<close>

theorem core_start_all_or_nothing:
  assumes "settled v"
  shows "case mgr_start env t preserve v of (r, v') \<Rightarrow>
    settled v' \<and>
    (case r of
       Inl _ \<Rightarrow> v' = v \<or> (mg_p v' = None \<and> \<not> ho_rules v' \<and> ho_cores v' = {})
     | Inr _ \<Rightarrow> mg_p v' = Some \<lparr>cp_generation = mg_generation v + 1, cp_template = t\<rparr>
         \<and> marked_running (st_tables (sv_store v')))"
proof -
  obtain r v' where run: "mgr_start env t preserve v = (r, v')" by fastforce
  from start_settled [OF assms run] settled_idle [of v'] show ?thesis
    unfolding run by (cases r) auto
qed

text \<open>Requests to the manager, and cores that exit between them.\<close>

datatype mgr_event = StartCore template bool | StopCore bool | CoreGone int | MonitorCheck bool bool | LatencyTest bool | ShutDown

definition mgr_event_step :: "proc_env \<Rightarrow> mgr_event \<Rightarrow> service \<Rightarrow> service" where
  "mgr_event_step env e v =
     (case e of
        StartCore t preserve \<Rightarrow> snd (mgr_start env t preserve v)
      | StopCore b \<Rightarrow> snd (Mgr_Stop env b v)
      | CoreGone g \<Rightarrow> snd (handleUnexpectedStop env g (v\<lparr>ho_cores := ho_cores v - {g}\<rparr>))
      | MonitorCheck dead reachable \<Rightarrow>
          (case mg_p v of None \<Rightarrow> v | Some p \<Rightarrow> snd (syncConnectivityState env p dead reachable v))
      | LatencyTest b \<Rightarrow> snd (SetLatencyTesting b v)
      | ShutDown \<Rightarrow> snd (MarkShuttingDown v))"

lemma mgr_event_settled: "settled v \<Longrightarrow> settled (mgr_event_step env e v)"
proof (cases e)
  case (StartCore t preserve)
  assume "settled v"
  then show ?thesis using StartCore start_settled [of v env t preserve] by (cases "mgr_start env t preserve v") (auto simp: mgr_event_step_def)
next
  case (StopCore b)
  assume "settled v"
  then show ?thesis using StopCore stop_settled [of v env b] by (cases "Mgr_Stop env b v") (auto simp: mgr_event_step_def)
next
  case (CoreGone g)
  assume "settled v"
  then show ?thesis using CoreGone exit_settled by (simp add: mgr_event_step_def)
next
  case (MonitorCheck dead reachable)
  assume "settled v"
  then show ?thesis using MonitorCheck monitor_settled by (simp add: mgr_event_step_def split: option.split)
qed (auto simp: mgr_event_step_def SetLatencyTesting_def MarkShuttingDown_def change_def settled_def split: option.splits)

text \<open>
  (C6) Over every history of starts, stops, exits of the core, connectivity checks and latency
  tests, with any faults and interleavings: packet filter rules are installed only while a current core asks for the
  transparent proxy, at most the current core runs, and without a current core neither remains.
\<close>

theorem rules_only_with_core:
  assumes "settled v" and "v' = fold (mgr_event_step env) es v"
  shows "(ho_rules v' \<longrightarrow> (\<exists>p. mg_p v' = Some p \<and> se_Transparent (tp_Setting (cp_template p)) \<noteq> ''close''))
    \<and> ho_cores v' \<subseteq> (case mg_p v' of None \<Rightarrow> {} | Some p \<Rightarrow> {cp_generation p})"
proof -
  have "settled (fold (mgr_event_step env) es v)" using assms(1)
    by (induction es arbitrary: v) (auto simp: mgr_event_settled)
  with assms(2) show ?thesis by (auto simp: settled_def split: option.splits)
qed


definition sample_setting :: full_setting where
  "sample_setting =
     \<lparr>se_Transparent = ''proxy'', se_TransparentType = ''tproxy'', se_IpForward = False, se_PortSharing = False,
      se_DnsListenAddr = [], se_DnsCacheEnabled = True, se_DnsCacheSize = 4096, se_DnsCacheMinTTL = 60,
      se_DnsCacheMaxTTL = 86400, se_DnsPrefetch = False, se_DnsNegativeCache = True, se_LogLevel = ''info'',
      se_RulePortMode = ''whitelist'', se_ProxyModeWhenSubscribe = ''direct'', se_GFWListAutoUpdateMode = ''none'',
      se_GFWListAutoUpdateIntervalHour = 0, se_SubscriptionAutoUpdateMode = ''none'', se_SubscriptionAutoUpdateIntervalHour = 0,
      se_TcpFastOpen = ''default'', se_MuxOn = ''no'', se_Mux = 8, se_InboundSniffing = ''http,tls'', se_RouteOnly = False,
      se_TproxyExcludedInterfaces = [], se_TunAutoRoute = True, se_TunRouteShellType = [], se_TunRouteShellPath = [],
      se_TunSetupScript = [], se_TunTeardownScript = [], se_TunExcludeProcesses = [], se_SsBackend = [], se_TrojanBackend = []\<rparr>"

definition sample_template :: template where
  "sample_template = \<lparr>tp_Setting = sample_setting, tp_ApiPort = 40000\<rparr>"

definition sample_proc :: proc_env where
  "sample_proc =
     \<lparr>pe_svc = \<lparr>ve_goos = ''linux'', ve_lite = False, ve_ipv6 = False, ve_canBind = (\<lambda>a. True), ve_couldListen = True,
        ve_resolv = None, ve_backup = None, ve_egress = [], ve_socks = None, ve_rules = None, ve_urlHost = (\<lambda>u. None)\<rparr>,
      pe_TransparentHook = [], pe_CoreHook = [], pe_siteDat = True\<rparr>"

text \<open>A service whose core of generation 3 serves the transparent proxy; the next core exits during its start.\<close>

definition sample_service :: "launch_result list \<Rightarrow> service" where
  "sample_service ls =
     \<lparr>sv_store = \<lparr>st_tables = \<lparr>tb_servers = [], tb_subs = [], tb_config = [], tb_names = [], tb_server_seq = 0, tb_sub_seq = 0\<rparr>,
        st_faults = []\<rparr>,
      mg_p = Some \<lparr>cp_generation = 3, cp_template = sample_template\<rparr>, mg_generation = 3, mg_testing = False,
      mg_networkPaused = False, mg_shuttingDown = False, mg_monitor = True, mg_transparentOn = True, mg_retaining = False,
      mg_retainedSetting = None, ho_rules = True, ho_log = [], ho_outcomes = [], ho_launches = ls,
      ho_intrusions = [CoreExits, UserStops True], ho_templates = {3}, ho_cores = {3}\<rparr>"

lemma sample_settled: "settled (sample_service ls)"
  by (simp add: settled_def sample_service_def sample_template_def sample_setting_def)

theorem core_start_all_or_nothing_witness:
  "case mgr_start sample_proc sample_template True (sample_service []) of (r, v') \<Rightarrow>
    settled v' \<and>
    (case r of
       Inl _ \<Rightarrow> v' = sample_service [] \<or> (mg_p v' = None \<and> \<not> ho_rules v' \<and> ho_cores v' = {})
     | Inr _ \<Rightarrow> mg_p v' = Some \<lparr>cp_generation = mg_generation (sample_service []) + 1, cp_template = sample_template\<rparr>
         \<and> marked_running (st_tables (sv_store v')))"
  by (rule core_start_all_or_nothing [OF sample_settled])

theorem rules_only_with_core_witness:
  "let v' = fold (mgr_event_step sample_proc) [StartCore sample_template True, CoreGone 4] (sample_service [])
   in (ho_rules v' \<longrightarrow> (\<exists>p. mg_p v' = Some p \<and> se_Transparent (tp_Setting (cp_template p)) \<noteq> ''close''))
    \<and> ho_cores v' \<subseteq> (case mg_p v' of None \<Rightarrow> {} | Some p \<Rightarrow> {cp_generation p})"
  unfolding Let_def by (rule rules_only_with_core [OF sample_settled refl])


section \<open>The pace of the monitor\<close>

lemma backoff_loop_cases: "backoff_loop n 30 = (if n = 0 then 30 else if n = 1 then 60 else 120)"
proof (cases n)
  case (Suc m)
  then show ?thesis by (cases m) simp_all
qed simp

text \<open>
  The monitor waits 30 seconds after the first failed check in a row, 60 after the second, 120
  after every further one, and 15 after a check that succeeded.
\<close>

theorem monitor_pace:
  assumes "0 \<le> n"
  shows "connectivity_round healthy n =
    (if healthy then (0, 15) else (n + 1, if n = 0 then 30 else if n = 1 then 60 else 120))"
proof -
  have "nat n = 1 \<longleftrightarrow> n = 1" "nat n = 0 \<longleftrightarrow> n = 0" using assms by linarith+
  then show ?thesis
    by (simp add: connectivity_round_def connectivityBackoffDelay_def backoff_loop_cases)
qed

theorem monitor_pace_witness: "connectivity_round False 5 = (6, 120)"
  using monitor_pace [of 5 False] by simp

end
