(* ===== verification/Node_Ops_Correct.thy ===== *)
theory Node_Ops_Correct
  imports Node_Ops Core_Process_Correct
begin

text \<open>
  Operations on the groups: an update of the core keeps the catalog, a failed connection is taken
  back, the members of a group that reach the core are those its setting selects.
\<close>

section \<open>An update of the core keeps the catalog\<close>

context store_frame
begin

lemma reading [keep]:
  "keeps I (Get d b k)" "keeps I GetOutbounds" "keeps I (GetConnectedServersByOutbound out)"
  "keeps I GetConnectedServers" "keeps I (GetOutboundSetting out)" "keeps I (GetServers cat)" "keeps I (GetSubscriptions cat)"
  "keeps I (SubscriptionsGet i)"
proof -
  show get: "keeps I (Get d b k)" for d :: "json \<Rightarrow> 'x option" and b k
    by (auto simp: Get_def intro!: keep)
  show outs: "keeps I GetOutbounds"
    by (auto simp: GetOutbounds_def SetMembers_def intro!: keep)
  show by_out: "keeps I (GetConnectedServersByOutbound out)" for out
    unfolding GetConnectedServersByOutbound_def by (intro keep get)
  show "keeps I GetConnectedServers"
    unfolding GetConnectedServers_def by (intro keep outs by_out)
  show "keeps I (GetOutboundSetting out)"
    unfolding GetOutboundSetting_def by (intro keep get)
  show "keeps I (GetServers cat)" "keeps I (GetSubscriptions cat)" "keeps I (SubscriptionsGet i)"
    by (auto simp: GetServers_def GetSubscriptions_def ServersGetAll_def SubscriptionsGetAll_def SubscriptionsGet_def
        intro!: keep)
qed

lemma any_group_keeps [keep]: "keeps I (any_group P outs)"
proof (induction outs)
  case (Cons out outs)
  have step: "any_group P (out # outs) = and_then (GetOutboundSetting out) (\<lambda>st. if P st then ret True else any_group P outs)"
    by (rule ext) (simp add: and_then_def split: prod.split sum.split)
  show ?case unfolding step by (intro keep Cons.IH)
qed (simp add: keeps_def)

lemma Locate_keeps [keep]: "keeps I (Locate cat l w)"
  by (auto simp: Locate_def Locator_Servers_def Locator_Subscriptions_def intro!: keep split: option.split)

lemma locate_all_keeps [keep]: "keeps I (locate_all cat l refs)"
proof (induction refs arbitrary: l)
  case (Cons r refs)
  have step: "locate_all cat l (r # refs) = and_then (Locate cat l r) (\<lambda>(x, l').
      case x of Inl code \<Rightarrow> fail (Coded code)
      | Inr sr \<Rightarrow> (case sw_Obj sr of None \<Rightarrow> fail (Failed ''nil object'')
          | Some o' \<Rightarrow> and_then (locate_all cat l' refs) (\<lambda>infos. ret (\<lparr>si_Info = o', si_OutboundName = nr_Outbound r\<rparr> # infos))))"
    by (rule ext) (simp add: and_then_def [abs_def] split: prod.split sum.split option.split)
  show ?case unfolding step by (intro keep Cons.IH)
qed (simp add: keeps_def)

lemma template_keeps [keep]: "keeps I (NewTemplateFromConnectedServers env)"
  by (auto simp: NewTemplateFromConnectedServers_def getConnectedServerObjs_def HasFailClosedGroup_def Let_def intro!: keep)

lemma update_keeps [keep]: "keeps kept (updateV2RayConfig env preserve)"
proof (rule keepsI)
  fix v r v'
  assume v: "kept v" "updateV2RayConfig env preserve v = (r, v')"
  obtain r1 w where one: "on_store (NewTemplateFromConnectedServers env) v = (r1, w)" by fastforce
  have w: "kept w" using keepsD [OF keeps_on_store [OF template_keeps] v(1) one] .
  show "kept v'"
  proof (cases r1)
    case (Inl e)
    then show ?thesis
      using v(2) one w keepsD [OF stops(4) w] by (auto simp: updateV2RayConfig_def split: if_splits)
  next
    case (Inr t)
    then show ?thesis
      using v(2) one keepsD [OF mgr_start_keeps w] by (simp add: updateV2RayConfig_def)
  qed
qed

end

section \<open>A sample catalog\<close>

text \<open>Nodes are links; three servers, one subscription of two nodes, three of them in the group \<open>proxy\<close>.\<close>

definition sample_cat :: "string cat_env" where
  "sample_cat =
     \<lparr>ca_gjson = \<lparr>gj_String = (\<lambda>j. case j of JStr x \<Rightarrow> x | _ \<Rightarrow> []), gj_Bool = (\<lambda>j. j = JBool True), gj_Int = (\<lambda>j. 0)\<rparr>,
      ca_emptyCreators = [(''vless'', [])], ca_PluginManager = [], ca_PluginManagerScheme = ''ext'',
      ca_Marshal = (\<lambda>x. JObj [(''protocol'', JStr ''vless''), (''link'', JStr x)]),
      ca_Unmarshal = (\<lambda>_ j. case j of JObj [_, (_, JStr x)] \<Rightarrow> Some x | _ \<Rightarrow> None),
      ca_ExportToURL = (\<lambda>x. x), ca_GetProtocol = (\<lambda>x. ''vless''), ca_GetHostname = (\<lambda>x. x), ca_GetPort = (\<lambda>x. 443),
      ca_GetName = (\<lambda>x. x), ca_range = (\<lambda>xs. xs), ca_range_refs = (\<lambda>xs. xs)\<rparr>"

definition sample_node_env :: "string node_env" where
  "sample_node_env =
     \<lparr>ne_cat = sample_cat, ne_proc = sample_proc, ne_assets = True, ne_Fingerprint = (\<lambda>x. x),
      ne_NewTemplate = (\<lambda>t infos. Some sample_template), ne_now = ''2026-01-01''\<rparr>"

definition sample_node :: "string \<Rightarrow> json" where
  "sample_node x = server_json sample_cat \<lparr>sw_Obj = Some x, sw_Latency = []\<rparr>"

definition node_ref_of :: "string \<Rightarrow> int \<Rightarrow> int \<Rightarrow> node_ref" where
  "node_ref_of T i sub = \<lparr>nr_TYPE = T, nr_ID = i, nr_Sub = sub, nr_Outbound = ''proxy''\<rparr>"

definition sample_tables :: tables where
  "sample_tables =
     \<lparr>tb_servers =
        [\<lparr>rw_id = 1, rw_type = ''server'', rw_sub_id = None, rw_config = sample_node ''a'', rw_sort = 0\<rparr>,
         \<lparr>rw_id = 2, rw_type = ''subscription_server'', rw_sub_id = Some 7, rw_config = sample_node ''d'', rw_sort = 0\<rparr>,
         \<lparr>rw_id = 3, rw_type = ''server'', rw_sub_id = None, rw_config = sample_node ''b'', rw_sort = 1\<rparr>,
         \<lparr>rw_id = 4, rw_type = ''subscription_server'', rw_sub_id = Some 7, rw_config = sample_node ''e'', rw_sort = 1\<rparr>,
         \<lparr>rw_id = 5, rw_type = ''server'', rw_sub_id = None, rw_config = sample_node ''c'', rw_sort = 2\<rparr>],
      tb_subs = [\<lparr>sb_id = 7, sb_address = ''https://sub.example'', sb_remarks = [], sb_status = [], sb_info = [], sb_auto_select = 0,
         sb_update_mode = [], sb_regular = 0, sb_failure = 0, sb_direct = False, sb_sort = 0\<rparr>],
      tb_config = [(makeKey (conn_bucket ''proxy'') connKey,
         refs_json [node_ref_of ServerType 2 0, node_ref_of SubscriptionServerType 1 0, node_ref_of ServerType 3 0])],
      tb_names = [(''proxy'', 0)], tb_server_seq = 5, tb_sub_seq = 7\<rparr>"

definition sample_state :: service where
  "sample_state = (sample_service [])\<lparr>sv_store := \<lparr>st_tables = sample_tables, st_faults = []\<rparr>\<rparr>"

lemma sample_range: "range_ok sample_cat"
  by (simp add: range_ok_def sample_cat_def)

lemma ordinals_simps: "ordinals 0 = []" "ordinals (Suc n) = ordinals n @ [int n]"
  by (simp_all add: ordinals_def)

lemma sample_catalog: "catalog_ok sample_tables"
  by (rule catalog_okI)
    (auto simp: sample_tables_def servers_in_def members_in_def is_server_def is_member_of_def ordinals_simps)

lemma sample_group:
  "group_in sample_tables ''proxy'' =
     Some [node_ref_of ServerType 2 0, node_ref_of SubscriptionServerType 1 0, node_ref_of ServerType 3 0]"
proof -
  have "list_all small_ref [node_ref_of ServerType 2 0, node_ref_of SubscriptionServerType 1 0, node_ref_of ServerType 3 0]"
    by (simp add: node_ref_of_def small_ref_def small_def)
  from dec_refs_json [OF this] show ?thesis
    by (simp add: group_in_def config_in_def sample_tables_def)
qed

lemma sample_outs: "outs_in sample_tables = [''proxy'']"
  by (simp add: outs_in_def sample_tables_def)

lemma sample_groups: "groups_ok sample_tables"
  unfolding groups_ok_def sample_outs
  by (simp add: sample_group refs_of_def node_ref_of_def small_ref_def small_def) (simp add: sample_tables_def)

lemma sample_store: "calm (sv_store sample_state)" "st_tables (sv_store sample_state) = sample_tables"
  by (simp_all add: sample_state_def calm_def)

end
