(* ===== verification/Node_Delete.thy ===== *)
theory Node_Delete
  imports Node_Ops_Correct "HOL-Library.Product_Lexorder" "HOL-Library.Multiset"
begin

text \<open>
  Deleting servers and subscriptions: the items of a request are brought into an order in which
  the references can be renumbered one item at a time, and after the deletion every group has the
  nodes it had, without the deleted ones.
\<close>

section \<open>The order of the items\<close>

lemma swap_loop:
  assumes "b \<le> e" and "e \<le> length xs" and "k \<le> (e - b) div 2"
  shows "length (fold (\<lambda>j ys. ys[b + j := ys ! (e - j - 1), e - j - 1 := ys ! (b + j)]) [0..<k] xs) = length xs
    \<and> (\<forall>i < length xs. fold (\<lambda>j ys. ys[b + j := ys ! (e - j - 1), e - j - 1 := ys ! (b + j)]) [0..<k] xs ! i
       = (if (b \<le> i \<and> i < b + k) \<or> (e - k \<le> i \<and> i < e) then xs ! (b + e - 1 - i) else xs ! i))"
  using assms(3)
proof (induction k)
  case (Suc k)
  let ?f = "\<lambda>j ys. ys[b + j := ys ! (e - j - 1), e - j - 1 := ys ! (b + j)]"
  let ?ys = "fold ?f [0..<k] xs"
  have ih: "length ?ys = length xs"
    "\<And>i. i < length xs \<Longrightarrow> ?ys ! i = (if (b \<le> i \<and> i < b + k) \<or> (e - k \<le> i \<and> i < e) then xs ! (b + e - 1 - i) else xs ! i)"
    using Suc by auto
  have k: "b + k < e - k - 1" "e - k - 1 < length xs" using Suc.prems assms(2) by linarith+
  have low: "?ys ! (b + k) = xs ! (b + k)" and high: "?ys ! (e - k - 1) = xs ! (e - k - 1)"
    using ih(2) [of "b + k"] ih(2) [of "e - k - 1"] k by auto
  have "fold ?f [0..<Suc k] xs = ?ys[b + k := xs ! (e - k - 1), e - k - 1 := xs ! (b + k)]"
    using low high by simp
  moreover have "?ys[b + k := xs ! (e - k - 1), e - k - 1 := xs ! (b + k)] ! i
      = (if (b \<le> i \<and> i < b + Suc k) \<or> (e - Suc k \<le> i \<and> i < e) then xs ! (b + e - 1 - i) else xs ! i)"
    if i: "i < length xs" for i
  proof -
    have e: "b + e - 1 - (b + k) = e - k - 1" "b + e - 1 - (e - k - 1) = b + k" using k by linarith+
    consider "i = b + k" | "i = e - k - 1" | "i \<noteq> b + k" "i \<noteq> e - k - 1" by blast
    then show ?thesis
    proof cases
      case 1
      then show ?thesis using ih(1) i k e(1) by (simp add: nth_list_update)
    next
      case 2
      then show ?thesis using ih(1) i k e(2) by (simp add: nth_list_update)
    next
      case 3
      have "(b \<le> i \<and> i < b + k) \<or> (e - k \<le> i \<and> i < e) \<longleftrightarrow> (b \<le> i \<and> i < b + Suc k) \<or> (e - Suc k \<le> i \<and> i < e)"
        using 3 k by auto
      then show ?thesis using 3 ih i by simp
    qed
  qed
  ultimately show ?case using ih(1) by simp
qed auto

lemma swap_range_rev:
  assumes "b \<le> e" and "e \<le> length xs"
  shows "swap_range b e xs = take b xs @ rev (take (e - b) (drop b xs)) @ drop e xs"
proof (rule nth_equalityI)
  let ?k = "(e - b) div 2"
  note loop = swap_loop [OF assms, of ?k, folded swap_range_def]
  show "length (swap_range b e xs) = length (take b xs @ rev (take (e - b) (drop b xs)) @ drop e xs)"
    using loop assms by simp
  fix i
  assume "i < length (swap_range b e xs)"
  then have i: "i < length xs" using loop by simp
  consider "i < b" | "b \<le> i" "i < e" | "e \<le> i" by linarith
  then show "swap_range b e xs ! i = (take b xs @ rev (take (e - b) (drop b xs)) @ drop e xs) ! i"
  proof cases
    case 1
    then have "\<not> e - ?k \<le> i" using assms(1) by linarith
    with 1 show ?thesis using loop i assms by (simp add: nth_append)
  next
    case 2
    have "swap_range b e xs ! i = xs ! (b + e - 1 - i)"
    proof (cases "i < b + ?k \<or> e - ?k \<le> i")
      case False
      then have "b + e - 1 - i = i" using 2 by linarith
      with loop i False show ?thesis by auto
    qed (use loop i 2 in auto)
    moreover have "b + (e - b - Suc (i - b)) = b + e - 1 - i" "i - b < e - b" using 2 by linarith+
    ultimately show ?thesis using 2 assms by (simp add: nth_append rev_nth)
  next
    case 3
    then have "\<not> i < b + ?k" "\<not> i - b < e - b" using assms(1) by linarith+
    with 3 show ?thesis using loop i assms by (simp add: nth_append)
  qed
qed

text \<open>Types are grouped by their rank.\<close>

definition known :: "which \<Rightarrow> bool" where
  "known w \<longleftrightarrow> nr_TYPE w = ServerType \<or> nr_TYPE w = SubscriptionType \<or> nr_TYPE w = SubscriptionServerType"

abbreviation type_rank :: "which \<Rightarrow> nat" where
  "type_rank w \<equiv> quantifyType (nr_TYPE w)"

lemma rank_inj: "known a \<Longrightarrow> known b \<Longrightarrow> type_rank a = type_rank b \<longleftrightarrow> nr_TYPE a = nr_TYPE b"
  by (auto simp: known_def quantifyType_def)

definition of_type :: "string \<Rightarrow> which list \<Rightarrow> which list" where
  "of_type T ws = filter (\<lambda>w. nr_TYPE w = T) ws"

lemma of_type_simps [simp]:
  "of_type T [] = []" "of_type T (xs @ ys) = of_type T xs @ of_type T ys" "of_type T (rev xs) = rev (of_type T xs)"
  "of_type T (x # xs) = (if nr_TYPE x = T then x # of_type T xs else of_type T xs)"
  by (simp_all add: of_type_def rev_filter)

text \<open>After \<open>i\<close> rounds: what lies before \<open>b\<close> is reversed by type, from \<open>b\<close> to \<open>i\<close> runs one type.\<close>

definition run_inv :: "which list \<Rightarrow> nat \<Rightarrow> which list \<times> nat \<times> string \<Rightarrow> bool" where
  "run_inv xs i st \<longleftrightarrow>
     (case st of (ys, b, ty) \<Rightarrow>
        b \<le> i \<and> i \<le> length xs \<and> (\<exists>pre. length pre = b \<and> mset pre = mset (take b xs) \<and> ys = pre @ drop b xs
            \<and> (\<forall>T. of_type T pre = rev (of_type T (take b xs))))
        \<and> (if i = 0 then ty = [] else b < i \<and> (\<forall>j. b \<le> j \<longrightarrow> j < i \<longrightarrow> nr_TYPE (xs ! j) = ty)
             \<and> of_type ty (take b xs) = []))"

lemma of_type_empty: "(\<And>w. w \<in> set ws \<Longrightarrow> nr_TYPE w \<noteq> T) \<Longrightarrow> of_type T ws = []"
  by (simp add: of_type_def filter_empty_conv)

lemma of_type_all: "(\<And>w. w \<in> set ws \<Longrightarrow> nr_TYPE w = T) \<Longrightarrow> of_type T' ws = (if T' = T then ws else [])"
  by (induction ws) auto

lemma take_run: "b \<le> i \<Longrightarrow> take i xs = take b xs @ take (i - b) (drop b xs)"
  by (metis add_diff_inverse_nat not_less take_add)

lemma run_inv_step:
  assumes "run_inv xs i st" and "i < length xs" and "sorted (map type_rank xs)" and "list_all known xs"
  shows "run_inv xs (Suc i) (run_step i st)"
proof -
  obtain ys b ty where st: "st = (ys, b, ty)" by (cases st)
  from assms(1) st obtain pre where pre: "length pre = b" "mset pre = mset (take b xs)" "ys = pre @ drop b xs"
    "\<And>T. of_type T pre = rev (of_type T (take b xs))" and bi: "b \<le> i"
    by (auto simp: run_inv_def)
  have nth: "ys ! j = xs ! j" if "b \<le> j" "j < length xs" for j
    using pre that by (simp add: nth_append)
  have known: "known (xs ! j)" if "j < length xs" for j using assms(4) that by (simp add: list_all_length)
  show ?thesis
  proof (cases "i = 0")
    case True
    with assms(1) st bi have "ty = []" "b = 0" by (auto simp: run_inv_def)
    with True st pre nth assms(2) show ?thesis by (simp add: run_step_def run_inv_def Suc_le_eq)
  next
    case False
    with assms(1) st have run: "b < i" "\<And>j. b \<le> j \<Longrightarrow> j < i \<Longrightarrow> nr_TYPE (xs ! j) = ty"
      and none: "of_type ty (take b xs) = []"
      by (auto simp: run_inv_def)
    have ty: "ty \<noteq> []" using run known [of b] assms(2) by (auto simp: known_def)
    show ?thesis
    proof (cases "nr_TYPE (xs ! i) = ty")
      case True
      with st pre run none nth [OF bi assms(2)] ty assms(2) show ?thesis
        by (auto simp: run_step_def run_inv_def less_Suc_eq)
    next
      case False
      let ?run = "take (i - b) (drop b xs)"
      let ?pre = "pre @ rev ?run"
      have runs: "nr_TYPE w = ty" if "w \<in> set ?run" for w
        using that run(2) assms(2) by (auto simp: in_set_conv_nth)
      have swap: "swap_range b i ys = ?pre @ drop i xs"
        using swap_range_rev [of b i ys] bi assms(2) pre(1,3) by simp
      have below: "nr_TYPE w \<noteq> nr_TYPE (xs ! i)" if "w \<in> set (take i xs)" for w
      proof -
        from that obtain j where "j < length (take i xs)" "take i xs ! j = w" by (auto simp only: in_set_conv_nth)
        then have j: "j < i" "w = xs ! j" by auto
        have "type_rank (xs ! j) \<le> type_rank (xs ! (i - 1))" "type_rank (xs ! (i - 1)) \<le> type_rank (xs ! i)"
          using sorted_nth_mono [OF assms(3), of j "i - 1"] sorted_nth_mono [OF assms(3), of "i - 1" i] j assms(2) run(1) by auto
        moreover have "nr_TYPE (xs ! (i - 1)) = ty" using run by simp
        then have "type_rank (xs ! (i - 1)) \<noteq> type_rank (xs ! i)"
          using rank_inj [OF known known, of "i - 1" i] False assms(2) by auto
        ultimately have "type_rank (xs ! j) \<noteq> type_rank (xs ! i)" by linarith
        with j show ?thesis by auto
      qed
      have split: "take i xs = take b xs @ ?run" using take_run [OF bi] .
      have "of_type T ?pre = rev (of_type T (take i xs))" for T
        using pre(4) of_type_all [of ?run ty T, OF runs] none unfolding split by auto
      moreover have "mset ?pre = mset (take i xs)" using pre(2) unfolding split by simp
      moreover have "length ?pre = i" using pre(1) bi assms(2) by simp
      moreover have "of_type (nr_TYPE (xs ! i)) (take i xs) = []" using below by (intro of_type_empty) blast
      ultimately show ?thesis
        using st False ty swap nth [OF bi assms(2)] assms(2)
        by (auto simp: run_step_def run_inv_def less_Suc_eq intro!: exI [of _ ?pre])
    qed
  qed
qed

definition wkey :: "which \<Rightarrow> nat \<times> int \<times> int" where
  "wkey w = (type_rank w, if nr_TYPE w = ServerType then 0 else nr_Sub w, nr_ID w)"

lemma Less_wkey: "known a \<Longrightarrow> known b \<Longrightarrow> Less a b \<longleftrightarrow> wkey a < wkey b"
  by (auto simp: Less_def wkey_def known_def quantifyType_def)

lemma Whiches_Sort_key: "list_all known ws \<Longrightarrow> Whiches_Sort ws = sort_key wkey ws"
proof (induction ws)
  case (Cons w ws)
  have "insert_less w ys = insort_key wkey w ys" if "list_all known ys" for ys
    using that Cons.prems by (induction ys) (auto simp: Less_wkey)
  with Cons show ?case by (simp add: Whiches_Sort_def list_all_iff)
qed (simp add: Whiches_Sort_def)

lemma SortSameTypeReverse_types:
  assumes "list_all known ws"
  shows "mset (SortSameTypeReverse ws) = mset ws"
    and "of_type T (SortSameTypeReverse ws) = rev (sort_key wkey (of_type T ws))"
proof -
  let ?xs = "sort_key wkey ws" and ?n = "length ws"
  have "sorted (map fst (map wkey ?xs))"
    by (rule sorted_map_mono [OF sorted_sort_key]) (auto simp: mono_on_def less_eq_prod_def)
  then have ranks: "sorted (map type_rank ?xs)" by (simp add: comp_def wkey_def)
  have kn: "list_all known ?xs" using assms by (simp add: list_all_iff)
  have "run_inv ?xs k (fold run_step [0..<k] (?xs, 0, []))" if "k \<le> ?n" for k
    using that
  proof (induction k)
    case 0
    then show ?case by (simp add: run_inv_def)
  next
    case (Suc k)
    then show ?case using run_inv_step [OF _ _ ranks kn, of k] by simp
  qed
  from this [of ?n] obtain ys b ty pre where st: "fold run_step [0..<?n] (?xs, 0, []) = (ys, b, ty)"
    and b: "b \<le> ?n" "?n \<noteq> 0 \<Longrightarrow> b < ?n" and pre: "length pre = b" "mset pre = mset (take b ?xs)" "ys = pre @ drop b ?xs"
      "\<And>T. of_type T pre = rev (of_type T (take b ?xs))"
    and run: "\<And>j. b \<le> j \<Longrightarrow> j < ?n \<Longrightarrow> nr_TYPE (?xs ! j) = ty" "?n \<noteq> 0 \<Longrightarrow> of_type ty (take b ?xs) = []"
    by (cases "fold run_step [0..<?n] (?xs, 0, [])") (auto simp: run_inv_def split: if_splits)
  have res: "SortSameTypeReverse ws = pre @ rev (drop b ?xs)"
  proof (cases "int b < int ?n - 1")
    case True
    then show ?thesis
      using st swap_range_rev [of b ?n ys] b pre by (simp add: SortSameTypeReverse_def Whiches_Sort_key [OF assms])
  next
    case False
    then have "length (drop b ?xs) \<le> 1" by simp
    then have "rev (drop b ?xs) = drop b ?xs" by (cases "drop b ?xs") auto
    with st False pre show ?thesis by (simp add: SortSameTypeReverse_def Whiches_Sort_key [OF assms])
  qed
  have "mset (pre @ rev (drop b ?xs)) = mset ?xs"
    unfolding mset_append pre(2) mset_rev by (simp flip: mset_append)
  then show "mset (SortSameTypeReverse ws) = mset ws" using res by simp
  have tys: "nr_TYPE w = ty" if "w \<in> set (drop b ?xs)" for w
  proof -
    from that obtain j where "j < length (drop b ?xs)" "drop b ?xs ! j = w" by (auto simp only: in_set_conv_nth)
    then show ?thesis using run(1) [of "b + j"] by simp
  qed
  have "of_type T (drop b ?xs) = [] \<or> of_type T (take b ?xs) = []"
    using of_type_all [of "drop b ?xs" ty T, OF tys] run(2) by (cases "?n = 0") auto
  then have "of_type T (SortSameTypeReverse ws) = rev (of_type T (take b ?xs @ drop b ?xs))"
    using pre(4) unfolding res of_type_simps rev_append by auto
  then show "of_type T (SortSameTypeReverse ws) = rev (sort_key wkey (of_type T ws))"
    by (simp add: of_type_def filter_sort)
qed

lemma of_type_set [simp]: "w \<in> set (of_type T ws) \<longleftrightarrow> w \<in> set ws \<and> nr_TYPE w = T"
  by (auto simp: of_type_def)

text \<open>
  A request whose items of one type and number are one reference, and whose subscriptions carry
  one value in the field that only nodes of a subscription use.
\<close>

definition clean_request :: "which list \<Rightarrow> bool" where
  "clean_request ws \<longleftrightarrow>
     (\<forall>a \<in> set ws. \<forall>b \<in> set ws. nr_TYPE a = nr_TYPE b \<longrightarrow>
        (nr_TYPE a \<noteq> SubscriptionServerType \<longrightarrow> nr_ID a = nr_ID b \<longrightarrow> ref_of a = ref_of b)
      \<and> (nr_TYPE a = SubscriptionType \<longrightarrow> nr_Sub a = nr_Sub b))"

lemma clean_requestD:
  assumes "clean_request ws" and "a \<in> set ws" and "b \<in> set ws" and "nr_TYPE a = nr_TYPE b"
  shows "nr_TYPE a \<noteq> SubscriptionServerType \<Longrightarrow> nr_ID a = nr_ID b \<Longrightarrow> ref_of a = ref_of b"
    and "nr_TYPE a = SubscriptionType \<Longrightarrow> nr_Sub a = nr_Sub b"
  using assms unfolding clean_request_def by blast+

lemma sorted_distinct_desc:
  assumes "sorted (map f xs)" and "distinct (map f xs)"
  shows "sorted_wrt (>) (map f (rev xs))"
  using assms by (simp add: rev_map [symmetric] sorted_wrt_rev strict_sorted_iff)

lemma descending_ids:
  assumes "list_all known ws" and "clean_request ws" and "distinct (map ref_of ws)"
    and "T = ServerType \<or> T = SubscriptionType"
  shows "sorted_wrt (>) (map nr_ID (of_type T (SortSameTypeReverse ws)))"
proof -
  let ?ws = "of_type T ws"
  have inj: "inj_on nr_ID (set ?ws)"
  proof (rule inj_onI)
    fix a b
    assume "a \<in> set ?ws" "b \<in> set ?ws" "nr_ID a = nr_ID b"
    then have ab: "a \<in> set ws" "b \<in> set ws" "ref_of a = ref_of b"
      using clean_requestD(1) [OF assms(2), of a b] assms(4) by auto
    from assms(3) have "inj_on ref_of (set ws)" by (simp only: distinct_map)
    from inj_onD [OF this ab(3,1,2)] show "a = b" .
  qed
  obtain c where key: "\<And>w. w \<in> set ?ws \<Longrightarrow> wkey w = (quantifyType T, c, nr_ID w)"
  proof (cases "?ws")
    case (Cons v vs)
    then have v: "v \<in> set ?ws" by simp
    have "wkey w = (quantifyType T, if T = ServerType then 0 else nr_Sub v, nr_ID w)" if "w \<in> set ?ws" for w
      using that v clean_requestD(2) [OF assms(2), of w v] assms(4) by (auto simp: wkey_def)
    then show thesis by (rule that)
  qed (use that in simp)
  let ?xs = "sort_key wkey ?ws"
  have "map wkey ?xs = map (\<lambda>w. (quantifyType T, c, nr_ID w)) ?xs"
    by (rule map_cong) (simp_all add: key)
  then have "sorted (map (\<lambda>w. (quantifyType T, c, nr_ID w)) ?xs)"
    using sorted_sort_key [of wkey ?ws] by (simp only:)
  then have "sorted (map nr_ID ?xs)"
    by (simp add: sorted_wrt_map)
  moreover have "distinct (map nr_ID ?xs)"
    using inj assms(3) by (simp add: distinct_map) (simp add: of_type_def)
  ultimately have "sorted_wrt (>) (map nr_ID (rev ?xs))"
    by (rule sorted_distinct_desc)
  then show ?thesis by (simp add: SortSameTypeReverse_types [OF assms(1)])
qed

section \<open>Renumbering\<close>

definition item :: "'a list \<Rightarrow> int \<Rightarrow> 'a option" where
  "item xs i = (if in_bounds i xs then Some (xs ! nat i) else None)"

text \<open>A number after the deletions of \<open>ds\<close>, one by one.\<close>

fun shift :: "int list \<Rightarrow> int \<Rightarrow> int option" where
  "shift [] x = Some x"
| "shift (d # ds) x = (if d = x then None else shift ds (if d < x then x - 1 else x))"

lemma shift_None: "sorted_wrt (>) ds \<Longrightarrow> shift ds x = None \<longleftrightarrow> x \<in> set ds"
proof (induction ds arbitrary: x)
  case (Cons d ds)
  then have ih: "shift ds y = None \<longleftrightarrow> y \<in> set ds" and lt: "e \<in> set ds \<Longrightarrow> e < d" for y e by auto
  show ?case using ih [of x] ih [of "x - 1"] lt [of x] lt [of "x - 1"] by auto
qed simp

lemma shift_pred: "shift (map (\<lambda>d. d - 1) ds) (x - 1) = map_option (\<lambda>k. k - 1) (shift ds x)"
proof (induction ds arbitrary: x)
  case (Cons d ds)
  show ?case using Cons.IH [of "x - 1"] Cons.IH [of x] by simp
qed simp

lemma nths_split: "n < length xs \<Longrightarrow> nths xs A = nths (take n xs) A @ (if n \<in> A then [xs ! n] else []) @ nths (drop (Suc n) xs) {j. j + Suc n \<in> A}"
proof -
  assume n: "n < length xs"
  then have "nths xs A = nths (take n xs @ xs ! n # drop (Suc n) xs) A" by (simp add: id_take_nth_drop [symmetric])
  then show ?thesis using n by (simp add: nths_append nths_Cons)
qed

lemma remove_at_one:
  assumes "0 \<le> d" and "d < int (length xs)"
  shows "remove_at [d] xs = take (nat d) xs @ drop (Suc (nat d)) xs"
proof -
  have "nths (take (nat d) xs) {j. int j \<noteq> d} = take (nat d) xs"
    by (rule nths_all) (use assms in auto)
  moreover have "nths (drop (Suc (nat d)) xs) {j. int (j + Suc (nat d)) \<noteq> d} = drop (Suc (nat d)) xs"
    by (rule nths_all) (use assms in auto)
  ultimately show ?thesis
    using nths_split [of "nat d" xs "{j. int j \<noteq> d}"] assms by (simp add: remove_at_def)
qed

lemma remove_at_Cons:
  assumes "0 \<le> d" and "d < int (length xs)" and "\<forall>e \<in> set ds. e < d"
  shows "remove_at (d # ds) xs = remove_at ds (remove_at [d] xs)"
proof -
  let ?n = "nat d" and ?A = "{j. int j \<notin> set ds}"
  have n: "?n < length xs" "?n \<in> ?A" using assms by auto
  have high: "nths (drop (Suc ?n) xs) {j. j + Suc ?n \<in> A} = drop (Suc ?n) xs"
    if "\<And>j. d < int j \<Longrightarrow> j \<in> A" for A
    by (rule nths_all) (use that assms(1) in auto)
  have low: "nths (take ?n xs) {j. int j \<notin> set (d # ds)} = nths (take ?n xs) ?A"
    unfolding nths_def by (intro arg_cong [where f = "map fst"] filter_cong) (auto simp: set_zip)
  have ge: "nths (drop (Suc ?n) xs) {j. j + ?n \<in> ?A} = drop (Suc ?n) xs"
    by (rule nths_all) (use assms(1,3) in auto)
  have "remove_at (d # ds) xs = nths (take ?n xs) ?A @ drop (Suc ?n) xs"
    using nths_split [OF n(1), of "{j. int j \<notin> set (d # ds)}"] high [of "{j. int j \<notin> set (d # ds)}"] low assms
    by (fastforce simp: remove_at_def)
  also have "\<dots> = remove_at ds (remove_at [d] xs)"
    unfolding remove_at_one [OF assms(1,2)] using ge n by (simp add: remove_at_def nths_append min_def)
  finally show ?thesis .
qed

lemma item_remove_one:
  assumes "0 \<le> d" and "d < int (length xs)" and "d \<noteq> i"
  shows "item (remove_at [d] xs) (if d < i then i - 1 else i) = item xs i"
proof -
  have "nat (i - 1) - nat d + Suc (nat d) = nat i" if "d < i" using that assms(1) by linarith
  then show ?thesis
    unfolding remove_at_one [OF assms(1,2)] using assms
    by (auto simp: item_def in_bounds_def nth_append min_def nth_drop add.commute)
qed

lemma item_remove:
  assumes "sorted_wrt (>) ds" and "\<forall>d \<in> set ds. 0 \<le> d \<and> d < int (length xs)" and "shift ds i = Some k"
  shows "item (remove_at ds xs) k = item xs i"
  using assms
proof (induction ds arbitrary: xs i)
  case (Cons d ds)
  let ?ys = "remove_at [d] xs"
  have d: "0 \<le> d" "d < int (length xs)" "d \<noteq> i" and lt: "\<forall>e \<in> set ds. e < d"
    using Cons.prems by (auto split: if_splits)
  have "\<forall>e \<in> set ds. 0 \<le> e \<and> e < int (length ?ys)"
    using Cons.prems(2) lt d unfolding remove_at_one [OF d(1,2)] by fastforce
  moreover have "shift ds (if d < i then i - 1 else i) = Some k" using Cons.prems(3) d(3) by simp
  ultimately have "item (remove_at ds ?ys) k = item ?ys (if d < i then i - 1 else i)"
    using Cons.prems(1) by (intro Cons.IH) auto
  then show ?case
    using remove_at_Cons [OF d(1,2) lt] item_remove_one [OF d] by simp
qed simp

text \<open>One reference after all items of the request.\<close>

definition after :: "which list \<Rightarrow> node_ref \<Rightarrow> node_ref list" where
  "after L r =
     (if nr_TYPE r = ServerType then
        (case shift (map nr_ID (of_type ServerType L)) (nr_ID r) of None \<Rightarrow> [] | Some i \<Rightarrow> [r\<lparr>nr_ID := i\<rparr>])
      else if nr_TYPE r = SubscriptionServerType then
        (case shift (map (\<lambda>v. nr_ID v - 1) (of_type SubscriptionType L)) (nr_Sub r) of
           None \<Rightarrow> [] | Some i \<Rightarrow> [r\<lparr>nr_Sub := i\<rparr>])
      else [r])"

lemma ref_same [simp]: "(r::node_ref)\<lparr>nr_ID := nr_ID r\<rparr> = r" "(r::node_ref)\<lparr>nr_Sub := nr_Sub r\<rparr> = r"
  by simp_all

lemma after_Cons:
  "after (v # L) r =
     (if nr_TYPE v = SubscriptionType then concat (map (after L) (drop_sub (nr_ID v - 1) r))
      else if nr_TYPE v = ServerType then concat (map (after L) (drop_server (nr_ID v) r))
      else after L r)"
  by (auto simp: after_def drop_sub_def drop_server_def split: option.splits)

lemma concat_map_concat: "concat (map f (concat (map g xs))) = concat (map (\<lambda>x. concat (map f (g x))) xs)"
  by (induction xs) auto

lemma fold_delete_step:
  "fold delete_step L (css, subs, servers) =
     (concat (map (after L) css), subs @ map (\<lambda>v. nr_ID v - 1) (of_type SubscriptionType L),
      servers @ map (\<lambda>v. nr_ID v - 1) (of_type ServerType L))"
proof (induction L arbitrary: css subs servers)
  case Nil
  have "after [] r = [r]" for r by (simp add: after_def)
  then show ?case by (simp add: concat_map_singleton [of id, simplified])
next
  case (Cons v L)
  then show ?case
    by (auto simp: delete_step_def after_Cons concat_map_concat cong: map_cong)
qed

lemma shift_bounds:
  "\<forall>d \<in> set ds. 0 \<le> d \<Longrightarrow> shift ds x = Some k \<Longrightarrow> k \<le> x \<and> (0 \<le> k \<or> k = x)"
proof (induction ds arbitrary: x)
  case (Cons d ds)
  then have "shift ds (if d < x then x - 1 else x) = Some k" by (auto split: if_splits)
  with Cons.IH [OF _ this] Cons.prems(1) show ?case by (auto split: if_splits)
qed simp

section \<open>The items of a request that count\<close>

definition valid_item :: "tables \<Rightarrow> which \<Rightarrow> bool" where
  "valid_item t v =
     (if nr_TYPE v = SubscriptionType then in_bounds (nr_ID v - 1) (subs_in t)
      else if nr_TYPE v = ServerType then in_bounds (nr_ID v - 1) (servers_in t)
      else if nr_TYPE v = SubscriptionServerType then
        in_bounds (nr_Sub v) (subs_in t)
        \<and> in_bounds (nr_ID v - 1) (gjson_Array (gjson_get (sub_json (subs_in t ! nat (nr_Sub v))) ''servers''))
      else False)"

lemma in_range_calm:
  assumes "calm s" and "catalog_ok (st_tables s)"
  shows "in_range v s = (Inr (valid_item (st_tables s) v), s)"
  using reads [OF assms]
  by (simp add: in_range_def valid_item_def in_bounds_def GetLenServers_def GetLenSubscriptions_def
      GetLenSubscriptionServers_def and_then_def Let_def) auto

lemma valid_known: "valid_item t v \<Longrightarrow> known v"
  by (auto simp: valid_item_def known_def split: if_splits)

lemma GetNonDuplicated_calm:
  assumes "calm s" and "catalog_ok (st_tables s)" and "range_ok env"
  obtains kept where "GetNonDuplicated env ws s = (Inr kept, s)" and "distinct (map ref_of kept)"
    and "set kept \<subseteq> {v \<in> set ws. valid_item (st_tables s) v}"
    and "ref_of ` set kept = ref_of ` {v \<in> set ws. valid_item (st_tables s) v}"
proof -
  let ?ts = "filter (valid_item (st_tables s)) ws"
  let ?ks = "ca_range_refs env (remdups (map ref_of ?ts))"
  let ?pick = "\<lambda>k. last (filter (\<lambda>v. ref_of v = k) ?ts)"
  let ?f = "\<lambda>v. and_then (in_range v) (\<lambda>b. ret (if b then [v] else []))"
  have "collect ?f ws s = (Inr (map (\<lambda>v. if valid_item (st_tables s) v then [v] else []) ws), s)"
    by (rule collect_pure) (simp add: and_then_def in_range_calm [OF assms(1,2)])
  moreover have "concat (map (\<lambda>v. if valid_item (st_tables s) v then [v] else []) ws) = ?ts"
    by (induction ws) auto
  ultimately have run: "GetNonDuplicated env ws s = (Inr (map ?pick ?ks), s)"
    by (simp add: GetNonDuplicated_def and_then_def Let_def)
  have ks: "set ?ks = ref_of ` set ?ts" "distinct ?ks"
    using range_okD(2,3) [OF assms(3), of "remdups (map ref_of ?ts)"] by simp_all
  have pick: "?pick k \<in> set ?ts \<and> ref_of (?pick k) = k" if "k \<in> set ?ks" for k
  proof -
    have "filter (\<lambda>v. ref_of v = k) ?ts \<noteq> []" using that ks(1) by (auto simp: filter_empty_conv)
    then have "?pick k \<in> set (filter (\<lambda>v. ref_of v = k) ?ts)" by (rule last_in_set)
    then show ?thesis by auto
  qed
  have refs: "map ref_of (map ?pick ?ks) = ?ks"
    unfolding map_map by (rule map_idI) (use pick in simp)
  show thesis
  proof (rule that [OF run])
    show "distinct (map ref_of (map ?pick ?ks))" unfolding refs by (rule ks(2))
    show "set (map ?pick ?ks) \<subseteq> {v \<in> set ws. valid_item (st_tables s) v}" using pick by fastforce
    have "ref_of ` set (map ?pick ?ks) = set ?ks" unfolding set_map [symmetric] refs ..
    then show "ref_of ` set (map ?pick ?ks) = ref_of ` {v \<in> set ws. valid_item (st_tables s) v}" using ks(1) by simp
  qed
qed

text \<open>The references a request deletes, and the stored node behind a reference.\<close>

definition deletes :: "tables \<Rightarrow> which list \<Rightarrow> node_ref \<Rightarrow> bool" where
  "deletes t ws r \<longleftrightarrow>
     (\<exists>v \<in> set ws. valid_item t v
        \<and> (nr_TYPE v = ServerType \<and> nr_TYPE r = ServerType \<and> nr_ID v = nr_ID r
         \<or> nr_TYPE v = SubscriptionType \<and> nr_TYPE r = SubscriptionServerType \<and> nr_ID v - 1 = nr_Sub r))"

definition node_at :: "tables \<Rightarrow> node_ref \<Rightarrow> json option" where
  "node_at t r =
     (if nr_TYPE r = ServerType then item (servers_in t) (nr_ID r - 1)
      else if nr_TYPE r = SubscriptionServerType
        then Option.bind (item (subs_in t) (nr_Sub r)) (\<lambda>sub. item (snd sub) (nr_ID r - 1))
      else None)"

text \<open>One reference after the deletion of the items that count.\<close>

lemma after_ref:
  assumes "set L \<subseteq> {v \<in> set ws. valid_item t v}" and "ref_of ` set L = ref_of ` {v \<in> set ws. valid_item t v}"
    and "sorted_wrt (>) (map nr_ID (of_type ServerType L))" and "sorted_wrt (>) (map nr_ID (of_type SubscriptionType L))"
    and "servers_in t' = remove_at (map (\<lambda>v. nr_ID v - 1) (of_type ServerType L)) (servers_in t)"
    and "subs_in t' = remove_at (map (\<lambda>v. nr_ID v - 1) (of_type SubscriptionType L)) (subs_in t)"
    and "small_ref r"
  shows "map (node_at t') (after L r) = (if deletes t ws r then [] else [node_at t r])
    \<and> (\<forall>r' \<in> set (after L r). nr_Outbound r' = nr_Outbound r \<and> small_ref r')"
proof -
  have hit: "(\<exists>v \<in> set ws. valid_item t v \<and> nr_TYPE v = T \<and> nr_ID v = i) \<longleftrightarrow> i \<in> set (map nr_ID (of_type T L))" for T i
  proof -
    have "(\<exists>v \<in> set ws. valid_item t v \<and> nr_TYPE v = T \<and> nr_ID v = i)
        \<longleftrightarrow> (\<exists>k \<in> ref_of ` {v \<in> set ws. valid_item t v}. nr_TYPE k = T \<and> nr_ID k = i)"
      by (auto simp: node_ref.defs)
    also have "\<dots> \<longleftrightarrow> i \<in> set (map nr_ID (of_type T L))"
      unfolding assms(2) [symmetric] by (auto simp: node_ref.defs)
    finally show ?thesis .
  qed
  have desc: "sorted_wrt (>) (map (\<lambda>v. nr_ID v - 1) (of_type T L))" if "sorted_wrt (>) (map nr_ID (of_type T L))" for T
    using that by (simp add: sorted_wrt_map)
  have srv: "\<forall>d \<in> set (map (\<lambda>v. nr_ID v - 1) (of_type ServerType L)). 0 \<le> d \<and> d < int (length (servers_in t))"
    and sub: "\<forall>d \<in> set (map (\<lambda>v. nr_ID v - 1) (of_type SubscriptionType L)). 0 \<le> d \<and> d < int (length (subs_in t))"
    using assms(1) by (auto simp: valid_item_def in_bounds_def)
  consider "nr_TYPE r = ServerType" | "nr_TYPE r = SubscriptionServerType" | "nr_TYPE r \<noteq> ServerType" "nr_TYPE r \<noteq> SubscriptionServerType" by blast
  then show ?thesis
  proof cases
    case 1
    let ?ds = "map nr_ID (of_type ServerType L)"
    have del: "deletes t ws r \<longleftrightarrow> shift ?ds (nr_ID r) = None"
      using hit [of ServerType "nr_ID r"] 1 shift_None [OF assms(3)] by (auto simp: deletes_def)
    show ?thesis
    proof (cases "shift ?ds (nr_ID r)")
      case (Some k)
      have "shift (map (\<lambda>v. nr_ID v - 1) (of_type ServerType L)) (nr_ID r - 1) = Some (k - 1)"
        using shift_pred [of ?ds "nr_ID r"] Some by (simp add: comp_def)
      note at = item_remove [OF desc [OF assms(3)] srv this]
      have "\<forall>d \<in> set ?ds. 0 \<le> d" using srv by force
      from shift_bounds [OF this Some] have "small k" using assms(7) by (auto simp: small_ref_def small_def)
      with at Some 1 del assms(5,7) show ?thesis by (simp add: after_def node_at_def small_ref_def)
    qed (use 1 del in \<open>simp add: after_def\<close>)
  next
    case 2
    let ?ds = "map (\<lambda>v. nr_ID v - 1) (of_type SubscriptionType L)"
    have "nr_Sub r + 1 \<in> set (map nr_ID (of_type SubscriptionType L)) \<longleftrightarrow> nr_Sub r \<in> set ?ds" by force
    then have del: "deletes t ws r \<longleftrightarrow> shift ?ds (nr_Sub r) = None"
      using hit [of SubscriptionType "nr_Sub r + 1"] 2 shift_None [OF desc [OF assms(4)]] by (force simp: deletes_def)
    show ?thesis
    proof (cases "shift ?ds (nr_Sub r)")
      case (Some k)
      note at = item_remove [OF desc [OF assms(4)] sub Some]
      have "\<forall>d \<in> set ?ds. 0 \<le> d" using sub by blast
      from shift_bounds [OF this Some] have "small k" using assms(7) by (auto simp: small_ref_def small_def)
      with at Some 2 del assms(6,7) show ?thesis by (simp add: after_def node_at_def small_ref_def)
    qed (use 2 del in \<open>simp add: after_def\<close>)
  next
    case 3
    then show ?thesis using assms(7) by (simp add: after_def node_at_def deletes_def)
  qed
qed

lemma after_refs:
  assumes "\<And>r. r \<in> set rs \<Longrightarrow> map f (g r) = (if gone r then [] else [h r])"
  shows "map f (concat (map g rs)) = map h (filter (\<lambda>r. \<not> gone r) rs)"
  using assms by (induction rs) auto

lemma distinct_outs:
  assumes "catalog_ok t"
  shows "distinct (outs_in t)"
proof -
  have "distinct (map fst (sort_key snd (tb_names t)))"
    using catalog_okD(8) [OF assms] by (metis distinct_map mset_map mset_sort distinct_count_atmost_1 set_sort)
  then show ?thesis by (simp add: outs_in_def)
qed

section \<open>Deletion\<close>

text \<open>The state of the catalog after a deletion.\<close>

definition deleted :: "tables \<Rightarrow> which list \<Rightarrow> tables \<Rightarrow> bool" where
  "deleted t ws t' \<longleftrightarrow>
     catalog_ok t' \<and> groups_ok t' \<and> outs_in t' = outs_in t
   \<and> servers_in t' = nths (servers_in t) {j. \<forall>v \<in> set ws. nr_TYPE v = ServerType \<longrightarrow> nr_ID v \<noteq> int j + 1}
   \<and> subs_in t' = nths (subs_in t) {j. \<forall>v \<in> set ws. nr_TYPE v = SubscriptionType \<longrightarrow> nr_ID v \<noteq> int j + 1}
   \<and> (\<forall>out \<in> set (outs_in t). map (node_at t') (refs_of (group_in t' out))
        = map (node_at t) (filter (\<lambda>r. \<not> deletes t ws r) (refs_of (group_in t out))))"

lemma remove_valid:
  assumes "ref_of ` set L = ref_of ` {v \<in> set ws. valid_item t v}" and "T = ServerType \<or> T = SubscriptionType"
    and "\<And>v. nr_TYPE v = T \<Longrightarrow> valid_item t v \<longleftrightarrow> in_bounds (nr_ID v - 1) xs"
  shows "remove_at (map (\<lambda>v. nr_ID v - 1) (of_type T L)) xs = nths xs {j. \<forall>v \<in> set ws. nr_TYPE v = T \<longrightarrow> nr_ID v \<noteq> int j + 1}"
proof -
  have hit: "int j \<in> set (map (\<lambda>v. nr_ID v - 1) (of_type T L)) \<longleftrightarrow> (\<exists>v \<in> set ws. nr_TYPE v = T \<and> nr_ID v = int j + 1)"
    if "j < length xs" for j
  proof -
    have "int j \<in> set (map (\<lambda>v. nr_ID v - 1) (of_type T L)) \<longleftrightarrow> (\<exists>k \<in> ref_of ` set L. nr_TYPE k = T \<and> nr_ID k = int j + 1)"
      by (force simp: node_ref.defs)
    also have "\<dots> \<longleftrightarrow> (\<exists>v \<in> set ws. valid_item t v \<and> nr_TYPE v = T \<and> nr_ID v = int j + 1)"
      unfolding assms(1) by (auto simp: node_ref.defs)
    also have "\<dots> \<longleftrightarrow> (\<exists>v \<in> set ws. nr_TYPE v = T \<and> nr_ID v = int j + 1)"
      using assms(3) that by (intro bex_cong refl) (auto simp: in_bounds_def)
    finally show ?thesis .
  qed
  show ?thesis
    unfolding remove_at_def nths_def
  proof (intro arg_cong [where f = "map fst"] filter_cong refl)
    fix p
    assume "p \<in> set (zip xs [0..<length xs])"
    then have "snd p < length xs" by (auto simp: set_zip)
    from hit [OF this] show "snd p \<in> {j. int j \<notin> set (map (\<lambda>v. nr_ID v - 1) (of_type T L))}
      \<longleftrightarrow> snd p \<in> {j. \<forall>v \<in> set ws. nr_TYPE v = T \<longrightarrow> nr_ID v \<noteq> int j + 1}"
      unfolding mem_Collect_eq by blast
  qed
qed

lemma groups_okD:
  assumes "groups_ok t" and "out \<in> set (outs_in t)" and "r \<in> set (refs_of (group_in t out))"
  shows "nr_Outbound r = out" "small_ref r"
  using assms by (simp_all only: groups_ok_def)

text \<open>Groups stored anew after each reference was replaced by references of the same group.\<close>

lemma stored_groups:
  assumes "groups_ok t" and "catalog_ok t" and "tb_names t' = tb_names t" and "outs_in t' = outs_in t"
    and "\<forall>out \<in> set (outs_in t). group_in t' out = dec_refs (refs_json (group_of (concat (map f (connected_in t))) out))"
    and f: "\<And>r r'. small_ref r \<Longrightarrow> r' \<in> set (f r) \<Longrightarrow> nr_Outbound r' = nr_Outbound r \<and> small_ref r'"
  shows "\<forall>out \<in> set (outs_in t). group_in t' out = Some (concat (map f (refs_of (group_in t out))))" and "groups_ok t'"
proof -
  have conn: "\<forall>r \<in> set (connected_in t). small_ref r"
    unfolding connected_in_groups [OF assms(1)] using groups_okD(2) [OF assms(1)] by auto
  have part: "group_of (concat (map f rs)) out = concat (map f (group_of rs out))" if "\<forall>r \<in> set rs. small_ref r" for rs out
    using that
  proof (induction rs)
    case (Cons r rs)
    have "group_of (f r) out = (if nr_Outbound r = out then f r else [])"
      using f [of r] Cons.prems by (auto simp: group_of_def filter_empty_conv)
    with Cons show ?case by (simp add: group_of_def)
  qed (simp add: group_of_def)
  show grp: "\<forall>out \<in> set (outs_in t). group_in t' out = Some (concat (map f (refs_of (group_in t out))))"
  proof
    fix out
    assume out: "out \<in> set (outs_in t)"
    have "group_of (concat (map f (connected_in t))) out = concat (map f (refs_of (group_in t out)))"
      using part [OF conn, of out] group_of_connected [OF assms(1) distinct_outs [OF assms(2)] out] by simp
    moreover have "list_all small_ref (concat (map f (refs_of (group_in t out))))"
      using f groups_okD(2) [OF assms(1) out] by (auto simp: list_all_iff)
    ultimately show "group_in t' out = Some (concat (map f (refs_of (group_in t out))))"
      using bspec [OF assms(5) out] by (simp add: dec_refs_json)
  qed
  show "groups_ok t'"
    unfolding groups_ok_def assms(3,4)
  proof (intro conjI ballI)
    show "[] \<notin> fst ` set (tb_names t)" using assms(1) unfolding groups_ok_def by blast
    fix out r
    assume out: "out \<in> set (outs_in t)" and "r \<in> set (refs_of (group_in t' out))"
    then obtain r0 where r0: "r0 \<in> set (refs_of (group_in t out))" "r \<in> set (f r0)"
      using bspec [OF grp out] by (auto simp: refs_of_def)
    from groups_okD [OF assms(1) out r0(1)] f [OF _ r0(2)] show "nr_Outbound r = out" "small_ref r" by simp_all
  qed
qed

lemma delete_stored:
  assumes "calm s" and "catalog_ok (st_tables s)" and "groups_ok (st_tables s)" and "range_ok env" and "clean_request ws"
  obtains kept t' where "GetNonDuplicated env ws s = (Inr kept, s)"
    and "case fold delete_step (SortSameTypeReverse kept) (connected_in (st_tables s), [], []) of
           (css, subs, servers) \<Rightarrow> RemoveNodes env subs servers css s = (Inr (), with_tables s t')"
    and "deleted (st_tables s) ws t'"
proof -
  let ?t = "st_tables s"
  obtain kept where kept: "GetNonDuplicated env ws s = (Inr kept, s)" "distinct (map ref_of kept)"
    "set kept \<subseteq> {v \<in> set ws. valid_item ?t v}" "ref_of ` set kept = ref_of ` {v \<in> set ws. valid_item ?t v}"
    by (rule GetNonDuplicated_calm [OF assms(1,2,4), of ws])
  define L where "L = SortSameTypeReverse kept"
  have known: "list_all known kept" using kept(3) valid_known by (auto simp: list_all_iff)
  have clean: "clean_request kept" using assms(5) kept(3) unfolding clean_request_def by blast
  have set_L: "set L = set kept" unfolding L_def using SortSameTypeReverse_types(1) [OF known] by (metis set_mset_mset)
  note L = kept(3,4) [folded set_L] descending_ids [OF known clean kept(2), folded L_def]
  let ?subs = "map (\<lambda>v. nr_ID v - 1) (of_type SubscriptionType L)" and ?servers = "map (\<lambda>v. nr_ID v - 1) (of_type ServerType L)"
  let ?css = "concat (map (after L) (connected_in ?t))"
  obtain t' where t': "RemoveNodes env ?subs ?servers ?css s = (Inr (), with_tables s t')" "catalog_ok t'"
    "servers_in t' = remove_at ?servers (servers_in ?t)" "subs_in t' = remove_at ?subs (subs_in ?t)" "outs_in t' = outs_in ?t"
    "tb_names t' = tb_names ?t" "setting_in t' = setting_in ?t"
    "\<forall>out \<in> set (outs_in ?t). group_in t' out = dec_refs (refs_json (group_of ?css out))"
    by (rule RemoveNodes_calm [OF assms(1,2,4), of ?subs ?servers ?css])
  have ref: "map (node_at t') (after L r) = (if deletes ?t ws r then [] else [node_at ?t r])"
    "\<forall>r' \<in> set (after L r). nr_Outbound r' = nr_Outbound r \<and> small_ref r'" if "small_ref r" for r
    using after_ref [OF L(1,2) L(3) [OF disjI1 [OF refl]] L(3) [OF disjI2 [OF refl]] t'(3,4) that] by blast+
  note grp = stored_groups [OF assms(3,2) t'(6,5,8) bspec [OF ref(2)]]
  have "map (node_at t') (refs_of (group_in t' out)) = map (node_at ?t) (filter (\<lambda>r. \<not> deletes ?t ws r) (refs_of (group_in ?t out)))"
    if out: "out \<in> set (outs_in ?t)" for out
  proof -
    have "map (node_at t') (concat (map (after L) (refs_of (group_in ?t out))))
        = map (node_at ?t) (filter (\<lambda>r. \<not> deletes ?t ws r) (refs_of (group_in ?t out)))"
      by (rule after_refs) (rule ref(1), rule groups_okD(2) [OF assms(3) out])
    then show ?thesis using bspec [OF grp(1) out] by (simp add: refs_of_def)
  qed
  then have "deleted ?t ws t'"
    unfolding deleted_def
    using t'(2-5) grp(2) remove_valid [OF L(2), of ServerType "servers_in ?t"] remove_valid [OF L(2), of SubscriptionType "subs_in ?t"]
    by (simp add: valid_item_def del: outs_in_mem)
  with t'(1) kept(1) show thesis
    by (intro that [of kept t']) (simp_all add: fold_delete_step flip: L_def)
qed

lemma same_catalogD:
  assumes "same_catalog t s"
  shows "catalog_ok (st_tables s)" "servers_in (st_tables s) = servers_in t" "subs_in (st_tables s) = subs_in t"
    "outs_in (st_tables s) = outs_in t" "group_in (st_tables s) = group_in t" "setting_in (st_tables s) = setting_in t"
  using assms by (simp_all add: same_catalog_def Let_def)

lemma groups_ok_same:
  assumes "same_catalog t s" and "groups_ok t"
  shows "groups_ok (st_tables s)"
proof -
  have "[] \<in> fst ` set (tb_names (st_tables s)) \<longleftrightarrow> [] \<in> fst ` set (tb_names t)"
    using outs_in_mem [of "[]" t] outs_in_mem [of "[]" "st_tables s"] same_catalogD(4) [OF assms(1)] by simp
  with assms(2) show ?thesis
    unfolding groups_ok_def same_catalogD(4,5) [OF assms(1)] by simp
qed

lemma deleted_same:
  assumes "deleted t ws t'" and "same_catalog t' s"
  shows "deleted t ws (st_tables s)"
proof -
  have "node_at (st_tables s) = node_at t'"
    using same_catalogD [OF assms(2)] by (simp add: node_at_def fun_eq_iff)
  with assms same_catalogD [OF assms(2)] groups_ok_same [OF assms(2)] show ?thesis by (simp add: deleted_def)
qed


definition sample_request :: "which list" where
  "sample_request =
     [\<lparr>nr_TYPE = ServerType, nr_ID = 1, nr_Sub = 0, nr_Outbound = [], wh_Latency = [], wh_Link = [], wh_Selected = False\<rparr>,
      \<lparr>nr_TYPE = ServerType, nr_ID = 2, nr_Sub = 0, nr_Outbound = [], wh_Latency = [], wh_Link = [], wh_Selected = False\<rparr>]"


end
