(* ===== verification/Node_Update.thy ===== *)
theory Node_Update
  imports Node_Delete "HOL-Library.Sublist"
begin

text \<open>
  Updating a subscription: the list of its nodes is replaced by the one that was fetched, and the
  groups follow the nodes they had: to the same link, to the only node on the same endpoint or of
  the same name, or to the old node, which is kept at the end of the list.
\<close>

section \<open>Finding a node again\<close>

definition only :: "('o \<Rightarrow> bool) \<Rightarrow> 'o list \<Rightarrow> nat \<Rightarrow> bool" where
  "only P ns k \<longleftrightarrow> k < length ns \<and> (\<forall>j < length ns. P (ns ! j) \<longleftrightarrow> j = k)"

lemma unique_match_found: "found \<noteq> 0 \<Longrightarrow>
   unique_match P i found ns = (if \<exists>n \<in> set ns. P n then -1 else found)"
  by (induction ns arbitrary: i) auto

lemma unique_match_only:
  assumes "0 < unique_match P i 0 ns"
  shows "\<exists>k. unique_match P i 0 ns = int (i + k) + 1 \<and> only P ns k"
  using assms
proof (induction ns arbitrary: i)
  case (Cons n ns)
  show ?case
  proof (cases "P n")
    case True
    then have none: "\<not> (\<exists>n \<in> set ns. P n)" and eq: "unique_match P i 0 (n # ns) = int i + 1"
      using Cons.prems unique_match_found [of "int i + 1" P "Suc i" ns] by (auto split: if_splits)
    have "only P (n # ns) 0"
      using True none by (auto simp: only_def nth_Cons split: nat.splits)
    with eq show ?thesis by (intro exI [of _ 0]) simp
  next
    case False
    then have "unique_match P i 0 (n # ns) = unique_match P (Suc i) 0 ns" by simp
    with Cons obtain k where k: "unique_match P i 0 (n # ns) = int (Suc i + k) + 1" "only P ns k" by fastforce
    have "only P (n # ns) (Suc k)"
      using k(2) False unfolding only_def by (auto simp: nth_Cons split: nat.splits)
    with k(1) show ?thesis by (intro exI [of _ "Suc k"]) simp
  qed
qed simp

lemma exact_match_Some: "exact_match env url i ns = Some k \<Longrightarrow> \<exists>j < length ns. k = int (i + j) + 1 \<and> ca_ExportToURL env (ns ! j) = url"
proof (induction ns arbitrary: i)
  case (Cons n ns)
  show ?case
  proof (cases "ca_ExportToURL env n = url")
    case True
    with Cons.prems show ?thesis by (intro exI [of _ 0]) simp
  next
    case False
    with Cons obtain j where "j < length ns" "k = int (Suc i + j) + 1" "ca_ExportToURL env (ns ! j) = url" by fastforce
    then show ?thesis by (intro exI [of _ "Suc j"]) simp
  qed
qed simp

text \<open>The node at position \<open>j\<close> of the new list stands for \<open>x\<close>.\<close>

definition follows_node :: "'o cat_env \<Rightarrow> 'o list \<Rightarrow> 'o \<Rightarrow> nat \<Rightarrow> bool" where
  "follows_node env nodes x j \<longleftrightarrow>
     j < length nodes
   \<and> (ca_ExportToURL env (nodes ! j) = ca_ExportToURL env x
      \<or> (\<forall>n \<in> set nodes. ca_ExportToURL env n \<noteq> ca_ExportToURL env x)
        \<and> (only (same_endpoint env x) nodes j \<or> only (same_name env x) nodes j))"

lemma exact_match_None: "exact_match env url i ns = None \<longleftrightarrow> (\<forall>n \<in> set ns. ca_ExportToURL env n \<noteq> url)"
  by (induction ns arbitrary: i) auto

lemma remap_node:
  assumes "remapSubscriptionNodeDetailed env old nodes = (m, e)" and "m \<noteq> 0"
  obtains x j where "old = Some x" and "m = int j + 1" and "follows_node env nodes x j"
proof (cases old)
  case None
  then show thesis using assms by (simp add: remapSubscriptionNodeDetailed_def)
next
  case (Some x)
  show thesis
  proof (cases "exact_match env (ca_ExportToURL env x) 0 nodes")
    case None
    let ?a = "unique_match (same_endpoint env x) 0 0 nodes" and ?b = "unique_match (same_name env x) 0 0 nodes"
    have "0 < ?a \<and> m = ?a \<or> 0 < ?b \<and> m = ?b"
      using assms Some None by (auto simp: remapSubscriptionNodeDetailed_def Let_def split: if_splits)
    then obtain j where "m = int j + 1" "only (same_endpoint env x) nodes j \<or> only (same_name env x) nodes j"
      using unique_match_only [of "same_endpoint env x" 0 nodes] unique_match_only [of "same_name env x" 0 nodes] by fastforce
    with None show thesis
      by (intro that [OF Some, of j]) (auto simp: follows_node_def only_def exact_match_None)
  next
    case (Some k)
    then obtain j where "j < length nodes" "k = int j + 1" "ca_ExportToURL env (nodes ! j) = ca_ExportToURL env x"
      using exact_match_Some by fastforce
    with Some \<open>old = Some x\<close> assms show thesis
      by (intro that [of x j]) (auto simp: remapSubscriptionNodeDetailed_def follows_node_def)
  qed
qed

section \<open>Following the connected nodes\<close>

text \<open>The reference \<open>ref'\<close> into the new list names the node that \<open>ref\<close> named in the old one.\<close>

definition follows :: "'o cat_env \<Rightarrow> int \<Rightarrow> 'o server_raw list \<Rightarrow> 'o list \<Rightarrow> 'o server_raw list \<Rightarrow> node_ref \<Rightarrow> node_ref \<Rightarrow> bool" where
  "follows env index old nodes servers ref ref' \<longleftrightarrow>
     (if of_subscription index ref then
        ref' = ref\<lparr>nr_ID := nr_ID ref'\<rparr> \<and> 0 < nr_ID ref' \<and> nr_ID ref' \<le> int (length servers)
        \<and> (let x = old ! nat (nr_ID ref - 1); j = nat (nr_ID ref' - 1)
           in (length nodes \<le> j \<and> servers ! j = x) \<or> (\<exists>o'. sw_Obj x = Some o' \<and> follows_node env nodes o' j))
      else ref' = ref)"

definition fresh :: "'o list \<Rightarrow> 'o server_raw list" where
  "fresh nodes = map (\<lambda>n. \<lparr>sw_Obj = Some n, sw_Latency = []\<rparr>) nodes"

definition remap_inv :: "'o server_raw list \<Rightarrow> 'o list \<Rightarrow> 'o remap \<Rightarrow> bool" where
  "remap_inv old nodes st \<longleftrightarrow>
     prefix (fresh nodes) (rm_servers st)
   \<and> (\<forall>(i, j) \<in> set (rm_retained st). int (length nodes) < j \<and> j \<le> int (length (rm_servers st))
        \<and> rm_servers st ! nat (j - 1) = old ! nat (i - 1))"

definition mapped_ok :: "'o cat_env \<Rightarrow> 'o server_raw list \<Rightarrow> 'o list \<Rightarrow> (int \<times> int \<times> bool) list \<Rightarrow> bool" where
  "mapped_ok env old nodes mapped \<longleftrightarrow>
     (\<forall>i p. map_of mapped i = Some p \<longrightarrow> p = remapSubscriptionNodeDetailed env (sw_Obj (old ! nat (i - 1))) nodes)"

lemma mapped_ids_ok: "mapped_ok env old nodes (mapped_ids env index old nodes refs)"
  unfolding mapped_ok_def mapped_ids_def by (auto dest!: map_of_SomeD)

lemma follows_prefix:
  assumes "follows env index old nodes servers ref ref'" and "prefix servers servers'"
  shows "follows env index old nodes servers' ref ref'"
proof (cases "of_subscription index ref")
  case True
  have "nat (nr_ID ref' - 1) < length servers" using assms(1) True by (auto simp: follows_def)
  then have "servers' ! nat (nr_ID ref' - 1) = servers ! nat (nr_ID ref' - 1)"
    using assms(2) by (auto simp: prefix_def nth_append)
  moreover have "length servers \<le> length servers'" using assms(2) by (rule prefix_length_le)
  ultimately show ?thesis using assms(1) True by (auto simp: follows_def Let_def)
qed (use assms(1) in \<open>simp add: follows_def\<close>)

text \<open>What one round does to the list and to the references.\<close>

definition remap_step :: "'o cat_env \<Rightarrow> int \<Rightarrow> 'o server_raw list \<Rightarrow> 'o list \<Rightarrow> node_ref \<Rightarrow> 'o remap \<Rightarrow> 'o remap \<Rightarrow> bool" where
  "remap_step env index old nodes ref st st' \<longleftrightarrow>
     remap_inv old nodes st' \<and> prefix (rm_servers st) (rm_servers st') \<and> length (rm_servers st') \<le> Suc (length (rm_servers st))
   \<and> (rm_updated st' = rm_updated st
      \<or> (\<exists>ref'. rm_updated st' = rm_updated st @ [ref'] \<and> follows env index old nodes (rm_servers st') ref ref'))"

lemma remap_ref_step:
  assumes "remap_inv old nodes st" and "mapped_ok env old nodes mapped" and "of_subscription index ref"
  shows "remap_step env index old nodes ref st (remap_ref env old mapped drops ref st)"
proof -
  let ?x = "old ! nat (nr_ID ref - 1)" and ?n = "length (rm_servers st)"
  obtain m e where p: "(case map_of mapped (nr_ID ref) of Some p \<Rightarrow> p | None \<Rightarrow> (0, False)) = (m, e)" by fastforce
  define k where "k = (if \<not> e \<and> 1 < fallback_claims mapped m then 0 else m)"
  have len: "length nodes \<le> ?n" using prefix_length_le assms(1) by (fastforce simp: remap_inv_def fresh_def)
  note run = remap_ref_def [of env old mapped drops ref st, unfolded p Let_def prod.case, folded k_def]
  consider "k = 0" drops | "k \<noteq> 0" | j where "k = 0" "\<not> drops" "map_of (rm_retained st) (nr_ID ref) = Some j"
    | "k = 0" "\<not> drops" "map_of (rm_retained st) (nr_ID ref) = None" by fastforce
  then show ?thesis
  proof cases
    case 1
    then show ?thesis unfolding run using assms(1) by (simp add: remap_step_def remap_inv_def)
  next
    case 2
    then have "k = m" "m \<noteq> 0" by (auto simp: k_def split: if_splits)
    moreover have "remapSubscriptionNodeDetailed env (sw_Obj ?x) nodes = (m, e)"
      using p assms(2) \<open>m \<noteq> 0\<close> by (auto simp: mapped_ok_def split: option.splits)
    ultimately obtain y j where "sw_Obj ?x = Some y" "k = int j + 1" "follows_node env nodes y j"
      using remap_node by metis
    then have "follows env index old nodes (rm_servers st) ref (ref\<lparr>nr_ID := k\<rparr>)"
      using assms(3) len by (auto simp: follows_def follows_node_def)
    with 2 assms(1) show ?thesis unfolding run by (simp add: remap_step_def remap_inv_def)
  next
    case 3
    then have "int (length nodes) < j \<and> j \<le> int ?n \<and> rm_servers st ! nat (j - 1) = ?x"
      using assms(1) map_of_SomeD [OF 3(3)] unfolding remap_inv_def by blast
    then have "follows env index old nodes (rm_servers st) ref (ref\<lparr>nr_ID := j\<rparr>)"
      using assms(3) by (auto simp: follows_def Let_def)
    with 3 assms(1) show ?thesis unfolding run by (simp add: remap_step_def remap_inv_def)
  next
    case 4
    let ?servers = "rm_servers st @ [?x]" and ?j = "int ?n + 1"
    have "follows env index old nodes ?servers ref (ref\<lparr>nr_ID := ?j\<rparr>)"
      using assms(3) len by (auto simp: follows_def Let_def)
    moreover have "int (length nodes) < b \<and> b \<le> int (length ?servers) \<and> ?servers ! nat (b - 1) = old ! nat (a - 1)"
      if "(a, b) \<in> set ((nr_ID ref, ?j) # rm_retained st)" for a b
      using that assms(1) len unfolding remap_inv_def by (fastforce simp: nth_append)
    ultimately show ?thesis
      unfolding run using 4 assms(1) len by (auto simp: remap_step_def remap_inv_def)
  qed
qed

lemma remap_refs_run:
  assumes "calm s" and "remap_refs env index old mapped disconnect refs st s = (r, s')"
    and "remap_inv old nodes st" and "mapped_ok env old nodes mapped"
  shows "s' = s \<and>
    (\<forall>st'. r = Inr st' \<longrightarrow>
       remap_inv old nodes st' \<and> prefix (rm_servers st) (rm_servers st')
     \<and> length (rm_servers st') \<le> length (rm_servers st) + length refs
     \<and> (\<exists>zs us. rm_updated st' = rm_updated st @ us \<and> subseq zs refs
          \<and> list_all2 (follows env index old nodes (rm_servers st')) zs us))"
  using assms(2,3)
proof (induction refs arbitrary: st)
  case Nil
  then show ?case by auto
next
  case (Cons ref refs)
  have step: ?case if rest: "remap_refs env index old mapped disconnect refs st1 s = (r, s')"
    and st1: "remap_step env index old nodes ref st st1" for st1
  proof -
    from st1 have inv: "remap_inv old nodes st1" and pre: "prefix (rm_servers st) (rm_servers st1)"
      and len: "length (rm_servers st1) \<le> Suc (length (rm_servers st))" by (simp_all add: remap_step_def)
    note ih = Cons.IH [OF rest inv]
    show ?thesis
    proof (intro conjI allI impI)
      show "s' = s" using ih by simp
      fix st'
      assume r: "r = Inr st'"
      with ih obtain zs us where us: "rm_updated st' = rm_updated st1 @ us" "subseq zs refs"
        "list_all2 (follows env index old nodes (rm_servers st')) zs us" by blast
      have pre': "prefix (rm_servers st1) (rm_servers st')" using ih r by simp
      show "remap_inv old nodes st'" "prefix (rm_servers st) (rm_servers st')"
        "length (rm_servers st') \<le> length (rm_servers st) + length (ref # refs)"
        using ih r pre pre' len by (auto intro: prefix_order.trans)
      from st1 consider "rm_updated st1 = rm_updated st"
        | ref' where "rm_updated st1 = rm_updated st @ [ref']" "follows env index old nodes (rm_servers st1) ref ref'"
        by (auto simp: remap_step_def)
      then show "\<exists>zs us. rm_updated st' = rm_updated st @ us \<and> subseq zs (ref # refs)
          \<and> list_all2 (follows env index old nodes (rm_servers st')) zs us"
      proof cases
        case 1
        with us show ?thesis by (intro exI [of _ zs] exI [of _ us]) auto
      next
        case 2
        with us follows_prefix [OF _ pre'] show ?thesis
          by (intro exI [of _ "ref # zs"] exI [of _ "ref' # us"]) auto
      qed
    qed
  qed
  show ?case
  proof (cases "of_subscription index ref")
    case True
    note ref = remap_ref_step [OF Cons.prems(2) assms(4) True]
    show ?thesis
    proof (cases "nr_ID ref \<le> 0 \<or> int (length old) < nr_ID ref")
      case False
      have "\<exists>drops. remap_refs env index old mapped disconnect refs (remap_ref env old mapped drops ref st) s = (r, s')"
        using Cons.prems(1) True False GetOutboundSetting_calm [OF assms(1)]
        by (auto simp: Let_def split: prod.splits if_splits)
      then show ?thesis using step ref by blast
    qed (use Cons.prems(1) True in auto)
  next
    case False
    let ?st1 = "st\<lparr>rm_updated := rm_updated st @ [ref]\<rparr>"
    have "remap_step env index old nodes ref st ?st1"
      using Cons.prems(2) False by (simp add: remap_step_def remap_inv_def follows_def)
    moreover have "remap_refs env index old mapped disconnect refs ?st1 s = (r, s')"
      using Cons.prems(1) False by simp
    ultimately show ?thesis using step by blast
  qed
qed

section \<open>Storing the update\<close>

lemma subscription_json_servers [simp]:
  "gjson_Array (gjson_get (subscription_json env u) ''servers'') = map (server_json env) (su_Servers u)"
  by (simp add: subscription_json_def)

lemma same_names: "same_rest t t' \<Longrightarrow> tb_names t' = tb_names t"
  by (simp add: same_rest_def)

lemma SetSubscriptionAndConnects_calm:
  assumes "calm s" and "catalog_ok (st_tables s)" and "groups_ok (st_tables s)" and "range_ok env"
    and "in_bounds i (subs_in (st_tables s))" and "list_all small_ref ws"
  obtains t' row where "SetSubscriptionAndConnects env i u ws s = (Inr (), with_tables s t')" and "catalog_ok t'"
    and "servers_in t' = servers_in (st_tables s)"
    and "subs_in t' = (subs_in (st_tables s))[nat i := (row, map (server_json env) (su_Servers u))]"
    and "outs_in t' = outs_in (st_tables s)" and "tb_names t' = tb_names (st_tables s)"
    and "\<forall>out \<in> set (outs_in (st_tables s)). refs_of (group_in t' out) = group_of ws out" and "groups_ok t'"
proof -
  let ?t = "st_tables s"
  let ?names = "ca_range env (remdups (map nr_Outbound (connected_in ?t) @ map nr_Outbound ws))"
  let ?u = "with_groups (\<lambda>out. nil_refs_json (group_of ws out)) ?names ?t"
  let ?item = "subscription_json env u"
  have names: "set ?names = nr_Outbound ` set (connected_in ?t) \<union> nr_Outbound ` set ws"
    using range_okD(1) [OF assms(4), of "remdups (map nr_Outbound (connected_in ?t) @ map nr_Outbound ws)"] by simp
  have "length (tb_subs ?u) = length (tb_subs ?t)"
    by (metis length_subs_in with_groups_simps(5))
  with assms(5) have bounds: "0 \<le> i" "i < int (length (tb_subs ?u))"
    by (simp_all add: in_bounds_def)
  obtain t' where t': "setSubscription (ca_gjson env) i ?item (with_tables s ?u) = (Inr (), with_tables s t')" "catalog_ok t'"
    "servers_in t' = servers_in ?t"
    "subs_in t' = (subs_in ?t)[nat i := (sub_columns (ca_gjson env) ?item (fst (subs_in ?t ! nat i)), map (server_json env) (su_Servers u))]"
    "same_rest ?u t'"
    by (rule setSubscription_hit [of "with_tables s ?u" i "ca_gjson env" ?item]) (use assms(1,2) bounds in simp_all)
  let ?before = "and_then GetConnectedServers (\<lambda>conns. for_each (\<lambda>out. setValue (conn_bucket out) connKey (nil_refs_json (group_of ws out)))
      (ca_range env (remdups (map nr_Outbound (refs_of conns) @ map nr_Outbound ws))))"
  have "?before s = (Inr (), with_tables s ?u)"
    using assms(1) by (simp add: and_then_def GetConnectedServers_calm setValue_def with_groups_def)
  then have run: "SetSubscriptionAndConnects env i u ws s = (Inr (), with_tables s t')"
    using ReadModifyWrite_calm [OF assms(1), of "and_then ?before (\<lambda>_. setSubscription (ca_gjson env) i ?item)" "Inr ()" "with_tables s t'"]
      t'(1) assms(1) by (simp add: SetSubscriptionAndConnects_def SubscriptionsSet_def and_then_def [of ?before])
  have "refs_of (group_in t' out) = group_of ws out" if out: "out \<in> set (outs_in ?t)" for out
  proof (cases "out \<in> set ?names")
    case True
    have "list_all small_ref (group_of ws out)" using assms(6) by (simp add: group_of_def list_all_iff)
    with True catalog_same_rest [OF t'(5)] show ?thesis
      by (simp add: group_in_with_groups dec_nil_refs_json refs_of_def)
  next
    case False
    then have "group_of ws out = []" "\<forall>r \<in> set (connected_in ?t). nr_Outbound r \<noteq> out"
      using names by (auto simp: group_of_def filter_empty_conv)
    moreover from this(2) have "refs_of (group_in ?t out) = []"
      using group_of_connected [OF assms(3) distinct_outs [OF assms(2)] out] by (auto simp: group_of_def filter_empty_conv)
    ultimately show ?thesis
      using False catalog_same_rest [OF t'(5)] by (simp add: group_in_with_groups)
  qed
  then have grp: "\<forall>out \<in> set (outs_in ?t). refs_of (group_in t' out) = group_of ws out" by blast
  have same: "outs_in t' = outs_in ?t" "tb_names t' = tb_names ?t"
    using catalog_same_rest [OF t'(5)] same_names [OF t'(5)] by simp_all
  have "groups_ok t'"
    unfolding groups_ok_def same
    using assms(3,6) grp by (auto simp: groups_ok_def group_of_def list_all_iff)
  then show thesis
    using that [OF run t'(2-4) same grp] by blast
qed

lemma connected_small: "groups_ok t \<Longrightarrow> r \<in> set (connected_in t) \<Longrightarrow> small_ref r"
  using groups_okD(2) by (auto simp: connected_in_groups simp del: outs_in_mem)

lemma follows_small:
  assumes "follows env index old nodes servers ref ref'" and "small_ref ref" and "int (length servers) < 2 ^ 63"
  shows "small_ref ref'" "nr_Outbound ref' = nr_Outbound ref"
proof -
  have "small_ref ref' \<and> nr_Outbound ref' = nr_Outbound ref"
  proof (cases "of_subscription index ref")
    case True
    note f = assms(1) [unfolded follows_def if_P [OF True]]
    note id = conjunct1 [OF f, symmetric] conjunct1 [OF conjunct2 [OF f]] conjunct1 [OF conjunct2 [OF conjunct2 [OF f]]]
    have "small_ref (ref\<lparr>nr_ID := nr_ID ref'\<rparr>)"
      using id(2,3) assms(2,3) by (simp add: small_ref_def small_def)
    moreover have "nr_Outbound (ref\<lparr>nr_ID := nr_ID ref'\<rparr>) = nr_Outbound ref" by simp
    ultimately show ?thesis by (simp only: id(1))
  next
    case False
    from assms(1) [unfolded follows_def if_not_P [OF False]] assms(2) show ?thesis by simp
  qed
  then show "small_ref ref'" "nr_Outbound ref' = nr_Outbound ref" by simp_all
qed

lemma follows_groups:
  assumes "list_all2 R zs us" and "\<And>x y. x \<in> set zs \<Longrightarrow> R x y \<Longrightarrow> nr_Outbound y = nr_Outbound x"
  shows "list_all2 R (group_of zs out) (group_of us out)"
  using assms
proof (induction zs us rule: list_all2_induct)
  case (Cons x xs y ys)
  have "nr_Outbound y = nr_Outbound x" by (rule Cons.prems [OF _ Cons.hyps(1)]) simp
  moreover have "list_all2 R (group_of xs out) (group_of ys out)"
    by (rule Cons.IH) (rule Cons.prems [OF list.set_intros(2)])
  ultimately show ?case using Cons.hyps by (simp add: group_of_def)
qed (simp add: group_of_def)

text \<open>Every group followed its nodes into the new list of the subscription, in order.\<close>

definition updated_groups :: "'o cat_env \<Rightarrow> int \<Rightarrow> 'o server_raw list \<Rightarrow> 'o list \<Rightarrow> tables \<Rightarrow> tables \<Rightarrow> bool" where
  "updated_groups env index old nodes t t' \<longleftrightarrow>
     (\<exists>servers. prefix (fresh nodes) servers \<and> snd (subs_in t' ! nat index) = map (server_json env) servers
      \<and> (\<forall>out \<in> set (outs_in t). \<exists>zs. subseq zs (refs_of (group_in t out))
           \<and> list_all2 (follows env index old nodes servers) zs (refs_of (group_in t' out))))"

lemma update_stored:
  assumes "calm s" and "catalog_ok (st_tables s)" and "groups_ok (st_tables s)" and "range_ok env"
    and "in_bounds index (subs_in (st_tables s))" and "int (length nodes + length (connected_in (st_tables s))) < 2 ^ 63"
    and "remap_refs env index old (mapped_ids env index old nodes (connected_in (st_tables s))) disconnect (connected_in (st_tables s))
      \<lparr>rm_servers = fresh nodes, rm_retained = [], rm_updated = [], rm_affected = False\<rparr> s = (Inr st, s')"
    and "su_Servers u = rm_servers st"
  obtains t' where "SetSubscriptionAndConnects env index u (rm_updated st) s = (Inr (), with_tables s t')"
    and "catalog_ok t'" and "groups_ok t'" and "servers_in t' = servers_in (st_tables s)" and "outs_in t' = outs_in (st_tables s)"
    and "length (subs_in t') = length (subs_in (st_tables s))" and "updated_groups env index old nodes (st_tables s) t'"
proof -
  let ?t = "st_tables s" and ?refs = "connected_in (st_tables s)"
  let ?st0 = "\<lparr>rm_servers = fresh nodes, rm_retained = [], rm_updated = [], rm_affected = False\<rparr>"
  have "remap_inv old nodes ?st0" by (simp add: remap_inv_def)
  note loop = remap_refs_run [OF assms(1,7) this mapped_ids_ok]
  then obtain zs where zs: "subseq zs ?refs" "list_all2 (follows env index old nodes (rm_servers st)) zs (rm_updated st)" by auto
  have servers: "prefix (fresh nodes) (rm_servers st)" "int (length (rm_servers st)) < 2 ^ 63"
    using loop assms(6) by (auto simp: remap_inv_def fresh_def)
  have zs_small: "small_ref z" if "z \<in> set zs" for z
    using connected_small [OF assms(3)] list_emb_set [OF zs(1) that] by blast
  have "small_ref (rm_updated st ! i)" if "i < length (rm_updated st)" for i
    using follows_small(1) [OF list_all2_nthD2 [OF zs(2) that] zs_small [OF nth_mem] servers(2)] that list_all2_lengthD [OF zs(2)]
    by simp
  then have "list_all small_ref (rm_updated st)" by (simp add: list_all_length)
  then obtain t' row where t': "SetSubscriptionAndConnects env index u (rm_updated st) s = (Inr (), with_tables s t')" "catalog_ok t'"
    "servers_in t' = servers_in ?t" "subs_in t' = (subs_in ?t)[nat index := (row, map (server_json env) (su_Servers u))]"
    "outs_in t' = outs_in ?t" "tb_names t' = tb_names ?t"
    "\<forall>out \<in> set (outs_in ?t). refs_of (group_in t' out) = group_of (rm_updated st) out" "groups_ok t'"
    by (rule SetSubscriptionAndConnects_calm [OF assms(1-5)])
  have "\<exists>zs. subseq zs (refs_of (group_in ?t out)) \<and> list_all2 (follows env index old nodes (rm_servers st)) zs (refs_of (group_in t' out))"
    if out: "out \<in> set (outs_in ?t)" for out
  proof (intro exI conjI)
    have "subseq (group_of zs out) (group_of ?refs out)" unfolding group_of_def by (rule subseq_filter [OF zs(1)])
    then show "subseq (group_of zs out) (refs_of (group_in ?t out))"
      by (simp only: group_of_connected [OF assms(3) distinct_outs [OF assms(2)] out])
    have "list_all2 (follows env index old nodes (rm_servers st)) (group_of zs out) (group_of (rm_updated st) out)"
      by (rule follows_groups [OF zs(2)]) (rule follows_small(2) [OF _ zs_small servers(2)])
    then show "list_all2 (follows env index old nodes (rm_servers st)) (group_of zs out) (refs_of (group_in t' out))"
      using t'(7) out by (simp del: outs_in_mem)
  qed
  moreover have "snd (subs_in t' ! nat index) = map (server_json env) (rm_servers st)"
    using t'(4) assms(5,8) by (simp add: in_bounds_def nat_less_iff del: length_subs_in)
  ultimately have "updated_groups env index old nodes ?t t'"
    using servers(1) unfolding updated_groups_def by blast
  with t'(4) show thesis
    by (intro that [OF t'(1,2,8,3,5)]) (simp_all del: length_subs_in)
qed

text \<open>The groups and the lists a caller sees after an update that failed.\<close>

definition groups_kept :: "tables \<Rightarrow> tables \<Rightarrow> bool" where
  "groups_kept t t' \<longleftrightarrow> (\<forall>out \<in> set (outs_in t). refs_of (group_in t' out) = refs_of (group_in t out))"

lemma update_same_catalog:
  assumes "same_catalog t (sv_store v)" and "calm (sv_store v)"
  shows "same_catalog t (sv_store (snd (updateV2RayConfig env b v)))" "calm (sv_store (snd (updateV2RayConfig env b v)))"
  using catalog_frame.update_keeps [of t env b] calm_frame.update_keeps [of env b] assms by (simp_all add: keeps_def)

lemma same_catalog_refl: "catalog_ok (st_tables s) \<Longrightarrow> same_catalog (st_tables s) s"
  by (simp add: same_catalog_def Let_def)

lemma updated_same:
  assumes "updated_groups cat index old nodes t t'" and "same_catalog t' s"
  shows "updated_groups cat index old nodes t (st_tables s)"
  using assms by (simp add: updated_groups_def same_catalogD)

text \<open>Taking the update back, after the core refused the new configuration.\<close>

lemma update_taken_back:
  assumes "calm (sv_store v)" and "catalog_ok t" and "groups_ok t" and "range_ok (ne_cat env)"
    and "same_catalog t1 (sv_store v)" and "groups_ok t1" and "outs_in t1 = outs_in t" and "in_bounds index (subs_in t1)"
    and "refs = connected_in t"
  shows "case and_then (ignore (on_store (SetSubscriptionAndConnects (ne_cat env) index u refs))) (\<lambda>_. ignore (UpdateV2RayConfig env)) v of
    (r, v') \<Rightarrow> r = Inr () \<and> groups_kept t (st_tables (sv_store v')) \<and> catalog_ok (st_tables (sv_store v'))"
proof -
  let ?s = "sv_store v"
  note now = same_catalogD [OF assms(5)]
  have small: "list_all small_ref refs"
    using connected_small [OF assms(3)] assms(9) by (simp add: list_all_iff)
  have here: "in_bounds index (subs_in (st_tables ?s))" using assms(8) now(3) by simp
  obtain t' row where t': "SetSubscriptionAndConnects (ne_cat env) index u refs ?s = (Inr (), with_tables ?s t')" "catalog_ok t'"
    "servers_in t' = servers_in (st_tables ?s)"
    "subs_in t' = (subs_in (st_tables ?s))[nat index := (row, map (server_json (ne_cat env)) (su_Servers u))]"
    "outs_in t' = outs_in (st_tables ?s)" "tb_names t' = tb_names (st_tables ?s)"
    "\<forall>out \<in> set (outs_in (st_tables ?s)). refs_of (group_in t' out) = group_of refs out" "groups_ok t'"
    by (rule SetSubscriptionAndConnects_calm [OF assms(1) now(1) groups_ok_same [OF assms(5,6)] assms(4) here small])
  let ?v = "v\<lparr>sv_store := with_tables ?s t'\<rparr>"
  have v: "same_catalog t' (sv_store ?v)" "calm (sv_store ?v)"
    using t'(2) same_catalog_refl [of "with_tables ?s t'"] assms(1) by simp_all
  have "groups_kept t t'"
    using t'(7) group_of_connected [OF assms(3) distinct_outs [OF assms(2)]] assms(7,9) now(4)
    by (simp add: groups_kept_def del: outs_in_mem)
  then have "groups_kept t (st_tables (sv_store (snd (UpdateV2RayConfig env ?v))))"
    using same_catalogD(5) [OF update_same_catalog(1) [OF v, of env False]] by (simp add: groups_kept_def del: outs_in_mem)
  then show ?thesis
    using t'(1) same_catalogD(1) [OF update_same_catalog(1) [OF v, of env False]] by (simp add: on_store_def ignore_run)
qed

text \<open>The update once the references are moved and the result is stored.\<close>

lemma update_applied:
  fixes env :: "'o node_env" and index nodes disconnect v old info
  defines "refs \<equiv> connected_in (st_tables (sv_store v))"
  defines "moved \<equiv> remap_refs (ne_cat env) index (su_Servers old) (mapped_ids (ne_cat env) index (su_Servers old) nodes refs) disconnect refs
    \<lparr>rm_servers = fresh nodes, rm_retained = [], rm_updated = [], rm_affected = False\<rparr>"
  assumes "calm (sv_store v)" and "moved (sv_store v) = (Inr st, sv_store v)"
    and "SetSubscriptionAndConnects (ne_cat env) index (old\<lparr>su_Servers := rm_servers st, su_Status := ne_now env, su_Info := info\<rparr>)
      (rm_updated st) (sv_store v) = (Inr (), with_tables (sv_store v) t1)"
    and "w = v\<lparr>sv_store := with_tables (sv_store v) t1\<rparr>"
  shows "storeSubscriptionUpdate env index old nodes info disconnect v =
    (if \<not> rm_affected st \<or> \<not> Running w then (Inr (), w)
     else case UpdateV2RayConfig env w of
       (Inr _, w') \<Rightarrow> (Inr (), w')
     | (Inl e, w') \<Rightarrow>
         and_then (and_then (ignore (on_store (SetSubscriptionAndConnects (ne_cat env) index old refs))) (\<lambda>_. ignore (UpdateV2RayConfig env)))
           (\<lambda>_. fail e) w')"
proof -
  have "on_store GetConnectedServers v = (Inr (if refs = [] then None else Some refs), v)" "on_store moved v = (Inr st, v)"
    using assms(3,4) by (simp_all add: refs_def on_store_def GetConnectedServers_calm)
  then show ?thesis
    using assms(5) unfolding assms(6) moved_def
    by (simp add: storeSubscriptionUpdate_def [of env index old nodes info disconnect, folded fresh_def, unfolded Let_def]
        and_then_def [of "on_store _"] on_store_def [of "SetSubscriptionAndConnects _ _ _ _"]
        and_then_def [of "attempt _"] attempt_def case_prod_beta and_then_assoc split: sum.split)
qed


definition sample_sub :: "string subscription_raw" where
  "sample_sub =
     \<lparr>su_DatabaseID = 7, su_UpdateMode = ''disabled'', su_UpdateInterval = 0, su_FailureInterval = 1, su_AllowDirect = False,
      su_Remarks = [], su_Address = ''https://sub.example'', su_Status = [], su_Servers = fresh [''d'', ''e''], su_Info = [],
      su_AutoSelect = False\<rparr>"

lemma sample_connected: "length (connected_in sample_tables) = 3"
  by (simp add: connected_in_def sample_outs or_proxy_def sample_group refs_of_def)


end
