(* ===== verification/Node_Connect.thy ===== *)
theory Node_Connect
  imports Node_Update
begin

text \<open>
  Changing the members of one group: connecting a node and replacing the members change exactly
  that group or, when the core cannot be started with the result, nothing. Which members reach the
  core is decided by the setting of the group.
\<close>

section \<open>One group is changed\<close>

definition regrouped :: "string \<Rightarrow> node_ref list \<Rightarrow> tables \<Rightarrow> tables \<Rightarrow> bool" where
  "regrouped out refs t t' \<longleftrightarrow>
     catalog_ok t' \<and> servers_in t' = servers_in t \<and> subs_in t' = subs_in t \<and> outs_in t' = outs_in t
   \<and> setting_in t' = setting_in t \<and> refs_of (group_in t' out) = refs
   \<and> (\<forall>o'. o' \<noteq> out \<longrightarrow> refs_of (group_in t' o') = refs_of (group_in t o'))"

lemma regrouped_same:
  "regrouped out refs t t' \<Longrightarrow> same_catalog t' s \<Longrightarrow> regrouped out refs t (st_tables s)"
  by (simp add: regrouped_def same_catalogD)

lemma regrouped_again:
  "regrouped out refs t t' \<Longrightarrow> regrouped out refs' t' t'' \<Longrightarrow> regrouped out refs' t t''"
  by (simp add: regrouped_def)

lemma regrouped_refl: "catalog_ok t \<Longrightarrow> refs_of (group_in t out) = refs \<Longrightarrow> regrouped out refs t t"
  by (simp add: regrouped_def)

lemma regrouped_put:
  assumes "catalog_ok t" and "dec_refs j = Some refs"
  shows "regrouped out refs t (put_config (makeKey (conn_bucket out) connKey) j t)"
proof -
  let ?t = "put_config (makeKey (conn_bucket out) connKey) j t"
  have "setting_in ?t = setting_in t" "outs_in ?t = outs_in t"
    by (simp_all add: setting_in_def outs_in_def fun_eq_iff)
  moreover have "group_in ?t o' = (if o' = out then Some refs else group_in t o')" for o'
    using assms(2) by (simp add: group_in_def)
  ultimately show ?thesis using assms(1) by (simp add: regrouped_def refs_of_def)
qed

text \<open>The three ways a group is written.\<close>

lemma ClearConnects_run:
  assumes "calm s" and "catalog_ok (st_tables s)" and "out \<noteq> []"
  obtains t' where "ClearConnects out s = (Inr (), with_tables s t')" and "regrouped out [] (st_tables s) t'"
proof -
  have "ClearConnects out s = (Inr (), with_tables s (put_config (makeKey (conn_bucket out) connKey) JNull (st_tables s)))"
    using assms(1,3) by (simp add: ClearConnects_def setValue_def or_proxy_def)
  then show thesis by (rule that) (rule regrouped_put [OF assms(2)], simp)
qed

lemma singleton_list:
  assumes "set xs = {x}" and "distinct xs"
  shows "xs = [x]"
proof -
  have "length xs = 1" using distinct_card [OF assms(2)] assms(1) by simp
  then obtain y where "xs = [y]" by (cases xs) auto
  with assms(1) show ?thesis by simp
qed

lemma OverwriteConnects_run:
  assumes "calm s" and "catalog_ok (st_tables s)" and "range_ok env"
    and "refs \<noteq> []" and "\<forall>r \<in> set refs. nr_Outbound r = out \<and> small_ref r"
  obtains t' where "OverwriteConnects env refs s = (Inr (), with_tables s t')" and "regrouped out refs (st_tables s) t'"
proof -
  let ?names = "remdups (map nr_Outbound refs)"
  have "map nr_Outbound refs = map (\<lambda>_. out) refs" using assms(5) by simp
  then have one: "set ?names = {out}" using assms(4) by (cases refs) auto
  have "set (ca_range env ?names) = {out}" "distinct (ca_range env ?names)"
    using range_okD(1) [OF assms(3), of ?names] one assms(3) by (auto simp: range_ok_def)
  then have names: "ca_range env ?names = [out]" by (rule singleton_list)
  have "group_of refs out = refs" using assms(5) by (simp add: group_of_def)
  then have "OverwriteConnects env refs s = (Inr (), with_tables s (put_config (makeKey (conn_bucket out) connKey) (refs_json refs) (st_tables s)))"
    unfolding OverwriteConnects_calm [OF assms(1)] names by (simp add: with_groups_def)
  then show thesis
    by (rule that) (rule regrouped_put [OF assms(2) dec_refs_json], use assms(5) in \<open>simp add: list_all_iff\<close>)
qed

lemma normal_ref_id [simp]: "nr_Outbound r \<noteq> [] \<Longrightarrow> normal_ref r = r"
  by (simp add: normal_ref_def or_proxy_def)

definition add_member :: "node_ref \<Rightarrow> node_ref list \<Rightarrow> node_ref list" where
  "add_member w refs = (if \<exists>r \<in> set refs. EqualTo r w then refs else refs @ [w])"

lemma AddConnect_run:
  assumes "calm s" and "catalog_ok (st_tables s)" and "groups_ok (st_tables s)"
    and "nr_Outbound w \<in> set (outs_in (st_tables s))" and "small_ref w"
  obtains t' where "AddConnect w s = (Inr (), with_tables s t')"
    and "regrouped (nr_Outbound w) (add_member w (refs_of (group_in (st_tables s) (nr_Outbound w)))) (st_tables s) t'"
proof -
  let ?t = "st_tables s" and ?out = "nr_Outbound w"
  let ?refs = "refs_of (group_in ?t ?out)"
  have out: "?out \<noteq> []" using outs_in_mem [of "[]" ?t] assms(3,4) unfolding groups_ok_def by force
  have refs: "\<forall>r \<in> set ?refs. nr_Outbound r = ?out \<and> small_ref r" using groups_okD [OF assms(3,4)] by blast
  then have norm: "map normal_ref ?refs = ?refs" using out by (simp add: map_idI)
  have got: "map normal_ref (case (case config_in ?t (makeKey (conn_bucket ?out) connKey) of None \<Rightarrow> Inl KeyNotFound
      | Some v \<Rightarrow> (case dec_refs v of None \<Rightarrow> Inl DecodeError | Some x \<Rightarrow> Inr x)) of Inl _ \<Rightarrow> [] | Inr rs \<Rightarrow> rs) = ?refs"
    using norm by (auto simp: group_in_def refs_of_def split: option.splits)
  have run: "AddConnect w s = (if \<exists>r \<in> set ?refs. EqualTo r w then (Inr (), s)
      else (Inr (), with_tables s (put_config (makeKey (conn_bucket ?out) connKey) (refs_json (?refs @ [w])) ?t)))"
    using out assms(1)
    by (simp add: AddConnect_def Let_def and_then_attempt [OF attempt_Get] setValue_def got del: set_map)
  show thesis
  proof (cases "\<exists>r \<in> set ?refs. EqualTo r w")
    case True
    with run have "AddConnect w s = (Inr (), with_tables s ?t)" by simp
    then show thesis by (rule that) (use True assms(2) in \<open>simp add: add_member_def regrouped_refl\<close>)
  next
    case False
    with run have "AddConnect w s = (Inr (), with_tables s (put_config (makeKey (conn_bucket ?out) connKey) (refs_json (?refs @ [w])) ?t))" by simp
    then show thesis
    proof (rule that)
      have "dec_refs (refs_json (?refs @ [w])) = Some (?refs @ [w])"
        by (rule dec_refs_json) (use refs assms(5) in \<open>simp add: list_all_iff\<close>)
      from regrouped_put [OF assms(2) this] False
      show "regrouped ?out (add_member w ?refs) ?t (put_config (makeKey (conn_bucket ?out) connKey) (refs_json (?refs @ [w])) ?t)"
        by (simp add: add_member_def)
    qed
  qed
qed

lemma restore_members_run:
  assumes "calm (sv_store v)" and "catalog_ok (st_tables (sv_store v))" and "range_ok (ne_cat env)" and "out \<noteq> []"
    and "\<forall>r \<in> set (refs_of backup). nr_Outbound r = out \<and> small_ref r"
  obtains t' where "restore_members env out backup v = (Inr (), v\<lparr>sv_store := with_tables (sv_store v) t'\<rparr>)"
    and "regrouped out (refs_of backup) (st_tables (sv_store v)) t'"
proof (cases "refs_of backup = []")
  case True
  obtain t' where "ClearConnects out (sv_store v) = (Inr (), with_tables (sv_store v) t')" "regrouped out [] (st_tables (sv_store v)) t'"
    by (rule ClearConnects_run [OF assms(1,2,4)])
  with True show thesis by (intro that [of t']) (simp_all add: restore_members_def ignore_run on_store_def)
next
  case False
  obtain t' where "OverwriteConnects (ne_cat env) (refs_of backup) (sv_store v) = (Inr (), with_tables (sv_store v) t')"
    "regrouped out (refs_of backup) (st_tables (sv_store v)) t'"
    by (rule OverwriteConnects_run [OF assms(1-3) False assms(5)])
  with False show thesis by (intro that [of t']) (simp_all add: restore_members_def ignore_run on_store_def)
qed

section \<open>Connecting and replacing\<close>

text \<open>The groups, and nothing else of the catalog, differ at most in the members of \<open>out\<close>.\<close>

definition settled_group :: "string \<Rightarrow> node_ref list \<Rightarrow> tables \<Rightarrow> service \<Rightarrow> bool" where
  "settled_group out refs t v \<longleftrightarrow> calm (sv_store v) \<and> regrouped out refs t (st_tables (sv_store v))"

lemma settled_group_update:
  assumes "settled_group out refs t v"
  shows "settled_group out refs t (snd (updateV2RayConfig env b v))"
proof -
  have "same_catalog (st_tables (sv_store v)) (sv_store v)"
    using assms same_catalog_refl by (simp add: settled_group_def regrouped_def)
  note kept = update_same_catalog [OF this, of env b]
  show ?thesis
    using assms kept(2) regrouped_same [OF _ kept(1)] by (simp add: settled_group_def)
qed

lemma settled_group_restore:
  assumes "settled_group out refs t v" and "range_ok (ne_cat env)" and "out \<noteq> []"
    and "\<forall>r \<in> set (refs_of backup). nr_Outbound r = out \<and> small_ref r"
  shows "fst (restore_members env out backup v) = Inr () \<and> settled_group out (refs_of backup) t (snd (restore_members env out backup v))"
proof -
  have v: "calm (sv_store v)" "catalog_ok (st_tables (sv_store v))" using assms(1) by (simp_all add: settled_group_def regrouped_def)
  obtain t' where "restore_members env out backup v = (Inr (), v\<lparr>sv_store := with_tables (sv_store v) t'\<rparr>)"
    "regrouped out (refs_of backup) (st_tables (sv_store v)) t'"
    by (rule restore_members_run [OF v assms(2-4)])
  with assms(1) regrouped_again show ?thesis by (auto simp: settled_group_def)
qed

lemma on_store_settled:
  assumes "settled_group out refs t v" and "m (sv_store v) = (r, with_tables (sv_store v) t')"
    and "regrouped out refs' (st_tables (sv_store v)) t'"
  shows "on_store m v = (r, v\<lparr>sv_store := with_tables (sv_store v) t'\<rparr>)"
    and "settled_group out refs' t (v\<lparr>sv_store := with_tables (sv_store v) t'\<rparr>)"
  using assms regrouped_again by (auto simp: settled_group_def on_store_def)

lemma out_nonempty: "groups_ok t \<Longrightarrow> out \<in> set (outs_in t) \<Longrightarrow> out \<noteq> []"
  using outs_in_mem [of "[]" t] unfolding groups_ok_def by force

lemma LocateServerRaw_calm:
  assumes "calm s" and "catalog_ok (st_tables s)"
  shows "snd (LocateServerRaw env w s) = s"
proof -
  have "GetServers env s = (fst (GetServers env s), s)" "GetSubscriptions env s = (fst (GetSubscriptions env s), s)"
    by (simp_all add: GetServers_def GetSubscriptions_def and_then_def attempt_def reads [OF assms])
  then have "Locate env NewLocator w s = (fst (Locate env NewLocator w s), s)"
    by (auto simp: Locate_def Locator_Servers_def Locator_Subscriptions_def NewLocator_def and_then_def
        split: prod.split sum.split)
  then show ?thesis
    by (auto simp: LocateServerRaw_def and_then_def split: prod.splits sum.splits)
qed

text \<open>A change of one group that is tried out on the core and taken back when the core refuses it.\<close>

lemma group_tried:
  fixes v out
  defines "t \<equiv> st_tables (sv_store v)"
  assumes "calm (sv_store v)" and "catalog_ok t" and "groups_ok t" and "range_ok (ne_cat env)" and "out \<in> set (outs_in t)"
    and "m (sv_store v) = (Inr (), with_tables (sv_store v) t1)" and "regrouped out ns t t1"
    and v1: "v1 = v\<lparr>sv_store := with_tables (sv_store v) t1\<rparr>"
    and v2: "v2 = snd (updateV2RayConfig env b v1)"
    and v3: "v3 = snd (restore_members env out (group_in t out) v2)"
  shows "on_store m v = (Inr (), v1)" and "settled_group out ns t v1" and "settled_group out ns t v2"
    and "fst (restore_members env out (group_in t out) v2) = Inr ()" and "settled_group out (refs_of (group_in t out)) t v3"
    and "settled_group out (refs_of (group_in t out)) t (snd (updateV2RayConfig env b v3))"
proof -
  have start: "settled_group out (refs_of (group_in t out)) t v"
    using assms(2,3) by (simp add: settled_group_def regrouped_refl t_def)
  note changed = on_store_settled [where m = m, OF start assms(7) assms(8) [unfolded t_def], folded v1]
  then show "on_store m v = (Inr (), v1)" "settled_group out ns t v1" .
  show s2: "settled_group out ns t v2" unfolding v2 by (rule settled_group_update [OF changed(2)])
  have refs: "\<forall>r \<in> set (refs_of (group_in t out)). nr_Outbound r = out \<and> small_ref r"
    using groups_okD [OF assms(4,6)] by blast
  note back' = settled_group_restore [OF s2 assms(5) out_nonempty [OF assms(4,6)] refs]
  then show "fst (restore_members env out (group_in t out) v2) = Inr ()" "settled_group out (refs_of (group_in t out)) t v3"
    unfolding v3 by simp_all
  then show "settled_group out (refs_of (group_in t out)) t (snd (updateV2RayConfig env b v3))"
    by (intro settled_group_update)
qed


text \<open>What a request to replace the members stands for.\<close>

definition touch_key :: "node_ref \<Rightarrow> string \<times> int \<times> int" where
  "touch_key n = (nr_TYPE n, nr_ID n, nr_Sub n)"

definition touch_of :: "string \<Rightarrow> node_ref \<Rightarrow> node_ref" where
  "touch_of out r = (if nr_TYPE r = ServerType then r\<lparr>nr_Outbound := out, nr_Sub := 0\<rparr> else r\<lparr>nr_Outbound := out\<rparr>)"

lemma normalize_step:
  assumes "normalize_touches out seen (r # refs) = Inr ns"
  obtains "touch_key (touch_of out r) \<in> set seen" and "normalize_touches out seen refs = Inr ns"
  | rest where "touch_key (touch_of out r) \<notin> set seen" and "0 < nr_ID r" and "ns = touch_of out r # rest"
      and "normalize_touches out (touch_key (touch_of out r) # seen) refs = Inr rest"
proof -
  let ?w = "if nr_TYPE r = ServerType then r\<lparr>nr_Outbound := out, nr_Sub := 0\<rparr> else r\<lparr>nr_Outbound := out\<rparr>"
  have pos: "0 < nr_ID r" using assms by (auto simp: Let_def split: if_splits)
  have w: "(if nr_TYPE (r\<lparr>nr_Outbound := out\<rparr>) = ServerType then r\<lparr>nr_Outbound := out, nr_Sub := 0\<rparr> else r\<lparr>nr_Outbound := out\<rparr>) = touch_of out r"
    by (simp add: touch_of_def)
  have "normalize_touches out seen (r # refs) =
      (if touch_key (touch_of out r) \<in> set seen then normalize_touches out seen refs
       else case normalize_touches out (touch_key (touch_of out r) # seen) refs of Inl e \<Rightarrow> Inl e | Inr rest \<Rightarrow> Inr (touch_of out r # rest))"
    using assms unfolding normalize_touches.simps Let_def w touch_key_def by (simp split: if_splits)
  with assms pos that show thesis by (auto split: if_splits sum.splits)
qed

lemma normalize_touches_refs:
  assumes "normalize_touches out seen refs = Inr ns"
  shows "set ns \<subseteq> touch_of out ` {r \<in> set refs. 0 < nr_ID r}" and "distinct (map touch_key ns)"
    and "touch_key ` set ns \<inter> set seen = {}" and "touch_key ` touch_of out ` set refs \<subseteq> touch_key ` set ns \<union> set seen"
proof -
  have "set ns \<subseteq> touch_of out ` {r \<in> set refs. 0 < nr_ID r} \<and> distinct (map touch_key ns)
    \<and> touch_key ` set ns \<inter> set seen = {} \<and> touch_key ` touch_of out ` set refs \<subseteq> touch_key ` set ns \<union> set seen"
    using assms
  proof (induction refs arbitrary: ns seen)
    case (Cons r refs)
    from Cons.prems show ?case
    proof (rule normalize_step)
      assume "touch_key (touch_of out r) \<in> set seen" "normalize_touches out seen refs = Inr ns"
      with Cons.IH [of seen ns] show ?thesis by auto
    next
      fix rest
      assume k: "touch_key (touch_of out r) \<notin> set seen" "0 < nr_ID r" "ns = touch_of out r # rest"
        and "normalize_touches out (touch_key (touch_of out r) # seen) refs = Inr rest"
      note ih = Cons.IH [OF this(4)]
      show ?thesis
        unfolding k(3) using ih k(1,2) by auto
    qed
  qed simp
  then show "set ns \<subseteq> touch_of out ` {r \<in> set refs. 0 < nr_ID r}" "distinct (map touch_key ns)"
    "touch_key ` set ns \<inter> set seen = {}" "touch_key ` touch_of out ` set refs \<subseteq> touch_key ` set ns \<union> set seen"
    by simp_all
qed

lemma normalize_touches_all:
  assumes "normalize_touches out [] refs = Inr ns"
  shows "touch_key ` touch_of out ` set refs = touch_key ` set ns"
  using normalize_touches_refs(1,4) [OF assms] by auto

lemma replacement_run:
  fixes outbound v touches
  defines "out \<equiv> or_proxy outbound"
  defines "t \<equiv> st_tables (sv_store v)"
  assumes "calm (sv_store v)" and "catalog_ok t" and "groups_ok t"
    and "range_ok (ne_cat env)" and "list_all small_ref touches" and "out \<in> set (outs_in t)"
    and "os_AutoAdd (setting_in t out) = managed" and ns: "normalize_touches out [] touches = Inr ns"
  obtains v' where "replaceOutboundConnections env outbound touches managed v = (Inr (), v')" and "settled_group out ns t v'"
  | e v' where "replaceOutboundConnections env outbound touches managed v = (Inl e, v')"
      and "settled_group out (refs_of (group_in t out)) t v'"
proof -
  let ?s = "sv_store v" and ?run = "replaceOutboundConnections env outbound touches managed v"
  let ?store = "if ns = [] then ClearConnects out else OverwriteConnects (ne_cat env) ns"
  have out: "out \<noteq> []" by (rule out_nonempty [OF assms(5,8)])
  have small: "\<forall>r \<in> set ns. nr_Outbound r = out \<and> small_ref r"
    using normalize_touches_refs(1) [OF ns] assms(7) by (fastforce simp: touch_of_def small_ref_def small_def list_all_iff)
  obtain t1 where t1: "?store ?s = (Inr (), with_tables ?s t1)" "regrouped out ns t t1"
  proof (cases "ns = []")
    case True
    then show thesis using ClearConnects_run [OF assms(3) assms(4) [unfolded t_def] out] that unfolding t_def by auto
  next
    case False
    then show thesis using OverwriteConnects_run [OF assms(3) assms(4) [unfolded t_def] assms(6) False small] that unfolding t_def by auto
  qed
  note tried = group_tried [where m = ?store and b = True, OF assms(3) assms(4-6,8) [unfolded t_def] t1 [unfolded t_def] refl refl refl,
      folded t_def]
  have gets: "on_store (GetOutboundSetting out) v = (Inr (setting_in t out), v)"
    "on_store (GetConnectedServersByOutbound out) v = (Inr (group_in t out), v)"
    using out by (simp_all add: t_def on_store_def GetOutboundSetting_calm [OF assms(3)] GetConnectedServersByOutbound_calm [OF assms(3)] or_proxy_def)
  let ?v1 = "v\<lparr>sv_store := with_tables ?s t1\<rparr>"
  let ?v2 = "snd (UpdateGroupConfig env ?v1)"
  have "?run = (Inr (), ?v1) \<or> ?run = (Inr (), ?v2)
      \<or> (\<exists>e. ?run = (Inl e, snd (UpdateGroupConfig env (snd (restore_members env out (group_in t out) ?v2)))))"
    using gets tried(1,4) assms(9) ns
    by (auto simp: replaceOutboundConnections_def out_def [symmetric] Let_def and_then_def [of "on_store _"] and_then_def [of "attempt _"]
        attempt_def and_then_def [of "restore_members _ _ _"] case_prod_beta split: sum.split)
  then show thesis using tried(2,3,6) that by blast
qed


section \<open>The members that reach the core\<close>

text \<open>What the setting of a group selects from its members: the pinned member if there is one, in a
  group that keeps its current member that one or none, otherwise all.\<close>

definition chosen_members :: "'o node_env \<Rightarrow> outbound_setting \<Rightarrow> 'o server_info list \<Rightarrow> 'o server_info list" where
  "chosen_members env st ms =
     (let pinned = filter (\<lambda>i. link_of env i = os_Selected st) ms;
          current = filter (\<lambda>i. ne_Fingerprint env (link_of env i) = os_StickyCurrent st) ms
      in if os_Selected st \<noteq> [] \<and> pinned \<noteq> [] then take 1 pinned
         else if os_Type st = KeepCurrent then (if os_StickyCurrent st \<noteq> [] then take 1 current else [])
         else ms)"

definition members_of :: "string \<Rightarrow> 'o server_info list \<Rightarrow> 'o server_info list" where
  "members_of out infos = filter (\<lambda>i. si_OutboundName i = out) infos"

lemma members_of_simps [simp]:
  "members_of out [] = []"
  "members_of out (i # is) = (if si_OutboundName i = out then i # members_of out is else members_of out is)"
  by (simp_all add: members_of_def)

text \<open>The loop, for the members of one group.\<close>

lemma keep_loop_group:
  fixes env settings all out
  defines "manual \<equiv> \<exists>i \<in> set all. si_OutboundName i = out \<and> is_manual env settings i"
    and "sticky \<equiv> \<exists>i \<in> set all. si_OutboundName i = out \<and> is_sticky env settings i"
  shows "members_of out (keep_loop env settings all chosen infos) =
    (if manual then
       (if out \<in> set chosen then [] else take 1 (filter (\<lambda>i. link_of env i = os_Selected (settings out)) (members_of out infos)))
     else if os_Type (settings out) = KeepCurrent then
       (if sticky \<and> out \<notin> set chosen
        then take 1 (filter (\<lambda>i. ne_Fingerprint env (link_of env i) = os_StickyCurrent (settings out)) (members_of out infos)) else [])
     else members_of out infos)"
proof (induction infos arbitrary: chosen)
  case (Cons info infos)
  show ?case
  proof (cases "si_OutboundName info = out")
    case True
    show ?thesis
      unfolding keep_loop.simps Let_def True manual_def [symmetric] sticky_def [symmetric]
      using True by (auto simp: Cons.IH)
  next
    case False
    have "members_of out (keep_loop env settings all c infos) = members_of out (keep_loop env settings all (si_OutboundName info # c) infos)" for c
      using False by (simp add: Cons.IH)
    then show ?thesis
      using False Cons.IH [of chosen] by (auto simp: Let_def)
  qed
qed simp

text \<open>
  (C21) The nodes handed to the core are, group by group, the ones the setting of the group selects
  from its connected members.
\<close>

theorem selection_per_group:
  "members_of out (applySelection env settings infos) = chosen_members env (settings out) (members_of out infos)"
proof -
  let ?st = "settings out" and ?ms = "members_of out infos"
  let ?pinned = "filter (\<lambda>i. link_of env i = os_Selected ?st) ?ms"
  let ?current = "filter (\<lambda>i. ne_Fingerprint env (link_of env i) = os_StickyCurrent ?st) ?ms"
  have manual: "(\<exists>i \<in> set infos. si_OutboundName i = out \<and> is_manual env settings i) \<longleftrightarrow> os_Selected ?st \<noteq> [] \<and> ?pinned \<noteq> []"
    by (auto simp: is_manual_def Let_def members_of_def filter_empty_conv)
  have sticky: "(\<exists>i \<in> set infos. si_OutboundName i = out \<and> is_sticky env settings i)
      \<longleftrightarrow> os_Type ?st = KeepCurrent \<and> os_StickyCurrent ?st \<noteq> [] \<and> ?current \<noteq> []"
    by (auto simp: is_sticky_def Let_def members_of_def filter_empty_conv)
  show ?thesis
    unfolding applySelection_def keep_loop_group manual sticky chosen_members_def Let_def by auto
qed



end
