(* ===== verification/Spec2Isabelle.thy ===== *)
theory Spec2Isabelle
  imports Dns_Cache_Correct Dns_Rule_Correct Dns_Message_Correct Dns_Upstream_Correct Dns_Handler_Correct
    Dns_Listener_Correct Dns_Module_Correct Dns_Shutdown Core_Start_Correct Geosite_Correct
    Resolv_Hijack_Correct Catalog_Store Node_Connect
begin

text \<open>
  \<^bold>\<open>Verification of v2rayA: its DNS engine, its node catalog and its core process manager.\<close>

  v2rayA is a service that drives an xray-based core. Two chains of it are modelled.

  Names are resolved by a DNS module that lives in the core. The service turns the rules of the user
  into a configuration and points the system resolver at the module; the core reads the
  configuration, starts the module and lets it send queries directly, through a proxy or through the
  dispatcher of xray. This chain is modelled from the stored rules to the reply on the wire.

  Nodes are kept in a database: single servers, and subscriptions with their servers. The user
  connects nodes to groups; a group stores references to nodes by their position. Every change of
  nodes or groups has to keep these references right and to restart the core, which the process
  manager does together with hooks and the packet filter rules of the transparent proxy. This chain
  is modelled from the SQL statements to the running core.

  \<^bold>\<open>Parts and theories.\<close>
  \<^item> \<open>Prelude\<close>: machine types and the locales of stateful components (\<open>guarded_machine\<close>, \<open>machine\<close>,
    \<open>forgetful\<close>), interpreted on the cache, the router, the module, its metrics, the listener, the
    lifecycle, the configuration generator, the geosite cache and the resolver hijack.
  \<^item> \<open>Go_Std\<close>, \<open>Go_Net\<close>, \<open>Go_Print\<close>, \<open>Go_Text\<close>, \<open>Go_Json\<close>: the part of the Go library the sources
    use: strings, host:port pairs, addresses and networks, printed forms, white space, JSON values
    and how they are stored in structs.
  \<^item> \<open>Dns_Types\<close>: messages, queries, responses and configuration (\<open>core/dns/types.go\<close>, \<open>config.go\<close>,
    \<open>qtype.go\<close>). The message package is the parameter \<open>dns_lib\<close>.
  \<^item> \<open>Dns_Cache\<close>, \<open>Dns_Cache_Inv\<close>, \<open>Dns_Cache_Lru\<close>, \<open>Dns_Cache_Correct\<close>: the response cache
    (\<open>core/dns/cache.go\<close>): a heap of entries, a recency list and an index; it refines one bounded list
    in order of recency, and a hit is the response last stored under its key, aged and alive.
  \<^item> \<open>Dns_Rule\<close>, \<open>Dns_Rule_Correct\<close>: matchers and router (\<open>rule.go\<close>, \<open>router.go\<close>): compiled rules
    decide their documented meaning, routing is first match over any history of reloads.
  \<^item> \<open>Dns_Message\<close>, \<open>Dns_Message_Correct\<close>: validation, loop tokens, response building
    (\<open>validator.go\<close>, \<open>loop.go\<close>, \<open>response.go\<close>).
  \<^item> \<open>Dns_Upstream\<close>, \<open>Dns_Upstream_Correct\<close>: the upstream manager and the ways to an upstream
    (\<open>upstream.go\<close>, \<open>upstream_stub.go\<close>, \<open>doh.go\<close>): only sound answers to the question are handed on;
    framing and SOCKS5 requests are read back as written.
  \<^item> \<open>Dns_Metrics\<close>, \<open>Dns_Handler\<close>, \<open>Dns_Handler_Correct\<close>: the handler over router, manager, cache and
    metrics (\<open>handler.go\<close>, \<open>metrics.go\<close>): no cached answer crosses upstreams or channels.
  \<^item> \<open>Dns_Listener\<close>, \<open>Dns_Listener_Correct\<close>: servers and the packet callback (\<open>listener.go\<close>): every
    packet with a question is answered, replies mirror the client, looped queries are refused.
  \<^item> \<open>Dns_Module\<close>, \<open>Dns_Module_Correct\<close>, \<open>Dns_Shutdown\<close>: bootstrap, start, stop and the interleaving of
    a stop with queries in flight (\<open>module.go\<close>, \<open>dns_unix.go\<close>, \<open>socket_egress.go\<close>).
  \<^item> \<open>Geosite\<close>, \<open>Geosite_Correct\<close>: the resolver of geosite tags (\<open>core/main/geosite.go\<close>).
  \<^item> \<open>Svc_Dns\<close>, \<open>Svc_Dns_Correct\<close>: stored rules, settings, listen addresses and the generated
    configuration (\<open>service/db/configure\<close>, \<open>service/kernel/v2ray/template_dns.go\<close>, \<open>dnslisten.go\<close>).
  \<^item> \<open>Core_Start\<close>, \<open>Core_Start_Correct\<close>: reading the configuration and starting the module in the core
    (\<open>core/main/dns_module.go\<close>).
  \<^item> \<open>Resolv_Hijack\<close>, \<open>Resolv_Hijack_Correct\<close>: the hijack of \<open>/etc/resolv.conf\<close>
    (\<open>service/kernel/v2ray/dnsHijack.go\<close>), call by call, with crashes.
  \<^item> \<open>Effects\<close>: operations that change a state and may fail, and the rules by which a composed
    operation keeps an invariant (the collection \<open>keep\<close>).
  \<^item> \<open>Sql_Store\<close>, \<open>Sql_Lists\<close>, \<open>Sql_Lists_Correct\<close>: the tables, statements and transactions of the
    database (\<open>service/db\<close>): settings by bucket and key, the set of group names, and the lists of
    servers and subscriptions. The rows keep ordinals without gaps, and each operation acts on the
    lists in their order as it is meant to.
  \<^item> \<open>Catalog\<close>, \<open>Catalog_Groups\<close>, \<open>Catalog_Correct\<close>, \<open>Catalog_Store\<close>, with \<open>Go_Time\<close> for durations: nodes,
    references, locators, groups and their settings (\<open>service/db/configure\<close>: \<open>configure.go\<close>,
    \<open>which.go\<close>, \<open>raw.go\<close>, \<open>outbound.go\<close>). What is stored is read back, and a removal is atomic under
    any failing statement.
  \<^item> \<open>Core_Process\<close>, \<open>Core_Process_Correct\<close>: the process manager (\<open>service/kernel/v2ray\<close>:
    \<open>process.go\<close>, \<open>processManager.go\<close>, \<open>connectivity.go\<close>): start with rollback, stop, unexpected exit,
    hooks, rules, recovery and the connectivity checks. A start is all or nothing, and rules outlive
    no core. The locale \<open>store_frame\<close> is the contract of everything the manager may do to the
    database; it is interpreted on the catalog and on the absence of faults.
  \<^item> \<open>Node_Ops\<close>, \<open>Node_Ops_Correct\<close>, \<open>Node_Delete\<close>, \<open>Node_Update\<close>, \<open>Node_Connect\<close>: the operations on nodes
    (\<open>service/server/service\<close>: \<open>connect.go\<close>, \<open>core_config.go\<close>, \<open>touch.go\<close>, \<open>subscription.go\<close>, and the
    selection in \<open>process.go\<close>): connecting, replacing a group, deleting, and storing a subscription
    update keep every group on the nodes it had, or on what was asked for.

  \<^bold>\<open>How code becomes definitions.\<close> A struct is a record whose fields carry the Go names behind a short
  prefix; a method is a function with the receiver last or an explicit state; an error is a value of a
  sum or option type. Memory shared by pointers in the cache and the manager is an explicit heap. The
  clock is an argument. What lies outside the repository is a parameter: the message package
  (\<open>dns_lib\<close>), the network (\<open>net_env\<close>), sockets (\<open>listen_env\<close>), regular expressions, host names of
  URLs, protocol buffers, files and the machine (\<open>svc_env\<close>, \<open>core_env\<close>), the node objects with
  their links and what gjson makes of values of an unexpected kind (\<open>cat_env\<close>), the hooks and the
  kind of build (\<open>proc_env\<close>), and the generator of core templates and the fingerprint of a link
  (\<open>node_env\<close>). Hypotheses about them are named and have a concrete instance in a witness. The order
  in which Go ranges over a map is a parameter as well.

  An SQL statement is a function on the tables. A list of faults in the state says which statements
  fail, a list of outcomes which commands on the host fail and how launches end; theorems hold for all
  lists, except where \<open>calm\<close> asks for a database without faults.

  \<^bold>\<open>Bounds.\<close> Recursions are structural or come with a termination proof (the geosite loop consumes the
  file, trimming shortens the text); the parser of durations consumes at least one character per item
  and has the length of its text as fuel. A call that never returns is \<open>None\<close>: a listener that waits
  for a server that keeps running, and what depends on it. Lengths and TTLs are words of their width;
  durations are integers with the 64-bit wrap written out where a sum could leave the range; counters
  and ordinals are unbounded, and what is read from JSON must fit 64 bits.

  \<^bold>\<open>Concurrency.\<close> The cache, the router and the manager hold their lock for a whole method, so methods
  are steps; a query is one step of the module and a prefetch started in a goroutine is a step of its
  own, taken later in any order. The stop of the module is modelled at the level of its locks. The
  process manager frees its lock during a start and around commands on the host; there another
  goroutine may take a step, an exit of the core or a stop by the user, given by a list of intrusions.
  Operations on nodes run one after the other, as the service takes a lock around them.

  \<^bold>\<open>Not modelled, and why.\<close> Socket options and system calls of the platforms; the xray core and the
  proxy protocols, which are third-party code behind interfaces; the TUN stack; the engine of SQLite
  below its statements, and the creation and upgrade of the file; iptables, nftables and ip commands,
  of which the manager sees only success and the presence of rules; the content of core templates
  and of node links; the download of subscriptions, latency tests and timers; the web server and
  interface. They meet the modelled chains only through the parameters named above.

  \<^bold>\<open>Properties that span parts\<close> follow: with the configuration the service generates, the core started
  on it, and the module routing queries.
\<close>

text \<open>
  (C1) A query for the name of a proxy node, or a name below it, is resolved directly: in a core started
  with the configuration the service generated, whatever rules the user has and after any history of
  queries and prefetches, it goes to an upstream that is dialled by an address that is not a loopback
  address, and neither to the dispatcher nor to a proxy.
\<close>

theorem node_names_resolved_directly:
  assumes "exact_setting s"
    and "holds_config (ce_read cenv) f (generateDnsModuleConfig env s hosts)"
    and "startDnsModuleWithXray cenv [f] held = Some (None, Some m)"
    and "h \<in> set hosts" and "ParseIP h = []" and "h \<noteq> []" and "\<not> is_tag h"
    and "suffix_hit h (TrimSuffix (q_Name q) ''.'')"
    and "ms = foldl module_step (mo_core m) evs"
  shows "\<exists>u mgr. ms_UpstreamMgr ms = Some mgr \<and> routed_to ms q = Some u
    \<and> dialled_by_ip (ui_Addr u) \<and> ui_ProxyTag u = ''direct''
    \<and> (\<forall>net lib token. Exchange net lib token mgr (Some u) q = exchangeDirect net lib token mgr (Some u) q)"
proof -
  have nd: "h \<in> set (node_domains hosts)" using assms(4-6) by (simp add: node_domains_def)
  then have ne: "node_domains hosts \<noteq> []" by auto
  from started_generated [OF assms(1-3)] obtain rules ups resolved r where
    d: "decoded_rules (je_qtypes (ce_json cenv)) env hosts = Some rules"
    and pu: "prepare_upstreams (ce_module cenv) (config_of env s hosts rules) = (ups, resolved)"
    and mm: "ms_UpstreamMgr (mo_core m) = Some (make_manager True (mc_ProxyMap (config_of env s hosts rules)) ups resolved)"
    and r: "ms_Router (mo_core m) = Some r"
    and route: "\<And>q. Route r q = route_decision ups
        (selectDefaultUpstream ((config_of env s hosts rules)\<lparr>mc_Upstreams := ups\<rparr>))
        (find (\<lambda>rule. rule_matches (me_compile (ce_module cenv)) (Some (ce_geosite cenv)) rule q)
          (map rule_of_config rules))"
    by metis
  obtain rest where rules: "rules = \<lparr>rc_ID = ''rule-node'', rc_Domain = [], rc_DomainSuffix = node_domains hosts,
      rc_DomainRegex = [], rc_IP = [], rc_QueryType = [], rc_ClientIP = [], rc_Upstream = ''upstream-node'',
      rc_Action = ''route'', rc_Policy = ''single''\<rparr> # rest"
    using generated_node_rule [OF ne d] .
  have "rr_UpstreamID (Route r q) = ''upstream-node''"
    using node_rule_matches [OF nd assms(7,8), where compile = "me_compile (ce_module cenv)" and res = "Some (ce_geosite cenv)"]
    by (simp add: route route_decision_def rules rule_of_config_def)
  moreover obtain rest' where "ups = node_config env # rest'"
    "\<forall>u\<in>set rest'. uc_ID u \<noteq> [] \<and> uc_ID u \<noteq> ''upstream-node''"
    using prepared_upstreams [OF ne pu] .
  ultimately have "routed_to (mo_core m) q = Some (instance_of (node_config env))"
    by (simp add: routed_to_def r route_upstream_def mm node_instance(1))
  then have to: "routed_to ms q = Some (instance_of (node_config env))"
    using routed_to_routing [OF run_routing] assms(9) by metis
  have "ms_UpstreamMgr ms = ms_UpstreamMgr (mo_core m)"
    using run_routing [of "mo_core m" evs] by (simp add: assms(9) routing_def)
  with to mm show ?thesis
    using node_upstream_addr_ip
    by (auto simp: Exchange_def instance_of_def node_config_def or_else_def)
qed



theorem node_names_resolved_directly_witness:
  "\<exists>m u. startDnsModuleWithXray (sample_core stock_setting [''node.example'']) [''config.json''] None = Some (None, Some m)
     \<and> routed_to (mo_core m) node_query = Some u \<and> ui_ProxyTag u = ''direct''"
proof -
  obtain m where m: "startDnsModuleWithXray (sample_core stock_setting [''node.example'']) [''config.json''] None = Some (None, Some m)"
    using stock_starts by blast
  with node_names_resolved_directly [OF stock_exact sample_holds m, of "''node.example''" node_query "mo_core m" "[]"]
  show ?thesis by (auto simp: sample_node)
qed



end
